(* ===== verification/Prelude.thy ===== *)
theory Prelude
  imports Complex_Main "HOL-Library.Word" "HOL-Library.Sublist"
begin

text \<open>
  The vocabulary every component of the model shares: Go's error values and panics, its
  fixed-width integers, slice indexing, instants and durations, and the generic lemmas about
  them. Nothing here models a file of the repository; the theories that do import it.
\<close>

named_theorems go_bounds \<open>range facts of fixed-width values\<close>
named_theorems go_defs \<open>one-line helpers of the model that proofs unfold\<close>

section \<open>Errors and panics\<close>

text \<open>
  An \<open>error\<close> value of the program is either the text of an error an external call returned,
  an error the program builds itself, or one wrapped by \<open>fmt.Errorf("...: %w", err)\<close>; the
  wrapping site is named by an English gloss of the Korean message.
\<close>

datatype go_error =
    ErrExt string
  | ErrNew string
  | ErrWrap string go_error

text \<open>The run-time panics that the modelled statements can raise.\<close>

datatype go_panic =
    IndexOutOfRange
  | SliceOutOfRange
  | NilDereference
  | CloseOfClosedChannel
  | NonPositiveTicker
  | MakeSliceRange

text \<open>
  What a statement sequence does: it returns a value, panics, or (\<open>Diverge\<close>) runs on forever.
\<close>

datatype 'a outcome = Return 'a | Panic go_panic | Diverge

fun obind :: "'a outcome \<Rightarrow> ('a \<Rightarrow> 'b outcome) \<Rightarrow> 'b outcome" where
  "obind (Return x) f = f x"
| "obind (Panic p) f = Panic p"
| "obind Diverge f = Diverge"

definition outcome_of_option :: "'a option \<Rightarrow> 'a outcome" where
  "outcome_of_option r = (case r of None \<Rightarrow> Diverge | Some x \<Rightarrow> Return x)"

lemma obind_eq_Return [simp]: "obind m f = Return y \<longleftrightarrow> (\<exists>x. m = Return x \<and> f x = Return y)"
  by (cases m) auto

lemma obind_eq_Panic:
  "obind m f = Panic p \<longleftrightarrow> m = Panic p \<or> (\<exists>x. m = Return x \<and> f x = Panic p)"
  by (cases m) auto

lemma obind_assoc: "obind (obind m f) g = obind m (\<lambda>x. obind (f x) g)"
  by (cases m) simp_all

lemma outcome_of_option_simps [simp]:
  "outcome_of_option None = Diverge" "outcome_of_option (Some x) = Return x"
  by (simp_all add: outcome_of_option_def)

section \<open>Slices\<close>

text \<open>Indexing with Go's bounds check; a negative index panics as well.\<close>

definition go_index :: "'a list \<Rightarrow> int \<Rightarrow> 'a outcome" where
  "go_index xs i = (if 0 \<le> i \<and> i < int (length xs) then Return (xs ! nat i) else Panic IndexOutOfRange)"

text \<open>Storing through an index: \<open>xs[i] = v\<close>.\<close>

definition go_store :: "'a list \<Rightarrow> int \<Rightarrow> 'a \<Rightarrow> 'a list outcome" where
  "go_store xs i v =
     (if 0 \<le> i \<and> i < int (length xs) then Return (xs[nat i := v]) else Panic IndexOutOfRange)"

text \<open>Dropping a prefix: \<open>xs[n:]\<close>.\<close>

definition go_slice_from :: "'a list \<Rightarrow> nat \<Rightarrow> 'a list outcome" where
  "go_slice_from xs n = (if n \<le> length xs then Return (drop n xs) else Panic SliceOutOfRange)"

text \<open>Keeping a prefix: \<open>xs[:n]\<close> of a string.\<close>

definition go_slice_to :: "'a list \<Rightarrow> nat \<Rightarrow> 'a list outcome" where
  "go_slice_to xs n = (if n \<le> length xs then Return (take n xs) else Panic SliceOutOfRange)"

lemma go_store_length: "go_store xs i v = Return ys \<Longrightarrow> length ys = length xs"
  by (auto simp: go_store_def split: if_splits)

lemma go_store_panic: "go_store xs i v = Panic p \<longleftrightarrow> (i < 0 \<or> int (length xs) \<le> i) \<and> p = IndexOutOfRange"
  by (auto simp: go_store_def)

section \<open>Fixed-width integers\<close>

text \<open>
  Unsigned values are words, so that \<open>+\<close> and \<open>-\<close> wrap. Go's signed \<open>int\<close> and
  \<open>int64\<close> (64 bits on the two platforms the project builds for) are read as
  \<open>int\<close>; arithmetic on them goes through \<open>s64\<close>, which wraps in two's complement, and the
  conversion \<open>int64(u)\<close> of an unsigned value is \<open>sint\<close>.
\<close>

type_synonym uint64 = "64 word"
type_synonym uint32 = "32 word"
type_synonym uint16 = "16 word"
type_synonym int64 = int

definition s64 :: "int \<Rightarrow> int64" where
  "s64 x = (x + 2 ^ 63) mod 2 ^ 64 - 2 ^ 63"

definition int64_range :: "int \<Rightarrow> bool" where
  "int64_range x \<longleftrightarrow> - (2 ^ 63) \<le> x \<and> x < 2 ^ 63"

definition int64_of_uint64 :: "uint64 \<Rightarrow> int64" where
  "int64_of_uint64 w = sint w"

lemma s64_range [simp, go_bounds]: "int64_range (s64 x)"
  by (simp add: int64_range_def s64_def)

lemma s64_id [simp]: "int64_range x \<Longrightarrow> s64 x = x"
  by (simp add: int64_range_def s64_def)

lemma s64_add_left: "s64 (s64 x + y) = s64 (x + y)"
proof -
  have "s64 x + y + 2 ^ 63 = (x + 2 ^ 63) mod 2 ^ 64 + y" by (simp add: s64_def)
  then have "(s64 x + y + 2 ^ 63) mod 2 ^ 64 = ((x + 2 ^ 63) + y) mod 2 ^ 64"
    by (simp only: mod_add_left_eq)
  then show ?thesis by (simp add: s64_def algebra_simps)
qed

lemma s64_add_right: "s64 (y + s64 x) = s64 (y + x)"
  using s64_add_left [of x y] by (simp add: add.commute)

lemma int64_of_uint64_range [simp, go_bounds]: "int64_range (int64_of_uint64 w)"
  using sint_ge [of w] sint_lt [of w] by (simp add: int64_range_def int64_of_uint64_def)

lemma int64_of_uint64_eq:
  "int64_of_uint64 w = (if uint w < 2 ^ 63 then uint w else uint w - 2 ^ 64)"
proof -
  have hi: "uint w < 2 ^ 64" using uint_lt2p [of w] by simp
  have "uint w div 2 ^ 63 = (if uint w < 2 ^ 63 then 0 else 1)"
    using hi by (simp add: div_eq_0_iff) (simp add: div_pos_geq)
  with hi show ?thesis
    by (simp add: int64_of_uint64_def sint_uint signed_take_bit_eq_take_bit_minus
        take_bit_int_eq_self bit_iff_odd split: if_splits)
qed


section \<open>Lists\<close>

text \<open>A run of elements that satisfy \<open>P\<close>, ended by the end of the list or by one that does not.\<close>

lemma takeWhile_run:
  "\<forall>x \<in> set xs. P x \<Longrightarrow> ys = [] \<or> \<not> P (hd ys) \<Longrightarrow> takeWhile P (xs @ ys) = xs"
  by (induction xs) (auto simp: takeWhile_eq_Nil_iff)

lemma dropWhile_run:
  "\<forall>x \<in> set xs. P x \<Longrightarrow> ys = [] \<or> \<not> P (hd ys) \<Longrightarrow> dropWhile P (xs @ ys) = ys"
  by (induction xs) (auto simp: dropWhile_eq_self_iff)

end
