(* ===== verification/Float64.thy ===== *)
theory Float64
  imports Prelude
begin

text \<open>
  Go's \<open>float64\<close>: IEEE 754 binary64 with rounding to nearest, ties to even, as the language
  specification requires of \<open>+\<close>, \<open>-\<close>, \<open>*\<close>, \<open>/\<close> and of the conversions from
  integers. A value is a NaN, an infinity or a zero with its sign (\<open>True\<close> is negative), or a
  non-zero finite number given by its exact rational value. Everything is executable. The
  lemmas show that rounding is monotone and exact on representable numbers, which is what the
  components' bounds on percentages and rates rest on.
\<close>

datatype f64 = NaN | Inf bool | Zero bool | Fin rat

section \<open>Binary logarithms\<close>

fun ilog2 :: "nat \<Rightarrow> nat" where
  "ilog2 n = (if n \<le> 1 then 0 else Suc (ilog2 (n div 2)))"

declare ilog2.simps [simp del]

lemma ilog2_bounds: "0 < n \<Longrightarrow> 2 ^ ilog2 n \<le> n \<and> n < 2 ^ Suc (ilog2 n)"
proof (induction n rule: ilog2.induct)
  case (1 n)
  show ?case
  proof (cases "n \<le> 1")
    case True
    with 1(2) show ?thesis by (simp add: ilog2.simps [of n])
  next
    case False
    with 1(1) have "2 ^ ilog2 (n div 2) \<le> n div 2 \<and> n div 2 < 2 ^ Suc (ilog2 (n div 2))" by simp
    with False show ?thesis by (auto simp: ilog2.simps [of n])
  qed
qed

text \<open>Evaluation on numerals.\<close>

lemma ilog2_numeral [simp]:
  "ilog2 0 = 0" "ilog2 (Suc 0) = 0"
  "ilog2 (numeral (Num.Bit0 k)) = Suc (ilog2 (numeral k))"
  "ilog2 (numeral (Num.Bit1 k)) = Suc (ilog2 (numeral k))"
  by (subst ilog2.simps, simp)+

definition flog2 :: "rat \<Rightarrow> int" where
  "flog2 x = (if 1 \<le> x then int (ilog2 (nat \<lfloor>x\<rfloor>))
              else - int (Suc (ilog2 (nat (\<lceil>1 / x\<rceil> - 1)))))"

lemma rat_pow_le: assumes "2 ^ k \<le> n" shows "(2::rat) ^ k \<le> of_nat n"
proof -
  have "(of_nat (2 ^ k) :: rat) \<le> of_nat n" using assms by (simp only: of_nat_le_iff)
  then show ?thesis by simp
qed

lemma rat_lt_pow: assumes "n < 2 ^ k" shows "(of_nat n :: rat) + 1 \<le> 2 ^ k"
proof -
  have "(of_nat (n + 1) :: rat) \<le> of_nat (2 ^ k)" using assms by (simp only: of_nat_le_iff)
  then show ?thesis by simp
qed

lemma flog2_bounds_ge1:
  assumes "1 \<le> x" shows "2 powi flog2 x \<le> x \<and> x < 2 powi (flog2 x + 1)"
proof -
  define n where "n = nat \<lfloor>x\<rfloor>"
  have n0: "0 < n" using assms by (simp add: n_def le_floor_iff)
  have nx: "(of_nat n :: rat) = of_int \<lfloor>x\<rfloor>" using assms by (simp add: n_def)
  have fl: "of_int \<lfloor>x\<rfloor> \<le> x" "x < of_int \<lfloor>x\<rfloor> + 1" by linarith+
  have lo: "(2::rat) ^ ilog2 n \<le> of_nat n" using ilog2_bounds [OF n0] by (intro rat_pow_le) simp
  have hi: "(of_nat n :: rat) + 1 \<le> 2 ^ Suc (ilog2 n)" using ilog2_bounds [OF n0] by (intro rat_lt_pow) simp
  have f: "flog2 x = int (ilog2 n)" using assms by (simp add: flog2_def n_def)
  have p: "(2::rat) powi (int (ilog2 n) + 1) = 2 ^ Suc (ilog2 n)" by (simp add: power_int_add)
  show ?thesis unfolding f p power_int_of_nat by (intro conjI; use lo hi fl nx in linarith)
qed

lemma flog2_bounds_lt1:
  assumes "0 < x" "x < 1" shows "2 powi flog2 x \<le> x \<and> x < 2 powi (flog2 x + 1)"
proof -
  define c where "c = \<lceil>1 / x\<rceil>"
  define n where "n = nat (c - 1)"
  have "1 < 1 / x" using assms by (simp add: field_simps)
  then have c1: "1 < c" by (simp add: c_def less_ceiling_iff)
  have c2: "of_int c - 1 < 1 / x" "1 / x \<le> of_int c" unfolding c_def by linarith+
  have n0: "0 < n" using c1 by (simp add: n_def)
  have nx: "of_nat n = (of_int c - 1 :: rat)" using c1 by (simp add: n_def)
  have "(2::rat) ^ ilog2 n \<le> of_nat n" using ilog2_bounds [OF n0] by (intro rat_pow_le) simp
  then have lo: "(2::rat) ^ ilog2 n < 1 / x" using c2(1) nx by simp
  have "(of_nat n :: rat) + 1 \<le> 2 ^ Suc (ilog2 n)" using ilog2_bounds [OF n0] by (intro rat_lt_pow) simp
  then have hi: "1 / x \<le> (2::rat) ^ Suc (ilog2 n)" using c2(2) nx by simp
  have f: "flog2 x = - int (Suc (ilog2 n))" using assms by (simp add: flog2_def n_def c_def)
  have "(2::rat) powi flog2 x = 1 / 2 ^ Suc (ilog2 n)"
    unfolding f power_int_minus power_int_of_nat by (simp add: inverse_eq_divide)
  moreover have "(2::rat) powi (flog2 x + 1) = 1 / 2 ^ ilog2 n"
    unfolding f by (simp add: power_int_minus inverse_eq_divide)
  moreover have "1 / 2 ^ Suc (ilog2 n) \<le> x" using hi assms(1) by (simp add: field_simps)
  moreover have "x < 1 / 2 ^ ilog2 n" using lo assms(1) by (simp add: field_simps)
  ultimately show ?thesis by simp
qed

lemma flog2_bounds: "0 < x \<Longrightarrow> 2 powi flog2 x \<le> x \<and> x < 2 powi (flog2 x + 1)"
  using flog2_bounds_ge1 [of x] flog2_bounds_lt1 [of x] by (cases "x < 1") auto

lemma flog2_le_iff:
  assumes "0 < x" shows "k \<le> flog2 x \<longleftrightarrow> 2 powi k \<le> x"
proof
  assume "k \<le> flog2 x"
  then have "(2::rat) powi k \<le> 2 powi flog2 x" by (simp add: power_int_increasing)
  then show "2 powi k \<le> x" using flog2_bounds [OF assms] by linarith
next
  assume le: "2 powi k \<le> x"
  show "k \<le> flog2 x"
  proof (rule ccontr)
    assume "\<not> k \<le> flog2 x"
    then have "(2::rat) powi (flog2 x + 1) \<le> 2 powi k" by (simp add: power_int_increasing)
    with le flog2_bounds [OF assms] show False by linarith
  qed
qed

lemma flog2_mono: "0 < x \<Longrightarrow> x \<le> y \<Longrightarrow> flog2 x \<le> flog2 y"
  using flog2_le_iff [of y "flog2 x"] flog2_bounds [of x] by auto

section \<open>Rounding\<close>

definition rne :: "rat \<Rightarrow> int" where
  "rne x = (let f = \<lfloor>x\<rfloor>; d = x - of_int f in
     if d < 1 / 2 then f else if 1 / 2 < d then f + 1 else if even f then f else f + 1)"

lemma rne_of_int [simp]: "rne (of_int n) = n"
  by (simp add: rne_def)

lemma rne_cases: "rne x = \<lfloor>x\<rfloor> \<and> x \<le> of_int \<lfloor>x\<rfloor> + 1 / 2 \<or> rne x = \<lfloor>x\<rfloor> + 1 \<and> of_int \<lfloor>x\<rfloor> + 1 / 2 \<le> x"
  by (auto simp: rne_def Let_def)

lemma rne_mono: assumes "x \<le> y" shows "rne x \<le> rne y"
proof (cases "\<lfloor>x\<rfloor> = \<lfloor>y\<rfloor>")
  case True
  with assms show ?thesis by (auto simp: rne_def Let_def)
next
  case False
  then have "\<lfloor>x\<rfloor> + 1 \<le> \<lfloor>y\<rfloor>" using floor_mono [OF assms] by simp
  then show ?thesis using rne_cases [of x] rne_cases [of y] by auto
qed

text \<open>The exponent of the last place of a positive number, and the rounding of a positive number.\<close>

definition f64_exp :: "rat \<Rightarrow> int" where
  "f64_exp x = max (-1074) (flog2 x - 52)"

definition f64_mag :: "rat \<Rightarrow> rat" where
  "f64_mag x = of_int (rne (x / 2 powi f64_exp x)) * 2 powi f64_exp x"

definition f64_round :: "bool \<Rightarrow> rat \<Rightarrow> f64" where
  "f64_round s x =
     (if x = 0 then Zero s
      else let neg = x < 0; m = f64_mag \<bar>x\<bar> in
        if m = 0 then Zero neg
        else if 2 ^ 1024 \<le> m then Inf neg
        else Fin (if neg then - m else m))"

lemma f64_mag_nonneg: "0 < x \<Longrightarrow> 0 \<le> f64_mag x"
proof -
  assume "0 < x"
  then have "0 \<le> x / 2 powi f64_exp x" by simp
  then have "rne (of_int 0) \<le> rne (x / 2 powi f64_exp x)" by (intro rne_mono) simp
  then have "0 \<le> rne (x / 2 powi f64_exp x)" unfolding rne_of_int .
  then show ?thesis by (simp add: f64_mag_def)
qed

lemma f64_mag_exact:
  assumes "0 < x" "x = of_int n * 2 powi f64_exp x" shows "f64_mag x = x"
proof -
  have "x / 2 powi f64_exp x = of_int n" by (subst assms(2)) simp
  then show ?thesis using assms(2) by (simp add: f64_mag_def)
qed

text \<open>Rounding with a fixed last place keeps the order against multiples of that place.\<close>

lemma rne_scaled_le:
  fixes x :: rat assumes "x \<le> of_int n * 2 powi e" shows "of_int (rne (x / 2 powi e)) * 2 powi e \<le> (of_int n * 2 powi e :: rat)"
proof -
  have "x / 2 powi e \<le> of_int n" using assms by (simp add: field_simps)
  then have "rne (x / 2 powi e) \<le> n" using rne_mono [of _ "of_int n"] by simp
  then show ?thesis by (simp add: mult_right_mono)
qed

lemma rne_scaled_ge:
  fixes x :: rat assumes "of_int n * 2 powi e \<le> x" shows "(of_int n * 2 powi e :: rat) \<le> of_int (rne (x / 2 powi e)) * 2 powi e"
proof -
  have "of_int n \<le> x / 2 powi e" using assms by (simp add: field_simps)
  then have "n \<le> rne (x / 2 powi e)" using rne_mono [of "of_int n"] by simp
  then show ?thesis by (simp add: mult_right_mono)
qed

lemma powi_multiple:
  assumes "e \<le> k" shows "(2::rat) powi k = of_int (2 ^ nat (k - e)) * 2 powi e"
proof -
  have "(2::rat) powi k = 2 powi (k - e) * 2 powi e" by (simp flip: power_int_add)
  moreover have "(2::rat) powi (k - e) = 2 ^ nat (k - e)" using assms by (simp add: power_int_def)
  ultimately show ?thesis by simp
qed

lemma f64_mag_le_pow:
  assumes "0 < x" "x \<le> 2 powi k" "f64_exp x \<le> k" shows "f64_mag x \<le> 2 powi k"
  using assms(2) rne_scaled_le [of x "2 ^ nat (k - f64_exp x)" "f64_exp x"] powi_multiple [OF assms(3)]
  by (simp add: f64_mag_def)

lemma f64_mag_ge_pow:
  assumes "0 < x" "2 powi k \<le> x" "f64_exp x \<le> k" shows "2 powi k \<le> f64_mag x"
  using assms(2) rne_scaled_ge [of "2 ^ nat (k - f64_exp x)" "f64_exp x" x] powi_multiple [OF assms(3)]
  by (simp add: f64_mag_def)

lemma f64_mag_mono:
  assumes "0 < x" "x \<le> y" shows "f64_mag x \<le> f64_mag y"
proof (cases "f64_exp x = f64_exp y")
  case True
  have "rne (x / 2 powi f64_exp y) \<le> rne (y / 2 powi f64_exp y)"
    using assms by (intro rne_mono) (simp add: divide_right_mono)
  then show ?thesis by (simp add: f64_mag_def True mult_right_mono)
next
  case False
  define k where "k = flog2 y"
  have le: "flog2 x \<le> k" using assms by (simp add: flog2_mono k_def)
  with False have lt: "flog2 x < k" "-1074 < k - 52" by (auto simp: f64_exp_def k_def max_def split: if_splits)
  have "x \<le> 2 powi k"
    using flog2_le_iff [OF assms(1), of k] lt(1) by linarith
  then have "f64_mag x \<le> 2 powi k"
    using lt by (intro f64_mag_le_pow [OF assms(1)]) (auto simp: f64_exp_def)
  also have "\<dots> \<le> f64_mag y"
    using assms lt(2) flog2_bounds [of y] by (intro f64_mag_ge_pow) (auto simp: f64_exp_def k_def)
  finally show ?thesis .
qed


lemma f64_mag_scaled_exact:
  assumes "0 < x" "x = of_int n * 2 powi k" "f64_exp x \<le> k" shows "f64_mag x = x"
proof (rule f64_mag_exact [OF assms(1)])
  show "x = of_int (n * 2 ^ nat (k - f64_exp x)) * 2 powi f64_exp x"
    using assms(2) powi_multiple [OF assms(3)] by simp
qed

lemma f64_mag_of_int:
  assumes "0 < n" "n \<le> 2 ^ 53" shows "f64_mag (of_int n) = of_int n"
proof (cases "n = 2 ^ 53")
  case True
  have "\<not> 54 \<le> flog2 (of_int n)" using assms flog2_le_iff [of "of_int n" 54] True by simp
  then have e: "f64_exp (of_int n) \<le> 1" by (simp add: f64_exp_def)
  show ?thesis using assms(1) True
    by (intro f64_mag_scaled_exact [OF _ _ e, where n = "2 ^ 52"]) simp_all
next
  case False
  with assms have "\<not> 53 \<le> flog2 (of_int n)" using flog2_le_iff [of "of_int n" 53] by simp
  then have e: "f64_exp (of_int n) \<le> 0" by (simp add: f64_exp_def)
  show ?thesis using assms(1) by (intro f64_mag_scaled_exact [OF _ _ e, where n = n]) simp_all
qed

section \<open>Operations\<close>

fun f64_val :: "f64 \<Rightarrow> rat" where
  "f64_val (Fin r) = r"
| "f64_val _ = 0"

fun f64_sign :: "f64 \<Rightarrow> bool" where
  "f64_sign NaN = False"
| "f64_sign (Inf s) = s"
| "f64_sign (Zero s) = s"
| "f64_sign (Fin r) = (r < 0)"

fun f64_finite :: "f64 \<Rightarrow> bool" where
  "f64_finite NaN = False"
| "f64_finite (Inf s) = False"
| "f64_finite _ = True"

definition f64_of_int :: "int \<Rightarrow> f64" where
  "f64_of_int n = f64_round False (of_int n)"

fun f64_uminus :: "f64 \<Rightarrow> f64" where
  "f64_uminus NaN = NaN"
| "f64_uminus (Inf s) = Inf (\<not> s)"
| "f64_uminus (Zero s) = Zero (\<not> s)"
| "f64_uminus (Fin r) = Fin (- r)"

fun f64_plus :: "f64 \<Rightarrow> f64 \<Rightarrow> f64" where
  "f64_plus NaN b = NaN"
| "f64_plus a NaN = NaN"
| "f64_plus (Inf s) (Inf t) = (if s = t then Inf s else NaN)"
| "f64_plus (Inf s) b = Inf s"
| "f64_plus a (Inf t) = Inf t"
| "f64_plus (Zero s) (Zero t) = Zero (s \<and> t)"
| "f64_plus a b = f64_round False (f64_val a + f64_val b)"

fun f64_times :: "f64 \<Rightarrow> f64 \<Rightarrow> f64" where
  "f64_times NaN b = NaN"
| "f64_times a NaN = NaN"
| "f64_times (Inf s) (Zero t) = NaN"
| "f64_times (Zero s) (Inf t) = NaN"
| "f64_times (Inf s) b = Inf (s \<noteq> f64_sign b)"
| "f64_times a (Inf t) = Inf (f64_sign a \<noteq> t)"
| "f64_times a b = f64_round (f64_sign a \<noteq> f64_sign b) (f64_val a * f64_val b)"

fun f64_divide :: "f64 \<Rightarrow> f64 \<Rightarrow> f64" where
  "f64_divide NaN b = NaN"
| "f64_divide a NaN = NaN"
| "f64_divide (Inf s) (Inf t) = NaN"
| "f64_divide (Inf s) b = Inf (s \<noteq> f64_sign b)"
| "f64_divide a (Inf t) = Zero (f64_sign a \<noteq> t)"
| "f64_divide (Zero s) (Zero t) = NaN"
| "f64_divide a (Zero t) = Inf (f64_sign a \<noteq> t)"
| "f64_divide a b = f64_round (f64_sign a \<noteq> f64_sign b) (f64_val a / f64_val b)"

fun f64_less :: "f64 \<Rightarrow> f64 \<Rightarrow> bool" where
  "f64_less NaN b = False"
| "f64_less a NaN = False"
| "f64_less (Inf s) (Inf t) = (s \<and> \<not> t)"
| "f64_less (Inf s) b = s"
| "f64_less a (Inf t) = (\<not> t)"
| "f64_less a b = (f64_val a < f64_val b)"

fun f64_less_eq :: "f64 \<Rightarrow> f64 \<Rightarrow> bool" where
  "f64_less_eq NaN b = False"
| "f64_less_eq a NaN = False"
| "f64_less_eq (Inf s) (Inf t) = (s \<or> \<not> t)"
| "f64_less_eq (Inf s) b = s"
| "f64_less_eq a (Inf t) = (\<not> t)"
| "f64_less_eq a b = (f64_val a \<le> f64_val b)"

text \<open>Go's \<open>==\<close>: a NaN equals nothing and the two zeros are equal.\<close>

definition f64_eq :: "f64 \<Rightarrow> f64 \<Rightarrow> bool" where
  "f64_eq a b \<longleftrightarrow> f64_less_eq a b \<and> f64_less_eq b a"

instantiation f64 :: "{zero, one, plus, minus, uminus, times, inverse, ord}"
begin

definition zero_f64 :: f64 where "zero_f64 = Zero False"
definition one_f64 :: f64 where "one_f64 = Fin 1"
definition plus_f64 :: "f64 \<Rightarrow> f64 \<Rightarrow> f64" where "plus_f64 = f64_plus"
definition uminus_f64 :: "f64 \<Rightarrow> f64" where "uminus_f64 = f64_uminus"
definition minus_f64 :: "f64 \<Rightarrow> f64 \<Rightarrow> f64" where "minus_f64 a b = f64_plus a (f64_uminus b)"
definition times_f64 :: "f64 \<Rightarrow> f64 \<Rightarrow> f64" where "times_f64 = f64_times"
definition divide_f64 :: "f64 \<Rightarrow> f64 \<Rightarrow> f64" where "divide_f64 = f64_divide"
definition inverse_f64 :: "f64 \<Rightarrow> f64" where "inverse_f64 a = f64_divide (Fin 1) a"
definition less_f64 :: "f64 \<Rightarrow> f64 \<Rightarrow> bool" where "less_f64 = f64_less"
definition less_eq_f64 :: "f64 \<Rightarrow> f64 \<Rightarrow> bool" where "less_eq_f64 = f64_less_eq"

instance ..

end

lemmas f64_ops = zero_f64_def one_f64_def plus_f64_def uminus_f64_def minus_f64_def times_f64_def
  divide_f64_def less_f64_def less_eq_f64_def

section \<open>Bounds\<close>

lemma f64_round_of_int:
  assumes "n \<noteq> 0" "\<bar>n\<bar> \<le> 2 ^ 53" shows "f64_round s (of_int n) = Fin (of_int n)"
proof -
  have m: "f64_mag \<bar>of_int n\<bar> = \<bar>of_int n\<bar>"
    using f64_mag_of_int [of "\<bar>n\<bar>"] assms by simp
  have "\<bar>of_int n\<bar> < (2 ^ 1024 :: rat)"
  proof -
    have "\<bar>n\<bar> < 2 ^ 1024" using assms(2) by (rule order_le_less_trans) simp
    then have "of_int \<bar>n\<bar> < (of_int (2 ^ 1024) :: rat)" by (simp only: of_int_less_iff)
    then show ?thesis by simp
  qed
  with m assms(1) show ?thesis by (simp add: f64_round_def Let_def)
qed

lemma f64_of_int_small [simp]: "n \<noteq> 0 \<Longrightarrow> \<bar>n\<bar> \<le> 2 ^ 53 \<Longrightarrow> f64_of_int n = Fin (of_int n)"
  by (simp add: f64_of_int_def f64_round_of_int)

lemma f64_of_int_0 [simp]: "f64_of_int 0 = Zero False"
  by (simp add: f64_of_int_def f64_round_def)

text \<open>Every result of rounding is a number, never a NaN, and rounding keeps the sign.\<close>

lemma f64_round_nonneg: "0 \<le> x \<Longrightarrow> 0 \<le> f64_round s x"
  using f64_mag_nonneg [of x] by (auto simp: f64_round_def Let_def f64_ops)

lemma f64_round_mono:
  assumes "0 \<le> x" "x \<le> y" shows "f64_round s x \<le> f64_round t y"
proof (cases "x = 0")
  case True
  then show ?thesis using f64_round_nonneg [of y t] assms
    by (cases "f64_round t y") (auto simp: f64_round_def f64_ops)
next
  case False
  with assms have "0 < x" "0 < y" "f64_mag x \<le> f64_mag y" "0 \<le> f64_mag x" "0 \<le> f64_mag y"
    using f64_mag_mono [of x y] f64_mag_nonneg by auto
  then show ?thesis by (auto simp: f64_round_def Let_def f64_ops)
qed

lemma f64_round_le_int:
  assumes "0 \<le> x" "x \<le> of_int n" "0 < n" "n \<le> 2 ^ 53" shows "f64_round s x \<le> Fin (of_int n)"
  using f64_round_mono [of x "of_int n" s False] f64_round_of_int [of n False] assms by simp

lemma f64_nonneg_cases:
  assumes "0 \<le> a" obtains (Inf) "a = Inf False" | (Zero) s where "a = Zero s" | (Fin) r where "a = Fin r" "0 \<le> r"
  using assms by (cases a) (auto simp: f64_ops)

lemma f64_of_int_nonneg: "0 \<le> n \<Longrightarrow> 0 \<le> f64_of_int n"
  by (simp add: f64_of_int_def f64_round_nonneg)

lemma f64_of_int_mono: "0 \<le> m \<Longrightarrow> m \<le> n \<Longrightarrow> f64_of_int m \<le> f64_of_int n"
  by (simp add: f64_of_int_def f64_round_mono)

lemma f64_divide_nonneg:
  assumes "0 \<le> a" "0 < b" shows "\<not> (a = Inf False \<and> b = Inf False) \<Longrightarrow> 0 \<le> a / b"
  using assms by (cases a; cases b) (auto simp: f64_ops intro!: f64_round_nonneg [unfolded f64_ops])

lemma f64_times_nonneg:
  assumes "0 \<le> a" "0 < b" shows "\<not> (f64_val a = 0 \<and> b = Inf False \<and> f64_finite a) \<Longrightarrow> 0 \<le> a * b"
  using assms by (cases a; cases b) (auto simp: f64_ops intro!: f64_round_nonneg [unfolded f64_ops])


lemma f64_of_int_pos:
  assumes "0 < n" "n \<le> 2 ^ 64" obtains r where "f64_of_int n = Fin r" "1 \<le> r"
proof -
  let ?x = "of_int n :: rat"
  have x: "0 < ?x" "1 \<le> ?x" using assms(1) by simp_all
  have "?x \<le> of_int (2 ^ 64)" using assms(2) by (simp only: of_int_le_iff)
  then have hi: "?x \<le> 2 powi 64" by simp
  then have "\<not> 65 \<le> flog2 ?x"
    using flog2_le_iff [OF x(1), of 65] by simp
  then have "flog2 ?x \<le> 64" by simp
  then have "f64_mag ?x \<le> 2 powi 64"
    using hi by (intro f64_mag_le_pow [OF x(1)]) (simp_all add: f64_exp_def)
  moreover have "(2::rat) powi 64 < 2 ^ 1024" by simp
  moreover have "1 \<le> f64_mag ?x"
    using f64_mag_mono [of 1 ?x] f64_mag_of_int [of 1] x by simp
  ultimately show ?thesis
    using x(1) by (intro that [of "f64_mag ?x"]) (simp_all add: f64_of_int_def f64_round_def Let_def)
qed

text \<open>
  A ratio of two counters, first below the second, as a percentage: the shape
  \<open>float64(a) / float64(b) * 100.0\<close> stays within 0 and 100 in spite of rounding.
\<close>

lemma f64_percent_bounds:
  assumes "0 \<le> a" "a \<le> b" "0 < b" "b \<le> 2 ^ 64"
  defines "p \<equiv> f64_of_int a / f64_of_int b * f64_of_int 100"
  shows "0 \<le> p \<and> p \<le> f64_of_int 100"
proof -
  obtain r where r: "f64_of_int b = Fin r" "1 \<le> r" using f64_of_int_pos assms(3,4) by blast
  show ?thesis
  proof (cases "a = 0")
    case True
    then show ?thesis using r by (simp add: p_def f64_ops f64_round_def)
  next
    case False
    with assms have "0 < a" "a \<le> 2 ^ 64" by simp_all
    then obtain q where q: "f64_of_int a = Fin q" "1 \<le> q" using f64_of_int_pos by blast
    have "q \<le> r" using f64_of_int_mono [OF assms(1,2)] q r by (simp add: f64_ops)
    then have qr: "0 \<le> q / r" "q / r \<le> of_int 1" using q r by (simp_all add: field_simps)
    define d where "d = f64_of_int a / f64_of_int b"
    have pd: "p = d * f64_of_int 100" by (simp add: p_def d_def)
    have d: "d = f64_round False (q / r)" using q r by (simp add: d_def f64_ops)
    have "0 \<le> d" "d \<le> Fin (of_int 1)"
      unfolding d using qr f64_round_nonneg f64_round_le_int [OF qr] by simp_all
    then show ?thesis
    proof (cases d rule: f64_nonneg_cases)
      case (Fin v)
      with \<open>d \<le> Fin (of_int 1)\<close> have v: "0 \<le> v * 100" "v * 100 \<le> of_int 100" by (simp_all add: f64_ops)
      have p: "p = f64_round False (v * 100)" using Fin by (simp add: pd f64_ops)
      show ?thesis unfolding p using f64_round_nonneg [OF v(1)] f64_round_le_int [OF v] by simp
    qed (use \<open>d \<le> Fin (of_int 1)\<close> in \<open>simp_all add: pd f64_ops f64_round_def\<close>)
  qed
qed


text \<open>A power of two of the format bounds the rounding of what lies above it.\<close>

lemma f64_mag_ge_powi:
  assumes "-1074 \<le> k" "2 powi k \<le> x" shows "2 powi k \<le> f64_mag x"
proof -
  have x: "0 < x" by (rule less_le_trans [OF _ assms(2)]) simp
  have le: "k \<le> flog2 x" using assms(2) flog2_le_iff [OF x] by simp
  then have "(2::rat) powi k \<le> 2 powi flog2 x" by (rule power_int_increasing) simp
  also have "2 powi flog2 x \<le> f64_mag x"
    using le assms(1) flog2_bounds [OF x] by (intro f64_mag_ge_pow [OF x]) (auto simp: f64_exp_def)
  finally show ?thesis .
qed

lemma f64_round_Fin:
  assumes "-1074 \<le> k" "2 powi k \<le> x" "x \<le> of_int n" "n \<le> 2 ^ 53"
  obtains v where "f64_round s x = Fin v" "2 powi k \<le> v" "0 < v" "v \<le> of_int n"
proof -
  have x: "0 < x" by (rule less_le_trans [OF _ assms(2)]) simp
  then have n: "0 < n" using assms(3) by (metis of_int_0_less_iff order_less_le_trans)
  have m: "2 powi k \<le> f64_mag x" by (rule f64_mag_ge_powi [OF assms(1,2)])
  have m0: "0 < f64_mag x" by (rule less_le_trans [OF _ m]) simp
  have le: "f64_round s x \<le> Fin (of_int n)" using f64_round_le_int [of x n s] x n assms by simp
  show ?thesis
    using x m0 le by (intro that [of "f64_mag x"] m) (auto simp: f64_round_def Let_def f64_ops split: if_splits)
qed

lemma f64_plus_nonneg:
  assumes "0 \<le> a" "0 \<le> b" shows "0 \<le> (a + b :: f64)"
  using assms by (cases a; cases b) (auto simp: f64_ops intro!: f64_round_nonneg [unfolded f64_ops])

text \<open>Rules that evaluate one rounding on a numeral fraction.\<close>

lemmas f64_eval = f64_round_def f64_mag_def f64_exp_def flog2_def rne_def Let_def power_int_def

lemma f64_zero_le_zero [simp]: "(0::f64) \<le> 0"
  by (simp add: f64_ops)

end
