(* ===== verification/Go_Time.thy ===== *)
theory Go_Time
  imports Float64
begin

text \<open>
  The part of Go's package \<open>time\<close> that the collectors use. An instant is the number of
  nanoseconds since the zero \<open>Time\<close> (January 1, year 1), on the clock that \<open>Sub\<close> and
  \<open>Since\<close> compare; a \<open>Duration\<close> is a signed 64-bit count of nanoseconds. \<open>Sub\<close>
  saturates, so a cache that was never filled (zero instant) is about 292 years old.
\<close>

type_synonym instant = int
type_synonym duration = int

definition zero_time :: instant where "zero_time = 0"

definition is_zero_time :: "instant \<Rightarrow> bool" where "is_zero_time t \<longleftrightarrow> t = zero_time"

definition max_duration :: duration where "max_duration = 2 ^ 63 - 1"

definition min_duration :: duration where "min_duration = - (2 ^ 63)"

definition time_sub :: "instant \<Rightarrow> instant \<Rightarrow> duration" where
  "time_sub t u = max min_duration (min max_duration (t - u))"

text \<open>\<open>time.Duration(n) * time.Second\<close>, \<open>* time.Millisecond\<close>: 64-bit products, which wrap.\<close>

definition dur_seconds :: "int64 \<Rightarrow> duration" where "dur_seconds n = s64 (n * 1000000000)"

definition dur_millis :: "int64 \<Rightarrow> duration" where "dur_millis n = s64 (n * 1000000)"

text \<open>Go's integer division truncates towards zero.\<close>

definition go_quot :: "int \<Rightarrow> int \<Rightarrow> int" where
  "go_quot a b = sgn a * sgn b * (\<bar>a\<bar> div \<bar>b\<bar>)"

definition go_rem :: "int \<Rightarrow> int \<Rightarrow> int" where
  "go_rem a b = a - b * go_quot a b"

definition dur_to_seconds :: "duration \<Rightarrow> f64" where
  "dur_to_seconds d =
     f64_of_int (go_quot d 1000000000) + f64_of_int (go_rem d 1000000000) / f64_of_int 1000000000"

text \<open>\<open>time.NewTicker\<close> panics when its period is not positive.\<close>

definition new_ticker :: "duration \<Rightarrow> unit outcome" where
  "new_ticker d = (if d \<le> 0 then Panic NonPositiveTicker else Return ())"

lemma dur_seconds_small: "0 \<le> n \<Longrightarrow> n \<le> 9223372036 \<Longrightarrow> dur_seconds n = n * 1000000000"
  by (simp add: dur_seconds_def int64_range_def)

lemma time_sub_range [go_bounds]: "int64_range (time_sub t u)"
  by (auto simp: time_sub_def int64_range_def max_duration_def min_duration_def)

lemma time_sub_less_iff:
  "int64_range c \<Longrightarrow> time_sub t u < c \<longleftrightarrow> t - u < c \<and> min_duration < c"
  by (auto simp: time_sub_def int64_range_def max_duration_def min_duration_def)

lemma time_sub_less: "time_sub t u < c \<Longrightarrow> int64_range c \<Longrightarrow> t - u < c"
  by (simp add: time_sub_less_iff)

text \<open>A collector whose cache has never been filled sees it as expired.\<close>

lemma time_sub_zero_time:
  "max_duration \<le> t \<Longrightarrow> int64_range c \<Longrightarrow> \<not> time_sub t zero_time < c"
  by (auto simp: time_sub_def zero_time_def int64_range_def max_duration_def min_duration_def)

lemma go_quot_nonneg [simp]: "0 \<le> a \<Longrightarrow> 0 < b \<Longrightarrow> go_quot a b = a div b"
  by (cases "a = 0") (simp_all add: go_quot_def)

lemma go_rem_nonneg [simp]: "0 \<le> a \<Longrightarrow> 0 < b \<Longrightarrow> go_rem a b = a mod b"
  by (simp add: go_rem_def minus_mult_div_eq_mod)

text \<open>A positive duration is a positive number of seconds, at least \<open>2 ^ -30\<close>.\<close>

lemma dur_to_seconds_pos:
  assumes "0 < d" "d \<le> max_duration" obtains r where "dur_to_seconds d = Fin r" "0 < r" "1 / 2 ^ 30 \<le> r"
proof -
  have p30: "(2::rat) powi -30 = 1 / 2 ^ 30" by (simp add: power_int_def field_simps)
  define q m where "q = d div 1000000000" and "m = d mod 1000000000"
  have b: "0 \<le> q" "q \<le> 9223372036" "0 \<le> m" "m < 1000000000" "q \<noteq> 0 \<or> m \<noteq> 0"
    using assms by (auto simp: q_def m_def max_duration_def)
  have s: "dur_to_seconds d = f64_of_int q + f64_of_int m / Fin 1000000000"
    using assms by (simp add: dur_to_seconds_def q_def m_def)
  have vq: "f64_val (f64_of_int q) = of_int q" "f64_of_int q = Zero False \<or> f64_of_int q = Fin (of_int q)"
    using b by (cases "q = 0"; simp)+
  show ?thesis
  proof (cases "m = 0")
    case True
    with b have fq: "f64_of_int q = Fin (of_int q)" and q1: "1 \<le> q" by simp_all
    then have "(1::rat) \<le> of_int q" by simp
    then have "1 / 2 ^ 30 \<le> (of_int q :: rat)" by (rule order_trans [rotated]) simp
    with s True b fq q1 show ?thesis
      by (intro that [of "of_int q"]) (simp_all add: f64_ops f64_round_of_int f64_round_def [of _ 0])
  next
    case False
    define x where "x = (of_int m / 1000000000 :: rat)"
    have fm: "f64_of_int m = Fin (of_int m)" using b False by simp
    have "(1::rat) / 1000000000 \<le> x" using b False by (simp add: x_def divide_right_mono)
    then have lo: "2 powi -30 \<le> x" unfolding p30 by (rule order_trans [rotated]) simp
    have "x \<le> of_int 1" using b by (simp add: x_def)
    then obtain v where v: "f64_round False x = Fin v" "2 powi -30 \<le> v" "v \<le> 1"
      using f64_round_Fin [OF _ lo, of 1 False] by auto
    have dv: "f64_of_int m / Fin 1000000000 = Fin v" using v(1) fm b(3) by (simp add: f64_ops x_def)
    have lo2: "2 powi -30 \<le> of_int q + v" using v(2) b by (simp add: add_increasing)
    have hi2: "of_int q + v \<le> of_int 9223372037" using v(3) b by (simp add: add_mono [of _ 9223372036 v 1, simplified])
    obtain w where w: "f64_round False (of_int q + v) = Fin w" "0 < w" "2 powi -30 \<le> w"
      using f64_round_Fin [OF _ lo2 hi2, of False] by auto
    have "dur_to_seconds d = Fin w"
      using w(1) vq unfolding s dv by (auto simp: f64_ops)
    then show ?thesis using w(2,3) unfolding p30 by (rule that)
  qed
qed


lemma f64_round_nonpos: "x \<le> 0 \<Longrightarrow> f64_round s x \<le> 0"
  using f64_mag_nonneg [of "- x"] by (auto simp: f64_round_def Let_def f64_ops)

lemma f64_plus_nonpos:
  assumes "a \<le> 0" "b \<le> 0" shows "(a + b :: f64) \<le> 0"
  using assms by (cases a; cases b) (auto simp: f64_ops intro!: f64_round_nonpos [unfolded f64_ops])

lemma dur_to_seconds_nonpos:
  assumes "d \<le> 0" shows "dur_to_seconds d \<le> 0"
proof -
  have q: "go_quot d 1000000000 \<le> 0" using assms by (cases "d = 0") (simp_all add: go_quot_def pos_imp_zdiv_nonneg_iff)
  have "d = - \<bar>d\<bar>" using assms by simp
  then have "go_rem d 1000000000 = - (\<bar>d\<bar> mod 1000000000)"
    by (cases "d = 0") (simp_all add: go_rem_def go_quot_def minus_mult_div_eq_mod [symmetric])
  then have m: "go_rem d 1000000000 \<le> 0" by simp
  have "f64_of_int (go_rem d 1000000000) \<le> 0" using m by (simp add: f64_of_int_def f64_round_nonpos)
  then have "f64_of_int (go_rem d 1000000000) / f64_of_int 1000000000 \<le> 0"
    by (cases "f64_of_int (go_rem d 1000000000)")
       (auto simp: f64_ops intro!: f64_round_nonpos [unfolded f64_ops] divide_nonpos_pos)
  moreover have "f64_of_int (go_quot d 1000000000) \<le> 0" using q by (simp add: f64_of_int_def f64_round_nonpos)
  ultimately show ?thesis unfolding dur_to_seconds_def by (intro f64_plus_nonpos)
qed

text \<open>
  The collectors' guard: an elapsed time that is not positive is replaced by one second, so the
  divisor of a rate is always a positive number.
\<close>

lemma guarded_seconds:
  assumes "d \<le> max_duration"
  obtains r where "(if dur_to_seconds d \<le> 0 then 1 else dur_to_seconds d) = Fin r" "0 < r" "1 / 2 ^ 30 \<le> r"
proof (cases "d \<le> 0")
  case True
  then show ?thesis using dur_to_seconds_nonpos [of d] by (intro that [of 1]) (simp_all add: one_f64_def)
next
  case False
  then obtain r where "dur_to_seconds d = Fin r" "0 < r" "1 / 2 ^ 30 \<le> r"
    using dur_to_seconds_pos assms by (metis not_le)
  then show ?thesis by (intro that [of r]) (simp_all add: f64_ops)
qed

lemma time_sub_max [simp]: "time_sub t u \<le> max_duration"
  by (simp add: time_sub_def min_duration_def max_duration_def)

lemma dur_seconds_range [simp, go_bounds]: "int64_range (dur_seconds n)"
  by (simp add: dur_seconds_def)

lemma dur_millis_range [simp, go_bounds]: "int64_range (dur_millis n)"
  by (simp add: dur_millis_def)

lemma time_sub_exact: "int64_range (t - u) \<Longrightarrow> time_sub t u = t - u"
  by (simp add: time_sub_def int64_range_def max_duration_def min_duration_def)

end
