(* ===== verification/Go_Json.thy ===== *)
theory Go_Json
  imports Go_Time
begin

text \<open>
  Values of \<open>encoding/json\<close> as trees: what \<open>json.Marshal\<close> writes, before the text is laid
  out. Object members keep the order of the struct fields. \<open>Marshal\<close> fails on a float that
  is not finite and on a time whose year (read in UTC) is outside 0 to 9999; nothing else in the
  program's types can make it fail.
\<close>

datatype json =
    JNull
  | JBool bool
  | JInt int
  | JFloat f64
  | JStr string
  | JTime instant
  | JArr "json list"
  | JObj "(string \<times> json) list"

text \<open>A Go slice: \<open>None\<close> is the nil slice, which differs from an empty one in JSON only.\<close>

type_synonym 'a slice = "'a list option"

definition slice_list :: "'a slice \<Rightarrow> 'a list" where
  "slice_list s = (case s of None \<Rightarrow> [] | Some xs \<Rightarrow> xs)"

definition slice_len :: "'a slice \<Rightarrow> int64" where
  "slice_len s = int (length (slice_list s))"

text \<open>\<open>append(s, x)\<close>: appending makes a nil slice non-nil.\<close>

definition slice_append :: "'a slice \<Rightarrow> 'a \<Rightarrow> 'a slice" where
  "slice_append s x = Some (slice_list s @ [x])"

text \<open>A loop that appends each element of \<open>xs\<close> to a nil slice.\<close>

definition slice_of_appends :: "'a list \<Rightarrow> 'a slice" where
  "slice_of_appends xs = (if xs = [] then None else Some xs)"

lemma slice_list_simps [simp]: "slice_list None = []" "slice_list (Some xs) = xs"
  by (simp_all add: slice_list_def)

lemma slice_of_appends_list [simp]: "slice_list (slice_of_appends xs) = xs"
  by (simp add: slice_of_appends_def)

lemma slice_append_simps [simp]:
  "slice_append None x = Some [x]" "slice_append (Some xs) x = Some (xs @ [x])"
  by (simp_all add: slice_append_def)

lemma fold_slice_append_Some:
  "fold (\<lambda>x s. slice_append s x) zs (Some ys) = Some (ys @ zs)"
  by (induction zs arbitrary: ys) simp_all

lemma fold_slice_append: "fold (\<lambda>x s. slice_append s x) xs None = slice_of_appends xs"
  by (cases xs) (simp_all add: fold_slice_append_Some slice_of_appends_def)

definition json_uint :: "'a::len word \<Rightarrow> json" where
  "json_uint w = JInt (uint w)"

definition json_slice :: "('a \<Rightarrow> json) \<Rightarrow> 'a slice \<Rightarrow> json" where
  "json_slice enc s = (case s of None \<Rightarrow> JNull | Some xs \<Rightarrow> JArr (map enc xs))"

fun json_ok :: "json \<Rightarrow> bool" where
  "json_ok (JFloat f) = f64_finite f"
| "json_ok (JTime t) = (- (366 * 86400000000000) \<le> t \<and> t < 3652059 * 86400000000000)"
| "json_ok (JArr js) = list_all json_ok js"
| "json_ok (JObj ms) = list_all (\<lambda>m. json_ok (snd m)) ms"
| "json_ok _ = True"

definition json_marshal :: "json \<Rightarrow> go_error + json" where
  "json_marshal j = (if json_ok j then Inr j else Inl (ErrNew ''unsupported value''))"

lemma json_ok_slice [simp]: "json_ok (json_slice enc s) \<longleftrightarrow> list_all (\<lambda>x. json_ok (enc x)) (slice_list s)"
  by (auto simp: json_slice_def list_all_iff split: option.splits)

lemma json_ok_uint [simp]: "json_ok (json_uint w)"
  by (simp add: json_uint_def)

end
