(* ===== verification/Models.thy ===== *)
theory Models
  imports Go_Json
begin

text \<open>
  The data model of \<open>internal/models/metrics.go\<close>: one record per struct, its zero value (what
  \<open>var x T\<close> and a composite literal leave in the fields they do not name) and its JSON encoding
  by the struct tags, in field order. Field names carry a two-letter prefix of their struct.
\<close>

record SystemInfo =
  si_Hostname :: string
  si_OSName :: string
  si_Platform :: string
  si_PlatformFamily :: string
  si_OSVersion :: string
  si_OSArchitecture :: string
  si_OSKernelVersion :: string
  si_BootTime :: int64
  si_Uptime :: int64
  si_TotalProcesses :: uint64
  si_TotalThreads :: uint64
  si_TotalFileDescriptors :: uint64

definition zero_SystemInfo :: SystemInfo where
  "zero_SystemInfo = \<lparr>si_Hostname = [],
     si_OSName = [],
     si_Platform = [],
     si_PlatformFamily = [],
     si_OSVersion = [],
     si_OSArchitecture = [],
     si_OSKernelVersion = [],
     si_BootTime = 0,
     si_Uptime = 0,
     si_TotalProcesses = 0,
     si_TotalThreads = 0,
     si_TotalFileDescriptors = 0\<rparr>"

definition json_SystemInfo :: "SystemInfo \<Rightarrow> json" where
  "json_SystemInfo x = JObj
     ([(''hostname'', JStr (si_Hostname x)),
      (''os_name'', JStr (si_OSName x)),
      (''platform'', JStr (si_Platform x)),
      (''platform_family'', JStr (si_PlatformFamily x)),
      (''os_version'', JStr (si_OSVersion x)),
      (''os_architecture'', JStr (si_OSArchitecture x)),
      (''os_kernel_version'', JStr (si_OSKernelVersion x)),
      (''boot_time'', JInt (si_BootTime x)),
      (''uptime'', JInt (si_Uptime x)),
      (''total_processes'', json_uint (si_TotalProcesses x)),
      (''total_threads'', json_uint (si_TotalThreads x)),
      (''total_file_descriptors'', json_uint (si_TotalFileDescriptors x))])"

record CPUCore =
  cc_ID :: int64
  cc_Usage :: f64
  cc_Temperature :: f64

definition zero_CPUCore :: CPUCore where
  "zero_CPUCore = \<lparr>cc_ID = 0,
     cc_Usage = 0,
     cc_Temperature = 0\<rparr>"

definition json_CPUCore :: "CPUCore \<Rightarrow> json" where
  "json_CPUCore x = JObj
     ([(''id'', JInt (cc_ID x)),
      (''usage'', JFloat (cc_Usage x)),
      (''temperature'', JFloat (cc_Temperature x))])"

record CPUMetrics =
  cm_Architecture :: string
  cm_Model :: string
  cm_Vendor :: string
  cm_CacheSize :: int64
  cm_ClockSpeed :: f64
  cm_TotalCores :: int64
  cm_TotalLogicalCores :: int64
  cm_Usage :: f64
  cm_Temperature :: f64
  cm_HasVMX :: bool
  cm_HasSVM :: bool
  cm_HasAVX :: bool
  cm_HasAVX2 :: bool
  cm_HasNEON :: bool
  cm_HasSVE :: bool
  cm_IsHyperthreading :: bool
  cm_L1CacheSize :: int64
  cm_L2CacheSize :: int64
  cm_L3CacheSize :: int64
  cm_BaseClockSpeed :: f64
  cm_MaxClockSpeed :: f64
  cm_MinClockSpeed :: f64
  cm_Cores :: "CPUCore slice"

definition zero_CPUMetrics :: CPUMetrics where
  "zero_CPUMetrics = \<lparr>cm_Architecture = [],
     cm_Model = [],
     cm_Vendor = [],
     cm_CacheSize = 0,
     cm_ClockSpeed = 0,
     cm_TotalCores = 0,
     cm_TotalLogicalCores = 0,
     cm_Usage = 0,
     cm_Temperature = 0,
     cm_HasVMX = False,
     cm_HasSVM = False,
     cm_HasAVX = False,
     cm_HasAVX2 = False,
     cm_HasNEON = False,
     cm_HasSVE = False,
     cm_IsHyperthreading = False,
     cm_L1CacheSize = 0,
     cm_L2CacheSize = 0,
     cm_L3CacheSize = 0,
     cm_BaseClockSpeed = 0,
     cm_MaxClockSpeed = 0,
     cm_MinClockSpeed = 0,
     cm_Cores = None\<rparr>"

definition json_CPUMetrics :: "CPUMetrics \<Rightarrow> json" where
  "json_CPUMetrics x = JObj
     ([(''architecture'', JStr (cm_Architecture x)),
      (''model'', JStr (cm_Model x)),
      (''vendor'', JStr (cm_Vendor x)),
      (''cache_size'', JInt (cm_CacheSize x)),
      (''clock_speed'', JFloat (cm_ClockSpeed x)),
      (''total_cores'', JInt (cm_TotalCores x)),
      (''total_logical_cores'', JInt (cm_TotalLogicalCores x)),
      (''usage'', JFloat (cm_Usage x)),
      (''temperature'', JFloat (cm_Temperature x)),
      (''has_vmx'', JBool (cm_HasVMX x)),
      (''has_svm'', JBool (cm_HasSVM x)),
      (''has_avx'', JBool (cm_HasAVX x)),
      (''has_avx2'', JBool (cm_HasAVX2 x)),
      (''has_neon'', JBool (cm_HasNEON x)),
      (''has_sve'', JBool (cm_HasSVE x)),
      (''is_hyperthreading'', JBool (cm_IsHyperthreading x)),
      (''l1_cache_size'', JInt (cm_L1CacheSize x)),
      (''l2_cache_size'', JInt (cm_L2CacheSize x)),
      (''l3_cache_size'', JInt (cm_L3CacheSize x)),
      (''base_clock_speed'', JFloat (cm_BaseClockSpeed x)),
      (''max_clock_speed'', JFloat (cm_MaxClockSpeed x)),
      (''min_clock_speed'', JFloat (cm_MinClockSpeed x)),
      (''cores'', json_slice json_CPUCore (cm_Cores x))])"

record MemoryMetrics =
  mm_Total :: int64
  mm_Used :: int64
  mm_Free :: int64
  mm_Available :: int64
  mm_Buffers :: int64
  mm_Cached :: int64
  mm_SwapTotal :: int64
  mm_SwapUsed :: int64
  mm_SwapFree :: int64
  mm_UsagePercent :: f64
  mm_DataRate :: uint64
  mm_UsingSlotCount :: uint16
  mm_TotalSlotCount :: uint16
  mm_FormFactor :: string
  mm_PagedPoolSize :: uint64
  mm_NonPagedPoolSize :: uint64

definition zero_MemoryMetrics :: MemoryMetrics where
  "zero_MemoryMetrics = \<lparr>mm_Total = 0,
     mm_Used = 0,
     mm_Free = 0,
     mm_Available = 0,
     mm_Buffers = 0,
     mm_Cached = 0,
     mm_SwapTotal = 0,
     mm_SwapUsed = 0,
     mm_SwapFree = 0,
     mm_UsagePercent = 0,
     mm_DataRate = 0,
     mm_UsingSlotCount = 0,
     mm_TotalSlotCount = 0,
     mm_FormFactor = [],
     mm_PagedPoolSize = 0,
     mm_NonPagedPoolSize = 0\<rparr>"

definition json_MemoryMetrics :: "MemoryMetrics \<Rightarrow> json" where
  "json_MemoryMetrics x = JObj
     ([(''total'', JInt (mm_Total x)),
      (''used'', JInt (mm_Used x)),
      (''free'', JInt (mm_Free x)),
      (''available'', JInt (mm_Available x)),
      (''buffers'', JInt (mm_Buffers x)),
      (''cached'', JInt (mm_Cached x)),
      (''swap_total'', JInt (mm_SwapTotal x)),
      (''swap_used'', JInt (mm_SwapUsed x)),
      (''swap_free'', JInt (mm_SwapFree x)),
      (''usage_percent'', JFloat (mm_UsagePercent x)),
      (''data_rate'', json_uint (mm_DataRate x)),
      (''using_slot_count'', json_uint (mm_UsingSlotCount x)),
      (''total_slot_count'', json_uint (mm_TotalSlotCount x)),
      (''form_factor'', JStr (mm_FormFactor x)),
      (''paged_pool_size'', json_uint (mm_PagedPoolSize x)),
      (''non_paged_pool_size'', json_uint (mm_NonPagedPoolSize x))])"

record DiskIOStats =
  io_ReadBytes :: int64
  io_WriteBytes :: int64
  io_Reads :: int64
  io_Writes :: int64
  io_ReadBytesPerSec :: f64
  io_WriteBytesPerSec :: f64
  io_ReadsPerSec :: f64
  io_WritesPerSec :: f64
  io_IOInProgress :: int64
  io_IOTime :: int64
  io_ReadTime :: int64
  io_WriteTime :: int64
  io_ErrorFlag :: bool

definition zero_DiskIOStats :: DiskIOStats where
  "zero_DiskIOStats = \<lparr>io_ReadBytes = 0,
     io_WriteBytes = 0,
     io_Reads = 0,
     io_Writes = 0,
     io_ReadBytesPerSec = 0,
     io_WriteBytesPerSec = 0,
     io_ReadsPerSec = 0,
     io_WritesPerSec = 0,
     io_IOInProgress = 0,
     io_IOTime = 0,
     io_ReadTime = 0,
     io_WriteTime = 0,
     io_ErrorFlag = False\<rparr>"

definition json_DiskIOStats :: "DiskIOStats \<Rightarrow> json" where
  "json_DiskIOStats x = JObj
     ([(''read_bytes'', JInt (io_ReadBytes x)),
      (''write_bytes'', JInt (io_WriteBytes x)),
      (''reads'', JInt (io_Reads x)),
      (''writes'', JInt (io_Writes x)),
      (''read_bytes_per_sec'', JFloat (io_ReadBytesPerSec x)),
      (''write_bytes_per_sec'', JFloat (io_WriteBytesPerSec x)),
      (''reads_per_sec'', JFloat (io_ReadsPerSec x)),
      (''writes_per_sec'', JFloat (io_WritesPerSec x)),
      (''io_in_progress'', JInt (io_IOInProgress x)),
      (''io_time'', JInt (io_IOTime x)),
      (''read_time'', JInt (io_ReadTime x)),
      (''write_time'', JInt (io_WriteTime x)),
      (''error_flag'', JBool (io_ErrorFlag x))])"

record DiskMetrics =
  dm_Device :: string
  dm_MountPoint :: string
  dm_FilesystemType :: string
  dm_Total :: int64
  dm_Used :: int64
  dm_Free :: int64
  dm_InodesTotal :: int64
  dm_InodesUsed :: int64
  dm_InodesFree :: int64
  dm_UsagePercent :: f64
  dm_ErrorFlag :: bool
  dm_ErrorMessage :: string
  dm_ModelName :: string
  dm_Type :: string
  dm_IsSystemDisk :: bool
  dm_IsPageFileDisk :: bool
  dm_IOStats :: DiskIOStats

definition zero_DiskMetrics :: DiskMetrics where
  "zero_DiskMetrics = \<lparr>dm_Device = [],
     dm_MountPoint = [],
     dm_FilesystemType = [],
     dm_Total = 0,
     dm_Used = 0,
     dm_Free = 0,
     dm_InodesTotal = 0,
     dm_InodesUsed = 0,
     dm_InodesFree = 0,
     dm_UsagePercent = 0,
     dm_ErrorFlag = False,
     dm_ErrorMessage = [],
     dm_ModelName = [],
     dm_Type = [],
     dm_IsSystemDisk = False,
     dm_IsPageFileDisk = False,
     dm_IOStats = zero_DiskIOStats\<rparr>"

definition json_DiskMetrics :: "DiskMetrics \<Rightarrow> json" where
  "json_DiskMetrics x = JObj
     ([(''device'', JStr (dm_Device x)),
      (''mount_point'', JStr (dm_MountPoint x)),
      (''filesystem_type'', JStr (dm_FilesystemType x)),
      (''total'', JInt (dm_Total x)),
      (''used'', JInt (dm_Used x)),
      (''free'', JInt (dm_Free x)),
      (''inodes_total'', JInt (dm_InodesTotal x)),
      (''inodes_used'', JInt (dm_InodesUsed x)),
      (''inodes_free'', JInt (dm_InodesFree x)),
      (''usage_percent'', JFloat (dm_UsagePercent x)),
      (''error_flag'', JBool (dm_ErrorFlag x)),
      (''error_message'', JStr (dm_ErrorMessage x)),
      (''model_name'', JStr (dm_ModelName x)),
      (''type'', JStr (dm_Type x)),
      (''is_system_disk'', JBool (dm_IsSystemDisk x)),
      (''is_page_file_disk'', JBool (dm_IsPageFileDisk x)),
      (''io_stats'', json_DiskIOStats (dm_IOStats x))])"

record NetworkMetrics =
  nm_Interface :: string
  nm_IPv4 :: string
  nm_IPv6 :: string
  nm_MAC :: string
  nm_MTU :: int64
  nm_Speed :: uint64
  nm_Status :: string
  nm_RxBytes :: int64
  nm_TxBytes :: int64
  nm_RxPackets :: int64
  nm_TxPackets :: int64
  nm_RxErrors :: int64
  nm_TxErrors :: int64
  nm_RxDropped :: int64
  nm_TxDropped :: int64
  nm_RxBytesPerSec :: f64
  nm_TxBytesPerSec :: f64
  nm_ConnectionType :: string

definition zero_NetworkMetrics :: NetworkMetrics where
  "zero_NetworkMetrics = \<lparr>nm_Interface = [],
     nm_IPv4 = [],
     nm_IPv6 = [],
     nm_MAC = [],
     nm_MTU = 0,
     nm_Speed = 0,
     nm_Status = [],
     nm_RxBytes = 0,
     nm_TxBytes = 0,
     nm_RxPackets = 0,
     nm_TxPackets = 0,
     nm_RxErrors = 0,
     nm_TxErrors = 0,
     nm_RxDropped = 0,
     nm_TxDropped = 0,
     nm_RxBytesPerSec = 0,
     nm_TxBytesPerSec = 0,
     nm_ConnectionType = []\<rparr>"

definition json_NetworkMetrics :: "NetworkMetrics \<Rightarrow> json" where
  "json_NetworkMetrics x = JObj
     ([(''interface'', JStr (nm_Interface x)),
      (''ipv4'', JStr (nm_IPv4 x)),
      (''ipv6'', JStr (nm_IPv6 x)),
      (''mac'', JStr (nm_MAC x)),
      (''mtu'', JInt (nm_MTU x)),
      (''speed'', json_uint (nm_Speed x)),
      (''status'', JStr (nm_Status x)),
      (''rx_bytes'', JInt (nm_RxBytes x)),
      (''tx_bytes'', JInt (nm_TxBytes x)),
      (''rx_packets'', JInt (nm_RxPackets x)),
      (''tx_packets'', JInt (nm_TxPackets x)),
      (''rx_errors'', JInt (nm_RxErrors x)),
      (''tx_errors'', JInt (nm_TxErrors x)),
      (''rx_dropped'', JInt (nm_RxDropped x)),
      (''tx_dropped'', JInt (nm_TxDropped x)),
      (''rx_bytes_per_sec'', JFloat (nm_RxBytesPerSec x)),
      (''tx_bytes_per_sec'', JFloat (nm_TxBytesPerSec x)),
      (''connection_type'', JStr (nm_ConnectionType x))])"

record ProcessInfo =
  pr_PID :: int64
  pr_PPID :: int64
  pr_Name :: string
  pr_Command :: string
  pr_User :: string
  pr_Status :: string
  pr_CPUTime :: f64
  pr_CPUUsage :: f64
  pr_MemoryRSS :: int64
  pr_MemoryVSZ :: int64
  pr_Nice :: int64
  pr_Threads :: int64
  pr_OpenFiles :: int64
  pr_StartTime :: int64
  pr_IOReadBytes :: int64
  pr_IOWriteBytes :: int64

definition zero_ProcessInfo :: ProcessInfo where
  "zero_ProcessInfo = \<lparr>pr_PID = 0,
     pr_PPID = 0,
     pr_Name = [],
     pr_Command = [],
     pr_User = [],
     pr_Status = [],
     pr_CPUTime = 0,
     pr_CPUUsage = 0,
     pr_MemoryRSS = 0,
     pr_MemoryVSZ = 0,
     pr_Nice = 0,
     pr_Threads = 0,
     pr_OpenFiles = 0,
     pr_StartTime = 0,
     pr_IOReadBytes = 0,
     pr_IOWriteBytes = 0\<rparr>"

definition json_ProcessInfo :: "ProcessInfo \<Rightarrow> json" where
  "json_ProcessInfo x = JObj
     ([(''pid'', JInt (pr_PID x)),
      (''ppid'', JInt (pr_PPID x)),
      (''name'', JStr (pr_Name x)),
      (''command'', JStr (pr_Command x)),
      (''user'', JStr (pr_User x)),
      (''status'', JStr (pr_Status x)),
      (''cpu_time'', JFloat (pr_CPUTime x)),
      (''cpu_usage'', JFloat (pr_CPUUsage x)),
      (''memory_rss'', JInt (pr_MemoryRSS x)),
      (''memory_vsz'', JInt (pr_MemoryVSZ x)),
      (''nice'', JInt (pr_Nice x)),
      (''threads'', JInt (pr_Threads x)),
      (''open_files'', JInt (pr_OpenFiles x)),
      (''start_time'', JInt (pr_StartTime x)),
      (''io_read_bytes'', JInt (pr_IOReadBytes x)),
      (''io_write_bytes'', JInt (pr_IOWriteBytes x))])"

record ContainerLabel =
  cl_Key :: string
  cl_Value :: string

definition zero_ContainerLabel :: ContainerLabel where
  "zero_ContainerLabel = \<lparr>cl_Key = [],
     cl_Value = []\<rparr>"

definition json_ContainerLabel :: "ContainerLabel \<Rightarrow> json" where
  "json_ContainerLabel x = JObj
     ([(''label_key'', JStr (cl_Key x)),
      (''label_value'', JStr (cl_Value x))])"

record ContainerHealth =
  ch_Status :: string
  ch_FailingStreak :: int64
  ch_LastCheckOutput :: string

definition zero_ContainerHealth :: ContainerHealth where
  "zero_ContainerHealth = \<lparr>ch_Status = [],
     ch_FailingStreak = 0,
     ch_LastCheckOutput = []\<rparr>"

definition json_ContainerHealth :: "ContainerHealth \<Rightarrow> json" where
  "json_ContainerHealth x = JObj
     ([(''status'', JStr (ch_Status x)),
      (''failing_streak'', JInt (ch_FailingStreak x)),
      (''last_check_output'', JStr (ch_LastCheckOutput x))])"

record ContainerPort =
  cp_ContainerPort :: string
  cp_HostPort :: string
  cp_Protocol :: string

definition zero_ContainerPort :: ContainerPort where
  "zero_ContainerPort = \<lparr>cp_ContainerPort = [],
     cp_HostPort = [],
     cp_Protocol = []\<rparr>"

definition json_ContainerPort :: "ContainerPort \<Rightarrow> json" where
  "json_ContainerPort x = JObj
     ([(''container_port'', JStr (cp_ContainerPort x)),
      (''host_port'', JStr (cp_HostPort x)),
      (''protocol'', JStr (cp_Protocol x))])"

record ContainerNetwork =
  cn_Name :: string
  cn_IP :: string
  cn_MAC :: string
  cn_RxBytes :: uint64
  cn_TxBytes :: uint64

definition zero_ContainerNetwork :: ContainerNetwork where
  "zero_ContainerNetwork = \<lparr>cn_Name = [],
     cn_IP = [],
     cn_MAC = [],
     cn_RxBytes = 0,
     cn_TxBytes = 0\<rparr>"

definition json_ContainerNetwork :: "ContainerNetwork \<Rightarrow> json" where
  "json_ContainerNetwork x = JObj
     ([(''network_name'', JStr (cn_Name x)),
      (''network_ip'', JStr (cn_IP x)),
      (''network_mac'', JStr (cn_MAC x)),
      (''network_rx_bytes'', json_uint (cn_RxBytes x)),
      (''network_tx_bytes'', json_uint (cn_TxBytes x))])"

record ContainerVolume =
  cv_Source :: string
  cv_Destination :: string
  cv_Mode :: string
  cv_Type :: string

definition zero_ContainerVolume :: ContainerVolume where
  "zero_ContainerVolume = \<lparr>cv_Source = [],
     cv_Destination = [],
     cv_Mode = [],
     cv_Type = []\<rparr>"

definition json_ContainerVolume :: "ContainerVolume \<Rightarrow> json" where
  "json_ContainerVolume x = JObj
     ([(''source'', JStr (cv_Source x)),
      (''destination'', JStr (cv_Destination x)),
      (''mode'', JStr (cv_Mode x)),
      (''type'', JStr (cv_Type x))])"

record ContainerEnv =
  ce_Key :: string
  ce_Value :: string

definition zero_ContainerEnv :: ContainerEnv where
  "zero_ContainerEnv = \<lparr>ce_Key = [],
     ce_Value = []\<rparr>"

definition json_ContainerEnv :: "ContainerEnv \<Rightarrow> json" where
  "json_ContainerEnv x = JObj
     ([(''key'', JStr (ce_Key x)),
      (''value'', JStr (ce_Value x))])"

record DockerContainer =
  dc_ID :: string
  dc_Name :: string
  dc_Image :: string
  dc_Status :: string
  dc_Created :: string
  dc_CPUUsage :: f64
  dc_MemoryUsage :: int64
  dc_MemoryLimit :: int64
  dc_MemoryPercent :: f64
  dc_NetworkRxBytes :: int64
  dc_NetworkTxBytes :: int64
  dc_BlockRead :: int64
  dc_BlockWrite :: int64
  dc_PIDs :: int64
  dc_Restarts :: int64
  dc_Labels :: "ContainerLabel slice"
  dc_Health :: ContainerHealth
  dc_Ports :: "ContainerPort slice"
  dc_Networks :: "ContainerNetwork slice"
  dc_Volumes :: "ContainerVolume slice"
  dc_Env :: "ContainerEnv slice"

definition zero_DockerContainer :: DockerContainer where
  "zero_DockerContainer = \<lparr>dc_ID = [],
     dc_Name = [],
     dc_Image = [],
     dc_Status = [],
     dc_Created = [],
     dc_CPUUsage = 0,
     dc_MemoryUsage = 0,
     dc_MemoryLimit = 0,
     dc_MemoryPercent = 0,
     dc_NetworkRxBytes = 0,
     dc_NetworkTxBytes = 0,
     dc_BlockRead = 0,
     dc_BlockWrite = 0,
     dc_PIDs = 0,
     dc_Restarts = 0,
     dc_Labels = None,
     dc_Health = zero_ContainerHealth,
     dc_Ports = None,
     dc_Networks = None,
     dc_Volumes = None,
     dc_Env = None\<rparr>"

definition json_DockerContainer :: "DockerContainer \<Rightarrow> json" where
  "json_DockerContainer x = JObj
     ([(''container_id'', JStr (dc_ID x)),
      (''container_name'', JStr (dc_Name x)),
      (''container_image'', JStr (dc_Image x)),
      (''container_status'', JStr (dc_Status x)),
      (''container_created'', JStr (dc_Created x)),
      (''cpu_usage'', JFloat (dc_CPUUsage x)),
      (''memory_usage'', JInt (dc_MemoryUsage x)),
      (''memory_limit'', JInt (dc_MemoryLimit x)),
      (''memory_percent'', JFloat (dc_MemoryPercent x)),
      (''network_rx_bytes'', JInt (dc_NetworkRxBytes x)),
      (''network_tx_bytes'', JInt (dc_NetworkTxBytes x)),
      (''block_read'', JInt (dc_BlockRead x)),
      (''block_write'', JInt (dc_BlockWrite x)),
      (''pids'', JInt (dc_PIDs x)),
      (''restarts'', JInt (dc_Restarts x))]
      @ (if slice_len (dc_Labels x) = 0 then [] else [(''labels'', json_slice json_ContainerLabel (dc_Labels x))])
      @ [(''container_health'', json_ContainerHealth (dc_Health x)),
      (''container_ports'', json_slice json_ContainerPort (dc_Ports x)),
      (''container_network'', json_slice json_ContainerNetwork (dc_Networks x)),
      (''container_volumes'', json_slice json_ContainerVolume (dc_Volumes x)),
      (''container_env'', json_slice json_ContainerEnv (dc_Env x))])"

record ServiceInfo =
  sv_Name :: string
  sv_Status :: string
  sv_Enabled :: bool
  sv_Type :: string
  sv_LoadState :: string
  sv_ActiveState :: string
  sv_SubState :: string
  sv_MemoryUsage :: string
  sv_CpuUsage :: f64

definition zero_ServiceInfo :: ServiceInfo where
  "zero_ServiceInfo = \<lparr>sv_Name = [],
     sv_Status = [],
     sv_Enabled = False,
     sv_Type = [],
     sv_LoadState = [],
     sv_ActiveState = [],
     sv_SubState = [],
     sv_MemoryUsage = [],
     sv_CpuUsage = 0\<rparr>"

definition json_ServiceInfo :: "ServiceInfo \<Rightarrow> json" where
  "json_ServiceInfo x = JObj
     ([(''name'', JStr (sv_Name x)),
      (''status'', JStr (sv_Status x)),
      (''enabled'', JBool (sv_Enabled x)),
      (''type'', JStr (sv_Type x)),
      (''load_state'', JStr (sv_LoadState x)),
      (''active_state'', JStr (sv_ActiveState x)),
      (''sub_state'', JStr (sv_SubState x)),
      (''memory_usage'', JStr (sv_MemoryUsage x)),
      (''cpu_usage'', JFloat (sv_CpuUsage x))])"

record SystemMetrics =
  sm_USER_ID :: string
  sm_Key :: string
  sm_ExternalIP :: string
  sm_Timestamp :: instant
  sm_System :: SystemInfo
  sm_CPU :: CPUMetrics
  sm_Memory :: MemoryMetrics
  sm_Disk :: "DiskMetrics slice"
  sm_Network :: "NetworkMetrics slice"
  sm_Processes :: "ProcessInfo slice"
  sm_Containers :: "DockerContainer slice"
  sm_Services :: "ServiceInfo slice"

definition zero_SystemMetrics :: SystemMetrics where
  "zero_SystemMetrics = \<lparr>sm_USER_ID = [],
     sm_Key = [],
     sm_ExternalIP = [],
     sm_Timestamp = zero_time,
     sm_System = zero_SystemInfo,
     sm_CPU = zero_CPUMetrics,
     sm_Memory = zero_MemoryMetrics,
     sm_Disk = None,
     sm_Network = None,
     sm_Processes = None,
     sm_Containers = None,
     sm_Services = None\<rparr>"

definition json_SystemMetrics :: "SystemMetrics \<Rightarrow> json" where
  "json_SystemMetrics x = JObj
     ([(''user_id'', JStr (sm_USER_ID x)),
      (''key'', JStr (sm_Key x)),
      (''external_ip'', JStr (sm_ExternalIP x)),
      (''timestamp'', JTime (sm_Timestamp x)),
      (''system'', json_SystemInfo (sm_System x)),
      (''cpu'', json_CPUMetrics (sm_CPU x)),
      (''memory'', json_MemoryMetrics (sm_Memory x)),
      (''disk'', json_slice json_DiskMetrics (sm_Disk x)),
      (''network'', json_slice json_NetworkMetrics (sm_Network x)),
      (''processes'', json_slice json_ProcessInfo (sm_Processes x)),
      (''containers'', json_slice json_DockerContainer (sm_Containers x)),
      (''services'', json_slice json_ServiceInfo (sm_Services x))])"

text \<open>\<open>ToJSON\<close> logs a marshalling error and answers an empty object.\<close>

definition ToJSON :: "json \<Rightarrow> json" where
  "ToJSON v = (case json_marshal v of Inl err \<Rightarrow> JObj [] | Inr data \<Rightarrow> data)"

definition SystemMetrics_String :: "SystemMetrics \<Rightarrow> json" where
  "SystemMetrics_String v = ToJSON (json_SystemMetrics v)"

end
