(* ===== verification/Collector_Cache.thy ===== *)
theory Collector_Cache
  imports Go_Json
begin

text \<open>
  The contract that the collectors of \<open>internal/collectors\<close> share. Each keeps the result of its
  last successful collection with the instant it was stored; a background goroutine refreshes it,
  and \<open>Collect\<close> answers from it while it is younger than the configured duration and collects
  anew otherwise. The locale states what a collector promises about its cache and proves, once,
  how old an answer can be. One collection is one step here; where the goroutines' interleaving
  inside a collection matters, the collector's own theory models it.
\<close>

section \<open>Histories\<close>

datatype 'e cache_event = Refresh 'e | Request 'e

fun event_env :: "'e cache_event \<Rightarrow> 'e" where
  "event_env (Refresh e) = e"
| "event_env (Request e) = e"

text \<open>Background refreshes and requests, in the order they happen.\<close>

fun cache_run ::
  "('e \<Rightarrow> 's \<Rightarrow> ('r \<times> 's) outcome) \<Rightarrow> ('e \<Rightarrow> 's \<Rightarrow> 's outcome) \<Rightarrow> 'e cache_event list \<Rightarrow> 's
   \<Rightarrow> 's outcome" where
  "cache_run collect refresh [] s = Return s"
| "cache_run collect refresh (Refresh e # es) s =
     obind (refresh e s) (cache_run collect refresh es)"
| "cache_run collect refresh (Request e # es) s =
     obind (collect e s) (\<lambda>(r, s'). cache_run collect refresh es s')"

text \<open>The shape of \<open>Collect\<close> after a miss, and of \<open>collectAndCache\<close>, inverted.\<close>

lemma write_back_result:
  assumes "obind g (\<lambda>(r, s'). Return (case r of Inl err \<Rightarrow> (Inl err, s') | Inr m \<Rightarrow> (Inr m, st m s')))
    = Return (r, s2)"
  shows "\<exists>s1. g = Return (r, s1) \<and> s2 = (case r of Inl err \<Rightarrow> s1 | Inr m \<Rightarrow> st m s1)"
proof -
  obtain r1 s1 where g: "g = Return (r1, s1)"
    and e: "(case r1 of Inl err \<Rightarrow> (Inl err, s1) | Inr m \<Rightarrow> (Inr m, st m s1)) = (r, s2)"
    using assms by auto
  from e show ?thesis using g by (cases r1) auto
qed

lemma refresh_result:
  assumes "obind g (\<lambda>(r, s'). Return (case r of Inr m \<Rightarrow> st m s' | Inl err \<Rightarrow> s')) = Return s2"
  shows "\<exists>r s1. g = Return (r, s1) \<and> s2 = (case r of Inl err \<Rightarrow> s1 | Inr m \<Rightarrow> st m s1)"
proof -
  obtain r1 s1 where g: "g = Return (r1, s1)"
    and e: "(case r1 of Inr m \<Rightarrow> st m s1 | Inl err \<Rightarrow> s1) = s2"
    using assms by auto
  from e show ?thesis using g by (cases r1) auto
qed

section \<open>The contract\<close>

locale metric_cache =
  fixes hit :: "instant \<Rightarrow> 's \<Rightarrow> bool"
    and cached :: "'s \<Rightarrow> 'm"
    and cached_time :: "'s \<Rightarrow> instant"
    and duration :: "'s \<Rightarrow> duration"
    and gather :: "'e \<Rightarrow> 's \<Rightarrow> ((go_error + 'm) \<times> 's) outcome"
    and store :: "instant \<Rightarrow> 'm \<Rightarrow> 's \<Rightarrow> 's"
    and collect :: "'e \<Rightarrow> 's \<Rightarrow> ((go_error + 'm) \<times> 's) outcome"
    and refresh :: "'e \<Rightarrow> 's \<Rightarrow> 's outcome"
    and check_time :: "'e \<Rightarrow> instant"
    and store_time :: "'e \<Rightarrow> instant"
    and inv :: "'s \<Rightarrow> bool"
  assumes hit_recent: "inv s \<Longrightarrow> hit t s \<Longrightarrow> time_sub t (cached_time s) < duration s"
    and duration_range: "inv s \<Longrightarrow> int64_range (duration s)"
    and store_law: "inv s \<Longrightarrow> gather e s = Return (Inr m, s') \<Longrightarrow> inv (store (store_time e) m s')
      \<and> cached (store (store_time e) m s') = m \<and> cached_time (store (store_time e) m s') = store_time e
      \<and> duration (store (store_time e) m s') = duration s"
    and gather_frame: "inv s \<Longrightarrow> gather e s = Return (r, s') \<Longrightarrow> inv s'
      \<and> cached_time s' = cached_time s \<and> duration s' = duration s
      \<and> (cached_time s \<noteq> zero_time \<longrightarrow> cached s' = cached s)"
    and collect_hit: "inv s \<Longrightarrow> hit (check_time e) s \<Longrightarrow> collect e s = Return (Inr (cached s), s)"
    and collect_miss: "inv s \<Longrightarrow> \<not> hit (check_time e) s \<Longrightarrow> collect e s = Return (r, s2) \<Longrightarrow>
      \<exists>s1. gather e s = Return (r, s1)
        \<and> (s2 = s1 \<or> (\<exists>m. r = Inr m \<and> s2 = store (store_time e) m s1))"
    and refresh_law: "inv s \<Longrightarrow> refresh e s = Return s2 \<Longrightarrow>
      \<exists>r s1. gather e s = Return (r, s1)
        \<and> s2 = (case r of Inl err \<Rightarrow> s1 | Inr m \<Rightarrow> store (store_time e) m s1)"
begin

text \<open>The cache holds what some collection of the history gathered, at the instant it was stored.\<close>

definition gathered :: "'e list \<Rightarrow> instant \<Rightarrow> 'm \<Rightarrow> bool" where
  "gathered es t m \<longleftrightarrow> (\<exists>e \<in> set es. \<exists>u v. gather e u = Return (Inr m, v) \<and> store_time e = t)"

definition backed :: "duration \<Rightarrow> 'e list \<Rightarrow> 's \<Rightarrow> bool" where
  "backed d es s \<longleftrightarrow> inv s \<and> duration s = d \<and>
     (cached_time s = zero_time \<or> gathered es (cached_time s) (cached s))"

lemma backed_mono: "backed d es s \<Longrightarrow> set es \<subseteq> set es' \<Longrightarrow> backed d es' s"
  unfolding backed_def gathered_def by blast

lemma backed_gather:
  "backed d es s \<Longrightarrow> gather e s = Return (r, s') \<Longrightarrow> backed d es s'"
  using gather_frame [of s e r s'] by (auto simp: backed_def)

lemma backed_store:
  assumes "backed d es s" "gather e s = Return (Inr m, s')"
  shows "backed d (e # es) (store (store_time e) m s')"
proof -
  have "gathered (e # es) (store_time e) m" unfolding gathered_def using assms(2) by fastforce
  then show ?thesis using store_law [OF _ assms(2)] assms by (simp add: backed_def)
qed

lemma backed_refresh:
  assumes b: "backed d es s" and r: "refresh e s = Return s'" shows "backed d (e # es) s'"
proof -
  have "inv s" using b by (simp add: backed_def)
  from refresh_law [OF this r] obtain r1 s1 where g: "gather e s = Return (r1, s1)"
    and s': "s' = (case r1 of Inl err \<Rightarrow> s1 | Inr m \<Rightarrow> store (store_time e) m s1)" by blast
  show ?thesis
    using backed_store [OF b] backed_mono [OF backed_gather [OF b g], of "e # es"] g s'
    by (cases r1) auto
qed

lemma backed_collect:
  assumes b: "backed d es s" and c: "collect e s = Return (r, s')" shows "backed d (e # es) s'"
proof (cases "hit (check_time e) s")
  case True
  with b c collect_hit [of s e] have "s' = s" by (simp add: backed_def)
  then show ?thesis using backed_mono [OF b, of "e # es"] by auto
next
  case False
  have "inv s" using b by (simp add: backed_def)
  from collect_miss [OF this False c] obtain s1 where g: "gather e s = Return (r, s1)"
    and s': "s' = s1 \<or> (\<exists>m. r = Inr m \<and> s' = store (store_time e) m s1)" by blast
  show ?thesis
    using backed_store [OF b] backed_mono [OF backed_gather [OF b g], of "e # es"] g s' by auto
qed

lemma backed_run:
  "backed d es0 s \<Longrightarrow> cache_run collect refresh es s = Return s' \<Longrightarrow>
   backed d (map event_env es @ es0) s'"
proof (induction es arbitrary: s es0)
  case (Cons a es)
  show ?case
  proof (cases a)
    case (Refresh e)
    with Cons.prems obtain s1 where "refresh e s = Return s1"
      "cache_run collect refresh es s1 = Return s'" by auto
    with Cons.IH [OF backed_refresh [OF Cons.prems(1)]] have "backed d (map event_env es @ e # es0) s'"
      by blast
    then show ?thesis using Refresh by (auto elim: backed_mono)
  next
    case (Request e)
    with Cons.prems obtain r s1 where "collect e s = Return (r, s1)"
      "cache_run collect refresh es s1 = Return s'" by auto
    with Cons.IH [OF backed_collect [OF Cons.prems(1)]] have "backed d (map event_env es @ e # es0) s'"
      by blast
    then show ?thesis using Request by (auto elim: backed_mono)
  qed
qed simp

text \<open>
  Bounded staleness: an answer was gathered by the request itself, or by an event of the history
  whose result was stored less than the cache duration before.
\<close>

lemma collect_fresh:
  assumes "inv s0" "cached_time s0 = zero_time"
    and "cache_run collect refresh es s0 = Return s"
    and "collect e s = Return (Inr m, s')" "max_duration \<le> check_time e"
  shows "(\<exists>v. gather e s = Return (Inr m, v)) \<or>
    (\<exists>e' \<in> set (map event_env es). \<exists>u v. gather e' u = Return (Inr m, v) \<and>
       time_sub (check_time e) (store_time e') < duration s0)"
proof -
  have b: "backed (duration s0) (map event_env es) s"
    using backed_run [of "duration s0" "[]" s0 es s] assms(1-3) by (simp add: backed_def)
  then have inv: "inv s" and d: "duration s = duration s0" by (simp_all add: backed_def)
  show ?thesis
  proof (cases "hit (check_time e) s")
    case False
    then show ?thesis using collect_miss [OF inv False assms(4)] by blast
  next
    case True
    then have m: "m = cached s" using collect_hit [OF inv True] assms(4) by simp
    have recent: "time_sub (check_time e) (cached_time s) < duration s"
      by (rule hit_recent [OF inv True])
    then have "cached_time s \<noteq> zero_time"
      using time_sub_zero_time [OF assms(5) duration_range [OF inv]] by metis
    with b have "gathered (map event_env es) (cached_time s) m" by (simp add: backed_def m)
    then show ?thesis using recent unfolding d gathered_def by metis
  qed
qed

text \<open>
  What every collection gathers holds of every answer, and of the cache, once it holds of the cache:
  \<open>P\<close> is a further invariant of the collector and \<open>Q\<close> what is claimed of the answers.
\<close>

lemma collect_keeps:
  assumes "inv s" "collect e s = Return (r, s')" "P s" "P s \<Longrightarrow> Q (cached s)"
    and g: "\<And>r s1. gather e s = Return (r, s1) \<Longrightarrow>
      P s1 \<and> (\<forall>m. r = Inr m \<longrightarrow> Q m \<and> P (store (store_time e) m s1))"
  shows "inv s' \<and> P s' \<and> (\<forall>m. r = Inr m \<longrightarrow> Q m)"
proof (cases "hit (check_time e) s")
  case True
  with assms collect_hit [OF assms(1) True] show ?thesis by (auto simp: eq_commute)
next
  case False
  from collect_miss [OF assms(1) False assms(2)] obtain s1 where s1: "gather e s = Return (r, s1)"
    and s': "s' = s1 \<or> (\<exists>m. r = Inr m \<and> s' = store (store_time e) m s1)" by blast
  show ?thesis using s' g [OF s1] gather_frame [OF assms(1) s1] store_law [OF assms(1), of e _ s1] s1 by auto
qed

lemma refresh_keeps:
  assumes "inv s" "refresh e s = Return s'"
    and g: "\<And>r s1. gather e s = Return (r, s1) \<Longrightarrow>
      P s1 \<and> (\<forall>m. r = Inr m \<longrightarrow> P (store (store_time e) m s1))"
  shows "inv s' \<and> P s'"
proof -
  from refresh_law [OF assms(1,2)] obtain r s1 where s1: "gather e s = Return (r, s1)"
    and s': "s' = (case r of Inl err \<Rightarrow> s1 | Inr m \<Rightarrow> store (store_time e) m s1)" by blast
  show ?thesis using s' g [OF s1] gather_frame [OF assms(1) s1] store_law [OF assms(1), of e _ s1] s1
    by (cases r) auto
qed

text \<open>A refresh whose collection fails leaves a filled cache as it was.\<close>

lemma refresh_error_keeps:
  assumes "inv s" "refresh e s = Return s'" "gather e s = Return (Inl err, s1)" "cached_time s \<noteq> zero_time"
  shows "cached s' = cached s \<and> cached_time s' = cached_time s"
  using refresh_law [OF assms(1,2)] gather_frame [OF assms(1,3)] assms(3,4) by auto

end

text \<open>Collectors whose \<open>Collect\<close> also stores what it gathers, so that the next request hits.\<close>

locale write_back_cache = metric_cache hit cached cached_time duration gather store collect refresh
    check_time store_time inv
  for hit :: "instant \<Rightarrow> 's \<Rightarrow> bool" and cached :: "'s \<Rightarrow> 'm" and cached_time duration
    and gather :: "'e \<Rightarrow> 's \<Rightarrow> ((go_error + 'm) \<times> 's) outcome" and store collect refresh
    check_time store_time inv +
  fixes usable :: "'m \<Rightarrow> 's \<Rightarrow> bool"
  assumes collect_stores: "inv s \<Longrightarrow> \<not> hit (check_time e) s \<Longrightarrow> gather e s = Return (Inr m, s1) \<Longrightarrow>
      collect e s = Return (Inr m, store (store_time e) m s1)"
    and store_hit: "inv s \<Longrightarrow> gather e s = Return (Inr m, s1) \<Longrightarrow> usable m s1 \<Longrightarrow>
      time_sub t (store_time e) < duration s \<Longrightarrow> hit t (store (store_time e) m s1)"
begin

text \<open>Two requests in a row, the second in time: one collection, the same answer, no new state.\<close>

lemma second_request_hits:
  assumes "inv s" "\<not> hit (check_time e) s" "gather e s = Return (Inr m, s1)" "usable m s1"
    and "time_sub (check_time e') (store_time e) < duration s"
  shows "\<exists>s2. collect e s = Return (Inr m, s2) \<and> collect e' s2 = Return (Inr m, s2)"
proof -
  let ?s2 = "store (store_time e) m s1"
  have "collect e s = Return (Inr m, ?s2)" by (rule collect_stores [OF assms(1-3)])
  moreover
  have "hit (check_time e') ?s2" by (rule store_hit [OF assms(1,3,4,5)])
  then have "collect e' ?s2 = Return (Inr m, ?s2)"
    using collect_hit [of ?s2 e'] store_law [OF assms(1,3)] by simp
  ultimately show ?thesis by blast
qed

end

text \<open>
  The collectors whose \<open>Collect\<close> and \<open>collectAndCache\<close> are the textbook ones: answer a hit,
  gather and store otherwise; gather and store what succeeded.
\<close>

locale standard_collector =
  fixes hit :: "instant \<Rightarrow> 's \<Rightarrow> bool"
    and cached :: "'s \<Rightarrow> 'm"
    and cached_time :: "'s \<Rightarrow> instant"
    and duration :: "'s \<Rightarrow> duration"
    and gather :: "'e \<Rightarrow> 's \<Rightarrow> ((go_error + 'm) \<times> 's) outcome"
    and store :: "instant \<Rightarrow> 'm \<Rightarrow> 's \<Rightarrow> 's"
    and collect :: "'e \<Rightarrow> 's \<Rightarrow> ((go_error + 'm) \<times> 's) outcome"
    and refresh :: "'e \<Rightarrow> 's \<Rightarrow> 's outcome"
    and check_time :: "'e \<Rightarrow> instant"
    and store_time :: "'e \<Rightarrow> instant"
    and inv :: "'s \<Rightarrow> bool"
    and usable :: "'m \<Rightarrow> 's \<Rightarrow> bool"
  assumes std_hit_recent: "inv s \<Longrightarrow> hit t s \<Longrightarrow> time_sub t (cached_time s) < duration s"
    and std_duration_range: "inv s \<Longrightarrow> int64_range (duration s)"
    and std_store_law: "inv s \<Longrightarrow> gather e s = Return (Inr m, s') \<Longrightarrow> inv (store (store_time e) m s')
      \<and> cached (store (store_time e) m s') = m \<and> cached_time (store (store_time e) m s') = store_time e
      \<and> duration (store (store_time e) m s') = duration s"
    and std_gather_frame: "inv s \<Longrightarrow> gather e s = Return (r, s') \<Longrightarrow> inv s'
      \<and> cached_time s' = cached_time s \<and> duration s' = duration s
      \<and> (cached_time s \<noteq> zero_time \<longrightarrow> cached s' = cached s)"
    and std_store_hit: "inv s \<Longrightarrow> gather e s = Return (Inr m, s1) \<Longrightarrow> usable m s1 \<Longrightarrow>
      time_sub t (store_time e) < duration s \<Longrightarrow> hit t (store (store_time e) m s1)"
    and collect_eq: "collect e s =
      (if hit (check_time e) s then Return (Inr (cached s), s)
       else obind (gather e s) (\<lambda>(r, s'). Return (case r of
              Inl err \<Rightarrow> (Inl err, s') | Inr m \<Rightarrow> (Inr m, store (store_time e) m s'))))"
    and refresh_eq: "refresh e s =
      obind (gather e s) (\<lambda>(r, s'). Return (case r of Inr m \<Rightarrow> store (store_time e) m s' | Inl err \<Rightarrow> s'))"

sublocale standard_collector \<subseteq> write_back_cache hit cached cached_time duration gather store collect
    refresh check_time store_time inv usable
proof
  fix s s2 e r
  assume "inv s" "\<not> hit (check_time e) s" "collect e s = Return (r, s2)"
  then have "obind (gather e s) (\<lambda>(r, s'). Return (case r of
              Inl err \<Rightarrow> (Inl err, s') | Inr m \<Rightarrow> (Inr m, store (store_time e) m s'))) = Return (r, s2)"
    by (simp only: collect_eq if_False)
  from write_back_result [OF this] obtain s1 where
    "gather e s = Return (r, s1) \<and> s2 = (case r of Inl err \<Rightarrow> s1 | Inr m \<Rightarrow> store (store_time e) m s1)" ..
  then show "\<exists>s1. gather e s = Return (r, s1) \<and> (s2 = s1 \<or> (\<exists>m. r = Inr m \<and> s2 = store (store_time e) m s1))"
    by (intro exI [of _ s1]) (cases r, auto)
next
  fix s s2 e
  assume "inv s" "refresh e s = Return s2"
  then show "\<exists>r s1. gather e s = Return (r, s1) \<and> s2 = (case r of Inl err \<Rightarrow> s1 | Inr m \<Rightarrow> store (store_time e) m s1)"
    unfolding refresh_eq by (intro refresh_result)
qed (use std_hit_recent std_duration_range std_store_law std_gather_frame std_store_hit in \<open>auto simp: collect_eq\<close>)

end
