(* ===== verification/Config_Model.thy ===== *)
theory Config_Model
  imports Prelude
begin

text \<open>
  The configuration structs of \<open>internal/config/config.go\<close> and their default values. The
  seven collectors besides the CPU collector have settings of the same two fields, declared as
  separate structs in the code and here.
\<close>

record CPUCollectorSettings =
  cpu_CacheDurationSeconds :: int64
  cpu_BackgroundSamplingMillis :: int64
  cpu_BackgroundFrequencySeconds :: int64
  cpu_DirectSamplingMillis :: int64

record SystemCollectorSettings =
  system_CacheDurationSeconds :: int64
  system_UpdateFrequencySeconds :: int64

record MemoryCollectorSettings =
  memory_CacheDurationSeconds :: int64
  memory_UpdateFrequencySeconds :: int64

record DiskCollectorSettings =
  disk_CacheDurationSeconds :: int64
  disk_UpdateFrequencySeconds :: int64

record NetworkCollectorSettings =
  network_CacheDurationSeconds :: int64
  network_UpdateFrequencySeconds :: int64

record DockerCollectorSettings =
  docker_CacheDurationSeconds :: int64
  docker_UpdateFrequencySeconds :: int64

record ProcessCollectorSettings =
  process_CacheDurationSeconds :: int64
  process_UpdateFrequencySeconds :: int64

record ServiceCollectorSettings =
  service_CacheDurationSeconds :: int64
  service_UpdateFrequencySeconds :: int64

record CollectorSettings =
  cs_CPU :: CPUCollectorSettings
  cs_System :: SystemCollectorSettings
  cs_Memory :: MemoryCollectorSettings
  cs_Disk :: DiskCollectorSettings
  cs_Network :: NetworkCollectorSettings
  cs_Docker :: DockerCollectorSettings
  cs_Process :: ProcessCollectorSettings
  cs_Service :: ServiceCollectorSettings

record Config =
  cfg_CollectionInterval :: int64
  cfg_SendingInterval :: int64
  cfg_ServerUrl :: string
  cfg_LocalKey :: string
  cfg_UserKey :: string
  cfg_ExternalIP :: string
  cfg_Collectors :: CollectorSettings

definition DefaultConfig :: Config where
  "DefaultConfig =
     \<lparr>cfg_CollectionInterval = 2,
      cfg_SendingInterval = 2,
      cfg_ServerUrl = ''1.209.148.143:8087'',
      cfg_LocalKey = '''',
      cfg_UserKey = '''',
      cfg_ExternalIP = '''',
      cfg_Collectors =
        \<lparr>cs_CPU =
           \<lparr>cpu_CacheDurationSeconds = 3, cpu_BackgroundSamplingMillis = 500,
            cpu_BackgroundFrequencySeconds = 2, cpu_DirectSamplingMillis = 750\<rparr>,
         cs_System = \<lparr>system_CacheDurationSeconds = 3, system_UpdateFrequencySeconds = 2\<rparr>,
         cs_Memory = \<lparr>memory_CacheDurationSeconds = 3, memory_UpdateFrequencySeconds = 2\<rparr>,
         cs_Disk = \<lparr>disk_CacheDurationSeconds = 3, disk_UpdateFrequencySeconds = 2\<rparr>,
         cs_Network = \<lparr>network_CacheDurationSeconds = 3, network_UpdateFrequencySeconds = 2\<rparr>,
         cs_Docker = \<lparr>docker_CacheDurationSeconds = 3, docker_UpdateFrequencySeconds = 2\<rparr>,
         cs_Process = \<lparr>process_CacheDurationSeconds = 3, process_UpdateFrequencySeconds = 2\<rparr>,
         cs_Service = \<lparr>service_CacheDurationSeconds = 3, service_UpdateFrequencySeconds = 2\<rparr>\<rparr>\<rparr>"

end
