(* ===== verification/System_Collector.thy ===== *)
theory System_Collector
  imports Models Collector_Cache Config_Model
begin

text \<open>
  The collector of host facts, \<open>internal/collectors/system.go\<close>. It gathers the static facts when
  the flag \<open>staticInfoLoaded\<close> is not set and otherwise takes them from the cached record; the flag
  is set before the record that holds them is stored. The first half models one collection as a
  step, the second the interleaving of the background goroutine with requests.
\<close>

section \<open>Collection\<close>

record HostInfo =
  hi_Hostname :: string
  hi_OS :: string
  hi_Platform :: string
  hi_PlatformFamily :: string
  hi_PlatformVersion :: string
  hi_KernelArch :: string
  hi_BootTime :: uint64
  hi_Uptime :: uint64

text \<open>A listed process is its thread count and its number of open descriptors, where known.\<close>

record system_env =
  ye_check_time :: instant
  ye_static_host :: "go_error + HostInfo"
  ye_kernel_version :: "go_error + string"
  ye_host :: "go_error + HostInfo"
  ye_processes :: "go_error + (int option \<times> int option) list"
  ye_store_time :: instant

record SystemCollector =
  yk_cachedInfo :: SystemInfo
  yk_cachedTime :: instant
  yk_cacheDuration :: duration
  yk_updateFrequency :: duration
  yk_backgroundRunning :: bool
  yk_staticInfoLoaded :: bool

definition system_collectStaticInfo :: "system_env \<Rightarrow> go_error + SystemInfo" where
  "system_collectStaticInfo env =
     (case ye_static_host env of
        Inl err \<Rightarrow> Inl err
      | Inr infoStat \<Rightarrow>
          (case ye_kernel_version env of
             Inl err \<Rightarrow> Inl err
           | Inr kernelVersion \<Rightarrow> Inr (zero_SystemInfo
               \<lparr>si_Hostname := hi_Hostname infoStat,
                si_OSName := hi_OS infoStat,
                si_PlatformFamily := hi_PlatformFamily infoStat,
                si_Platform := hi_Platform infoStat,
                si_OSVersion := hi_PlatformVersion infoStat,
                si_OSArchitecture := hi_KernelArch infoStat,
                si_OSKernelVersion := kernelVersion\<rparr>)))"

fun count_processes ::
  "(int option \<times> int option) list \<Rightarrow> uint64 \<times> uint64 \<times> uint64 \<Rightarrow> uint64 \<times> uint64 \<times> uint64" where
  "count_processes [] acc = acc"
| "count_processes ((numThreads, fds) # ps) (totalProcesses, totalThreads, totalFileDescriptors) =
     count_processes ps
       (totalProcesses + 1,
        (case numThreads of None \<Rightarrow> totalThreads | Some n \<Rightarrow> totalThreads + of_int n),
        (case fds of None \<Rightarrow> totalFileDescriptors | Some n \<Rightarrow> totalFileDescriptors + of_int n))"

text \<open>The two goroutines of the dynamic collection write different fields of the record.\<close>

definition system_host_part :: "HostInfo \<Rightarrow> SystemInfo \<Rightarrow> SystemInfo" where
  "system_host_part infoStat info =
     info\<lparr>si_BootTime := int64_of_uint64 (hi_BootTime infoStat), si_Uptime := int64_of_uint64 (hi_Uptime infoStat)\<rparr>"

definition system_process_part :: "(int option \<times> int option) list \<Rightarrow> SystemInfo \<Rightarrow> SystemInfo" where
  "system_process_part ps info =
     (case count_processes ps (0, 0, 0) of (totalProcesses, totalThreads, totalFileDescriptors) \<Rightarrow>
        info\<lparr>si_TotalProcesses := totalProcesses, si_TotalThreads := totalThreads,
             si_TotalFileDescriptors := totalFileDescriptors\<rparr>)"

definition system_collectDynamicInfo :: "system_env \<Rightarrow> SystemInfo \<Rightarrow> go_error + SystemInfo" where
  "system_collectDynamicInfo env info =
     (case ye_host env of
        Inl hostInfoErr \<Rightarrow> Inl hostInfoErr
      | Inr infoStat \<Rightarrow>
          (case ye_processes env of
             Inl processInfoErr \<Rightarrow> Inl processInfoErr
           | Inr ps \<Rightarrow> Inr (system_process_part ps (system_host_part infoStat info))))"

definition collectSystemInfo ::
  "system_env \<Rightarrow> SystemCollector \<Rightarrow> ((go_error + SystemInfo) \<times> SystemCollector) outcome" where
  "collectSystemInfo env c =
     (if yk_staticInfoLoaded c then
        Return (system_collectDynamicInfo env (yk_cachedInfo c), c)
      else (case system_collectStaticInfo env of
              Inl err \<Rightarrow> Return (Inl err, c)
            | Inr info \<Rightarrow> Return (system_collectDynamicInfo env info, c\<lparr>yk_staticInfoLoaded := True\<rparr>)))"

section \<open>Cache and background collection\<close>

definition system_store :: "instant \<Rightarrow> SystemInfo \<Rightarrow> SystemCollector \<Rightarrow> SystemCollector" where
  "system_store t info c = c\<lparr>yk_cachedInfo := info, yk_cachedTime := t\<rparr>"

definition system_background_turn :: "system_env \<Rightarrow> SystemCollector \<Rightarrow> SystemCollector outcome" where
  "system_background_turn env c =
     obind (collectSystemInfo env c)
       (\<lambda>(r, c'). Return (case r of Inr info \<Rightarrow> system_store (ye_store_time env) info c' | Inl err \<Rightarrow> c'))"

definition system_isCacheValid :: "instant \<Rightarrow> SystemCollector \<Rightarrow> bool" where
  "system_isCacheValid now c \<longleftrightarrow> time_sub now (yk_cachedTime c) < yk_cacheDuration c"

definition system_Collect ::
  "system_env \<Rightarrow> SystemCollector \<Rightarrow> ((go_error + SystemInfo) \<times> SystemCollector) outcome" where
  "system_Collect env c =
     (if system_isCacheValid (ye_check_time env) c then Return (Inr (yk_cachedInfo c), c)
      else obind (collectSystemInfo env c)
        (\<lambda>(r, c'). Return (case r of
             Inl err \<Rightarrow> (Inl err, c')
           | Inr info \<Rightarrow> (Inr info, system_store (ye_store_time env) info c'))))"

definition system_startBackgroundCollection :: "SystemCollector \<Rightarrow> SystemCollector \<times> bool" where
  "system_startBackgroundCollection c =
     (if yk_backgroundRunning c then (c, False) else (c\<lparr>yk_backgroundRunning := True\<rparr>, True))"

definition NewSystemCollector :: "SystemCollectorSettings \<Rightarrow> SystemCollector \<times> bool" where
  "NewSystemCollector cfg = system_startBackgroundCollection
     \<lparr>yk_cachedInfo = zero_SystemInfo, yk_cachedTime = zero_time,
      yk_cacheDuration = dur_seconds (system_CacheDurationSeconds cfg),
      yk_updateFrequency = dur_seconds (system_UpdateFrequencySeconds cfg),
      yk_backgroundRunning = False, yk_staticInfoLoaded = False\<rparr>"

section \<open>Interleaving\<close>

text \<open>
  A thread in the middle of a collection: about to gather the static facts, about to gather the
  dynamic ones, or about to store. The accesses to the collector happen under its mutex, so they
  are the atomic steps; \<open>Failed\<close> and \<open>Stored\<close> threads have finished.
\<close>

datatype system_pc = Start | NeedStatic | NeedDynamic SystemInfo | ToStore SystemInfo | Stored | Failed

type_synonym system_threads = "SystemCollector \<times> (nat \<Rightarrow> system_pc)"

inductive system_step :: "system_env \<Rightarrow> system_threads \<Rightarrow> system_threads \<Rightarrow> bool" for env where
  step_check_loaded: "th t = Start \<Longrightarrow> yk_staticInfoLoaded c \<Longrightarrow>
     system_step env (c, th) (c, th(t := NeedDynamic (yk_cachedInfo c)))"
| step_check_unloaded: "th t = Start \<Longrightarrow> \<not> yk_staticInfoLoaded c \<Longrightarrow>
     system_step env (c, th) (c, th(t := NeedStatic))"
| step_static: "th t = NeedStatic \<Longrightarrow> system_collectStaticInfo env = Inr info \<Longrightarrow>
     system_step env (c, th) (c\<lparr>yk_staticInfoLoaded := True\<rparr>, th(t := NeedDynamic info))"
| step_static_error: "th t = NeedStatic \<Longrightarrow> system_collectStaticInfo env = Inl err \<Longrightarrow>
     system_step env (c, th) (c, th(t := Failed))"
| step_dynamic: "th t = NeedDynamic info \<Longrightarrow> system_collectDynamicInfo env info = Inr info' \<Longrightarrow>
     system_step env (c, th) (c, th(t := ToStore info'))"
| step_dynamic_error: "th t = NeedDynamic info \<Longrightarrow> system_collectDynamicInfo env info = Inl err \<Longrightarrow>
     system_step env (c, th) (c, th(t := Failed))"
| step_store: "th t = ToStore info \<Longrightarrow>
     system_step env (c, th) (system_store (ye_store_time env) info c, th(t := Stored))"

inductive system_steps :: "system_env list \<Rightarrow> system_threads \<Rightarrow> system_threads \<Rightarrow> bool" where
  steps_refl: "system_steps [] s s"
| steps_step: "system_step e s s' \<Longrightarrow> system_steps es s' s'' \<Longrightarrow> system_steps (e # es) s s''"

section \<open>Lemmas\<close>

definition system_inv :: "SystemCollector \<Rightarrow> bool" where
  "system_inv c \<longleftrightarrow> int64_range (yk_cacheDuration c)"

lemma collectSystem_frame:
  assumes "collectSystemInfo env c = Return (r, c')"
  shows "yk_cachedInfo c' = yk_cachedInfo c \<and> yk_cachedTime c' = yk_cachedTime c
    \<and> yk_cacheDuration c' = yk_cacheDuration c \<and> (yk_staticInfoLoaded c \<longrightarrow> yk_staticInfoLoaded c')"
  using assms by (auto simp: collectSystemInfo_def split: sum.splits if_splits)

interpretation system: standard_collector system_isCacheValid yk_cachedInfo yk_cachedTime
  yk_cacheDuration collectSystemInfo system_store system_Collect system_background_turn
  ye_check_time ye_store_time system_inv "\<lambda>m c. True"
  by unfold_locales
    (auto simp: system_isCacheValid_def system_inv_def system_store_def system_Collect_def
      system_background_turn_def dest!: collectSystem_frame)

text \<open>The facts that only the static collection sets.\<close>

definition host_facts :: "SystemInfo \<Rightarrow> string list" where
  "host_facts i = [si_Hostname i, si_OSName i, si_Platform i, si_PlatformFamily i, si_OSVersion i,
     si_OSArchitecture i, si_OSKernelVersion i]"

lemma system_parts_facts [simp]:
  "host_facts (system_host_part h i) = host_facts i" "host_facts (system_process_part ps i) = host_facts i"
  by (simp_all add: system_host_part_def system_process_part_def host_facts_def split: prod.splits)

lemma system_dynamic_facts: "system_collectDynamicInfo env i = Inr i' \<Longrightarrow> host_facts i' = host_facts i"
  by (auto simp: system_collectDynamicInfo_def split: sum.splits)

text \<open>The order in which the two goroutines finish does not matter.\<close>

lemma system_parts_commute:
  "system_process_part ps (system_host_part h i) = system_host_part h (system_process_part ps i)"
  by (simp add: system_host_part_def system_process_part_def split: prod.splits)

lemma count_processes_eq:
  "count_processes ps (a, b, d) =
     (a + of_nat (length ps),
      b + sum_list (map (\<lambda>p. case fst p of None \<Rightarrow> 0 | Some n \<Rightarrow> of_int n) ps),
      d + sum_list (map (\<lambda>p. case snd p of None \<Rightarrow> 0 | Some n \<Rightarrow> of_int n) ps))"
proof (induction ps arbitrary: a b d)
  case (Cons p ps)
  then show ?case by (cases p) (simp add: add.assoc split: option.splits)
qed simp

lemma system_process_fields:
  "si_TotalProcesses (system_process_part ps i) = of_nat (length ps)"
  "si_TotalThreads (system_process_part ps i) = sum_list (map (\<lambda>p. case fst p of None \<Rightarrow> 0 | Some n \<Rightarrow> of_int n) ps)"
  "si_TotalFileDescriptors (system_process_part ps i)
     = sum_list (map (\<lambda>p. case snd p of None \<Rightarrow> 0 | Some n \<Rightarrow> of_int n) ps)"
  by (simp_all add: system_process_part_def count_processes_eq)

text \<open>Once the flag is set and no thread is gathering static facts, the facts are settled.\<close>

definition facts_settled :: "string list \<Rightarrow> system_threads \<Rightarrow> bool" where
  "facts_settled fs s \<longleftrightarrow> yk_staticInfoLoaded (fst s) \<and> host_facts (yk_cachedInfo (fst s)) = fs
     \<and> (\<forall>t. snd s t \<noteq> NeedStatic
          \<and> (\<forall>i. snd s t = NeedDynamic i \<or> snd s t = ToStore i \<longrightarrow> host_facts i = fs))"

lemma system_step_settled: "system_step e s s' \<Longrightarrow> facts_settled fs s \<Longrightarrow> facts_settled fs s'"
  by (induction rule: system_step.induct)
     (auto simp: facts_settled_def system_store_def dest: system_dynamic_facts)

lemma system_steps_settled: "system_steps es s s' \<Longrightarrow> facts_settled fs s \<Longrightarrow> facts_settled fs s'"
  by (induction rule: system_steps.induct) (auto dest: system_step_settled)

text \<open>The same of the sequential operations.\<close>

definition facts_kept :: "string list \<Rightarrow> SystemCollector \<Rightarrow> bool" where
  "facts_kept fs c \<longleftrightarrow> yk_staticInfoLoaded c \<and> host_facts (yk_cachedInfo c) = fs"

lemma collectSystem_facts:
  assumes "facts_kept fs c" "collectSystemInfo e c = Return (r, c')"
  shows "c' = c \<and> (\<forall>i. r = Inr i \<longrightarrow> host_facts i = fs)"
  using assms by (auto simp: collectSystemInfo_def facts_kept_def dest: system_dynamic_facts)

lemma system_turn_facts:
  assumes "facts_kept fs c" "system_background_turn e c = Return c'" shows "facts_kept fs c'"
proof -
  from refresh_result [OF assms(2) [unfolded system_background_turn_def]] obtain r c1
    where g: "collectSystemInfo e c = Return (r, c1)"
      and c': "c' = (case r of Inl err \<Rightarrow> c1 | Inr i \<Rightarrow> system_store (ye_store_time e) i c1)" by blast
  with collectSystem_facts [OF assms(1) g] assms(1) show ?thesis
    by (cases r) (auto simp: facts_kept_def system_store_def)
qed

lemma system_Collect_facts:
  assumes "facts_kept fs c" "system_Collect e c = Return (r, c')"
  shows "facts_kept fs c' \<and> (\<forall>i. r = Inr i \<longrightarrow> host_facts i = fs)"
proof (cases "system_isCacheValid (ye_check_time e) c")
  case True
  with assms show ?thesis by (auto simp: system_Collect_def facts_kept_def)
next
  case False
  with assms(2) have "obind (collectSystemInfo e c) (\<lambda>(r, c'). Return (case r of
       Inl err \<Rightarrow> (Inl err, c') | Inr i \<Rightarrow> (Inr i, system_store (ye_store_time e) i c'))) = Return (r, c')"
    by (simp add: system_Collect_def)
  from write_back_result [OF this] obtain c1 where g: "collectSystemInfo e c = Return (r, c1)"
    and c': "c' = (case r of Inl err \<Rightarrow> c1 | Inr i \<Rightarrow> system_store (ye_store_time e) i c1)" by blast
  with collectSystem_facts [OF assms(1) g] assms(1) show ?thesis
    by (cases r) (auto simp: facts_kept_def system_store_def)
qed

lemma system_run_facts:
  "facts_kept fs c \<Longrightarrow> cache_run system_Collect system_background_turn es c = Return c' \<Longrightarrow> facts_kept fs c'"
proof (induction es arbitrary: c)
  case (Cons a es)
  show ?case
  proof (cases a)
    case (Refresh e)
    with Cons system_turn_facts show ?thesis by fastforce
  next
    case (Request e)
    with Cons.prems obtain r c1 where "system_Collect e c = Return (r, c1)"
      "cache_run system_Collect system_background_turn es c1 = Return c'" by auto
    with Cons.IH [of c1] system_Collect_facts [OF Cons.prems(1)] show ?thesis by blast
  qed
qed simp

definition sample_host :: HostInfo where
  "sample_host = \<lparr>hi_Hostname = ''node1'', hi_OS = ''linux'', hi_Platform = ''debian'', hi_PlatformFamily = ''debian'',
     hi_PlatformVersion = ''12'', hi_KernelArch = ''x86_64'', hi_BootTime = 5, hi_Uptime = 6\<rparr>"

definition sample_system_env :: "go_error option \<Rightarrow> system_env" where
  "sample_system_env e = \<lparr>ye_check_time = max_duration, ye_static_host = Inr sample_host, ye_kernel_version = Inr ''6.1'',
     ye_host = Inr sample_host, ye_processes = (case e of None \<Rightarrow> Inr [(Some 2, Some 9), (None, Some 1)] | Some err \<Rightarrow> Inl err),
     ye_store_time = max_duration\<rparr>"

definition sample_system_collector :: SystemCollector where
  "sample_system_collector = fst (NewSystemCollector (cs_System (cfg_Collectors DefaultConfig)))"

lemma sample_system_collector_simps [simp]:
  "yk_cachedInfo sample_system_collector = zero_SystemInfo" "yk_cachedTime sample_system_collector = zero_time"
  "\<not> yk_staticInfoLoaded sample_system_collector" "int64_range (yk_cacheDuration sample_system_collector)"
  by (simp_all add: sample_system_collector_def NewSystemCollector_def system_startBackgroundCollection_def)

section \<open>Properties\<close>

text \<open>
  A dynamic collection reports the number of processes and the sums of the thread and descriptor
  counts that could be read, modulo \<open>2 ^ 64\<close>, leaves the host facts alone, and gives the same record
  whichever of its two goroutines finishes first.
\<close>

theorem system_dynamic_totals:
  assumes "ye_host env = Inr h" "ye_processes env = Inr ps"
  shows "\<exists>i. system_collectDynamicInfo env info = Inr i
    \<and> si_TotalProcesses i = of_nat (length ps)
    \<and> si_TotalThreads i = sum_list (map (\<lambda>p. case fst p of None \<Rightarrow> 0 | Some n \<Rightarrow> of_int n) ps)
    \<and> si_TotalFileDescriptors i = sum_list (map (\<lambda>p. case snd p of None \<Rightarrow> 0 | Some n \<Rightarrow> of_int n) ps)
    \<and> host_facts i = host_facts info
    \<and> i = system_host_part h (system_process_part ps info)"
  using assms
  by (intro exI [of _ "system_process_part ps (system_host_part h info)"])
     (simp add: system_collectDynamicInfo_def system_process_fields system_parts_commute [symmetric])

lemma system_dynamic_totals_witness:
  "\<exists>i. system_collectDynamicInfo (sample_system_env None) zero_SystemInfo = Inr i
     \<and> si_TotalProcesses i = 2 \<and> si_TotalThreads i = 2 \<and> si_TotalFileDescriptors i = 10"
  using system_dynamic_totals [of "sample_system_env None" sample_host "[(Some 2, Some 9), (None, Some 1)]" zero_SystemInfo]
  by (auto simp: sample_system_env_def)

text \<open>
  C36. Once the flag says the static facts are loaded, and no collection in progress is still gathering
  static facts or holds others than the cached ones, no interleaving of collections ever changes the
  host facts of the cached record again, right or wrong: they are never gathered a second time.
\<close>

theorem system_facts_permanent:
  assumes "yk_staticInfoLoaded c" "\<And>t. th t \<noteq> NeedStatic"
    and "\<And>t i. th t = NeedDynamic i \<or> th t = ToStore i \<Longrightarrow> host_facts i = host_facts (yk_cachedInfo c)"
    and "system_steps es (c, th) (c', th')"
  shows "host_facts (yk_cachedInfo c') = host_facts (yk_cachedInfo c)
    \<and> (\<forall>t. th' t \<noteq> NeedStatic) \<and> (\<forall>t i. th' t = ToStore i \<longrightarrow> host_facts i = host_facts (yk_cachedInfo c))"
proof -
  have "facts_settled (host_facts (yk_cachedInfo c)) (c, th)"
    using assms(1-3) by (simp add: facts_settled_def)
  from system_steps_settled [OF assms(4) this] show ?thesis by (simp add: facts_settled_def)
qed

lemma system_facts_permanent_witness:
  "\<exists>c' th'. system_steps [sample_system_env None]
       (sample_system_collector\<lparr>yk_staticInfoLoaded := True\<rparr>, (\<lambda>_. Start)(1 := ToStore zero_SystemInfo)) (c', th')
     \<and> host_facts (yk_cachedInfo c') = host_facts zero_SystemInfo"
proof -
  let ?c = "sample_system_collector\<lparr>yk_staticInfoLoaded := True\<rparr>"
  let ?th = "(\<lambda>_. Start)(1 := ToStore zero_SystemInfo) :: nat \<Rightarrow> system_pc"
  obtain c' th' where s: "system_steps [sample_system_env None] (?c, ?th) (c', th')"
    using steps_step [OF step_store steps_refl, of ?th 1 zero_SystemInfo "sample_system_env None" ?c] by auto
  have th: "?th t \<noteq> NeedStatic" "?th t = NeedDynamic i \<or> ?th t = ToStore i \<Longrightarrow> host_facts i = host_facts (yk_cachedInfo ?c)"
    for t i by (auto split: if_splits)
  have "yk_staticInfoLoaded ?c" by simp
  from system_facts_permanent [OF this th s] s show ?thesis by auto
qed

text \<open>
  C37. The flag is set before the facts are stored, so two collections that both succeed can lose them:
  for every environment in which every query succeeds there is an interleaving, from a new collector,
  of the background collection and a request that ends with an empty host name in the cached record,
  and the flag set.
\<close>

theorem system_race_loses_facts:
  assumes "system_collectStaticInfo e = Inr st" "ye_host e = Inr h" "ye_processes e = Inr ps"
    and "NewSystemCollector cfg = (c0, started)"
  shows "\<exists>es c th. system_steps es (c0, \<lambda>_. Start) (c, th) \<and> th 0 = Stored \<and> th 1 = Stored
    \<and> set es = {e} \<and> yk_staticInfoLoaded c \<and> host_facts (yk_cachedInfo c) = replicate 7 []"
proof -
  have c0: "\<not> yk_staticInfoLoaded c0" "yk_cachedInfo c0 = zero_SystemInfo"
    using assms(4) by (auto simp: NewSystemCollector_def system_startBackgroundCollection_def)
  let ?dyn = "\<lambda>i. system_process_part ps (system_host_part h i)"
  have dyn: "system_collectDynamicInfo e i = Inr (?dyn i)" for i
    using assms(2,3) by (simp add: system_collectDynamicInfo_def)
  let ?c1 = "c0\<lparr>yk_staticInfoLoaded := True\<rparr>"
  let ?c2 = "system_store (ye_store_time e) (?dyn st) ?c1"
  let ?c3 = "system_store (ye_store_time e) (?dyn zero_SystemInfo) ?c2"
  let ?th = "\<lambda>a b. (\<lambda>_. Start)(0 := a, Suc 0 := b)"
  have "system_step e (c0, ?th Start Start) (c0, ?th NeedStatic Start)"
    using step_check_unloaded [of "?th Start Start" 0 c0 e] c0 by (simp add: fun_upd_twist)
  moreover have "system_step e (c0, ?th NeedStatic Start) (?c1, ?th (NeedDynamic st) Start)"
    using step_static [of "?th NeedStatic Start" 0 e st c0] assms(1) by (simp add: fun_upd_twist)
  moreover have "system_step e (?c1, ?th (NeedDynamic st) Start) (?c1, ?th (NeedDynamic st) (NeedDynamic zero_SystemInfo))"
    using step_check_loaded [of "?th (NeedDynamic st) Start" "Suc 0" ?c1 e] c0 by simp
  moreover have "system_step e (?c1, ?th (NeedDynamic st) (NeedDynamic zero_SystemInfo))
      (?c1, ?th (ToStore (?dyn st)) (NeedDynamic zero_SystemInfo))"
    using step_dynamic [of "?th (NeedDynamic st) (NeedDynamic zero_SystemInfo)" 0 st e _ ?c1] dyn
    by (simp add: fun_upd_twist)
  moreover have "system_step e (?c1, ?th (ToStore (?dyn st)) (NeedDynamic zero_SystemInfo))
      (?c2, ?th Stored (NeedDynamic zero_SystemInfo))"
    using step_store [of "?th (ToStore (?dyn st)) (NeedDynamic zero_SystemInfo)" 0 "?dyn st" e ?c1]
    by (simp add: fun_upd_twist)
  moreover have "system_step e (?c2, ?th Stored (NeedDynamic zero_SystemInfo)) (?c2, ?th Stored (ToStore (?dyn zero_SystemInfo)))"
    using step_dynamic [of "?th Stored (NeedDynamic zero_SystemInfo)" "Suc 0" zero_SystemInfo e _ ?c2] dyn by simp
  moreover have "system_step e (?c2, ?th Stored (ToStore (?dyn zero_SystemInfo))) (?c3, ?th Stored Stored)"
    using step_store [of "?th Stored (ToStore (?dyn zero_SystemInfo))" "Suc 0" "?dyn zero_SystemInfo" e ?c2] by simp
  ultimately have "system_steps [e, e, e, e, e, e, e] (c0, ?th Start Start) (?c3, ?th Stored Stored)"
    by (meson steps_step steps_refl)
  moreover have "?th Start Start = (\<lambda>_. Start)" by auto
  moreover have "host_facts (yk_cachedInfo ?c3) = replicate 7 []"
    by (simp add: system_store_def) (simp add: host_facts_def zero_SystemInfo_def numeral_eq_Suc)
  moreover have "yk_staticInfoLoaded ?c3" by (simp add: system_store_def)
  moreover have "?th Stored Stored 0 = Stored" "?th Stored Stored 1 = Stored" by simp_all
  moreover have "set [e, e, e, e, e, e, e] = {e}" by simp
  ultimately show ?thesis by metis
qed

lemma system_race_loses_facts_witness:
  "\<exists>es c th. system_steps es (sample_system_collector, \<lambda>_. Start) (c, th)
     \<and> th 0 = Stored \<and> th 1 = Stored \<and> host_facts (yk_cachedInfo c) = replicate 7 []"
proof -
  obtain started where n: "NewSystemCollector (cs_System (cfg_Collectors DefaultConfig)) = (sample_system_collector, started)"
    by (metis prod.collapse sample_system_collector_def)
  have "\<exists>st. system_collectStaticInfo (sample_system_env None) = Inr st"
    by (simp add: system_collectStaticInfo_def sample_system_env_def)
  then obtain st where s: "system_collectStaticInfo (sample_system_env None) = Inr st" ..
  have "ye_host (sample_system_env None) = Inr sample_host"
    "ye_processes (sample_system_env None) = Inr [(Some 2, Some 9), (None, Some 1)]"
    by (simp_all add: sample_system_env_def)
  from system_race_loses_facts [OF s this n] show ?thesis by blast
qed

text \<open>
  A dynamic failure right after the static facts were gathered loses them as well: if that happens
  in the first background turn of a new collector, every later answer has empty host facts.
\<close>

theorem system_first_failure_loses_facts:
  assumes "NewSystemCollector cfg = (c0, started)" "system_collectStaticInfo e0 = Inr st"
    and "system_collectDynamicInfo e0 st = Inl err"
    and "cache_run system_Collect system_background_turn (Refresh e0 # es) c0 = Return c'"
    and "system_Collect e c' = Return (Inr i, c'')"
  shows "host_facts i = replicate 7 []"
proof -
  have c0: "\<not> yk_staticInfoLoaded c0" "yk_cachedInfo c0 = zero_SystemInfo"
    using assms(1) by (auto simp: NewSystemCollector_def system_startBackgroundCollection_def)
  let ?c1 = "c0\<lparr>yk_staticInfoLoaded := True\<rparr>"
  have z: "host_facts zero_SystemInfo = replicate 7 []"
    by (simp add: host_facts_def zero_SystemInfo_def numeral_eq_Suc)
  have "system_background_turn e0 c0 = Return ?c1"
    using c0 assms(2,3) by (simp add: system_background_turn_def collectSystemInfo_def)
  with assms(4) have "cache_run system_Collect system_background_turn es ?c1 = Return c'" by simp
  moreover have "facts_kept (replicate 7 []) ?c1" using c0 z by (simp add: facts_kept_def)
  ultimately have "facts_kept (replicate 7 []) c'" by (rule system_run_facts [rotated])
  from system_Collect_facts [OF this assms(5)] show ?thesis by simp
qed

lemma system_first_failure_loses_facts_witness:
  "\<exists>c' i c''. cache_run system_Collect system_background_turn [Refresh (sample_system_env (Some (ErrExt ''proc'')))]
       sample_system_collector = Return c'
     \<and> system_Collect (sample_system_env None) c' = Return (Inr i, c'') \<and> si_Hostname i = []"
proof -
  let ?e = "sample_system_env (Some (ErrExt ''proc''))" and ?c = "sample_system_collector\<lparr>yk_staticInfoLoaded := True\<rparr>"
  obtain started where n: "NewSystemCollector (cs_System (cfg_Collectors DefaultConfig)) = (sample_system_collector, started)"
    by (metis prod.collapse sample_system_collector_def)
  obtain st where s: "system_collectStaticInfo ?e = Inr st"
    by (simp add: system_collectStaticInfo_def sample_system_env_def)
  have d: "system_collectDynamicInfo ?e st = Inl (ErrExt ''proc'')"
    by (simp add: system_collectDynamicInfo_def sample_system_env_def)
  have r: "cache_run system_Collect system_background_turn [Refresh ?e] sample_system_collector = Return ?c"
    using s d by (simp add: system_background_turn_def collectSystemInfo_def)
  have "\<not> system_isCacheValid (ye_check_time (sample_system_env None)) ?c"
    using time_sub_zero_time [of max_duration] by (simp add: system_isCacheValid_def sample_system_env_def)
  then obtain i c'' where q: "system_Collect (sample_system_env None) ?c = Return (Inr i, c'')"
    by (simp add: system_Collect_def collectSystemInfo_def system_collectDynamicInfo_def sample_system_env_def)
  from system_first_failure_loses_facts [OF n s d r q] have "si_Hostname i = []"
    by (simp add: host_facts_def numeral_eq_Suc)
  with r q show ?thesis by blast
qed

end
