(* ===== verification/Go_Strings.thy ===== *)
theory Go_Strings
  imports Prelude
begin

text \<open>
  The functions of Go's packages \<open>strings\<close> and \<open>strconv\<close> that the program calls, on byte
  strings. A Go string is a sequence of bytes and an Isabelle \<open>char\<close> is a byte, so a
  character outside ASCII is several \<open>char\<close>s here, as it is in the program.
\<close>

section \<open>Searching and splitting\<close>

definition has_prefix :: "string \<Rightarrow> string \<Rightarrow> bool" where
  "has_prefix p s \<longleftrightarrow> length p \<le> length s \<and> take (length p) s = p"

definition has_suffix :: "string \<Rightarrow> string \<Rightarrow> bool" where
  "has_suffix p s \<longleftrightarrow> length p \<le> length s \<and> drop (length s - length p) s = p"

fun str_contains :: "string \<Rightarrow> string \<Rightarrow> bool" where
  "str_contains p [] = (p = [])"
| "str_contains p (c # s) = (has_prefix p (c # s) \<or> str_contains p s)"

definition trim_prefix :: "string \<Rightarrow> string \<Rightarrow> string" where
  "trim_prefix p s = (if has_prefix p s then drop (length p) s else s)"

definition trim_suffix :: "string \<Rightarrow> string \<Rightarrow> string" where
  "trim_suffix p s = (if has_suffix p s then take (length s - length p) s else s)"

text \<open>\<open>strings.Split\<close> with a separator of one byte, and \<open>strings.SplitN(s, sep, 2)\<close>.\<close>

fun split_on :: "char \<Rightarrow> string \<Rightarrow> string list" where
  "split_on c [] = [[]]"
| "split_on c (x # xs) =
     (if x = c then [] # split_on c xs
      else (case split_on c xs of [] \<Rightarrow> [[x]] | y # ys \<Rightarrow> (x # y) # ys))"

definition split_on2 :: "char \<Rightarrow> string \<Rightarrow> string list" where
  "split_on2 c s =
     (case dropWhile (\<lambda>x. x \<noteq> c) s of
        [] \<Rightarrow> [s]
      | _ # rest \<Rightarrow> [takeWhile (\<lambda>x. x \<noteq> c) s, rest])"

fun join_with :: "char \<Rightarrow> string list \<Rightarrow> string" where
  "join_with c [] = []"
| "join_with c [x] = x"
| "join_with c (x # y # ys) = x @ c # join_with c (y # ys)"

lemma has_prefix_iff: "has_prefix p s \<longleftrightarrow> (\<exists>r. s = p @ r)"
  by (auto simp: has_prefix_def intro: exI [of _ "drop (length p) s"])
     (metis append_take_drop_id)

lemma has_suffix_iff: "has_suffix p s \<longleftrightarrow> (\<exists>r. s = r @ p)"
proof
  assume "has_suffix p s"
  then have "s = take (length s - length p) s @ p"
    unfolding has_suffix_def by (metis append_take_drop_id)
  then show "\<exists>r. s = r @ p" ..
qed (auto simp: has_suffix_def)

lemma str_contains_iff: "str_contains p s \<longleftrightarrow> (\<exists>a b. s = a @ p @ b)"
proof (induction s)
  case (Cons c s)
  show ?case
  proof
    assume "str_contains p (c # s)"
    then show "\<exists>a b. c # s = a @ p @ b"
      by (auto simp: Cons.IH has_prefix_iff) (metis append_Nil append_Cons)+
  next
    assume "\<exists>a b. c # s = a @ p @ b"
    then obtain a b where ab: "c # s = a @ p @ b" by blast
    then show "str_contains p (c # s)"
    proof (cases a)
      case Nil
      have "has_prefix p (c # s)" unfolding has_prefix_iff using ab Nil by auto
      then show ?thesis by simp
    next
      case (Cons d a')
      with ab have "\<exists>a b. s = a @ p @ b" by auto
      then show ?thesis by (simp add: Cons.IH)
    qed
  qed
qed simp

lemma trim_suffix_append [simp]: "trim_suffix p (s @ p) = s"
  by (simp add: trim_suffix_def has_suffix_def)

lemma split_on_nonempty [simp]: "split_on c s \<noteq> []"
  by (induction s) (auto split: list.splits)

lemma split_on_no_sep: "x \<in> set (split_on c s) \<Longrightarrow> c \<notin> set x"
  by (induction s arbitrary: x) (auto split: if_splits list.splits)

lemma join_split_on [simp]: "join_with c (split_on c s) = s"
proof (induction s)
  case (Cons x s)
  show ?case
  proof (cases "split_on c s")
    case (Cons y ys)
    then show ?thesis using Cons.IH by (cases ys) auto
  qed simp
qed simp

lemma split_on_join:
  "xs \<noteq> [] \<Longrightarrow> (\<forall>x \<in> set xs. c \<notin> set x) \<Longrightarrow> split_on c (join_with c xs) = xs"
proof (induction xs rule: induct_list012)
  case (2 x)
  then have "c \<notin> set x" by simp
  then show ?case by (induction x) auto
next
  case (3 x y zs)
  then have IH: "split_on c (join_with c (y # zs)) = y # zs" and "c \<notin> set x" by simp_all
  have "split_on c (x @ c # join_with c (y # zs)) = x # y # zs"
    using \<open>c \<notin> set x\<close> by (induction x) (auto simp: IH)
  then show ?case by simp
qed simp

lemma length_split_on: "length (split_on c s) = Suc (count_list s c)"
  by (induction s) (auto split: list.splits)

lemma split_on2_cases:
  "c \<notin> set s \<and> split_on2 c s = [s] \<or>
   (\<exists>a b. c \<notin> set a \<and> s = a @ c # b \<and> split_on2 c s = [a, b])"
proof (cases "c \<in> set s")
  case True
  then obtain a b where ab: "s = a @ c # b" "c \<notin> set a" by (meson split_list_first)
  have "takeWhile (\<lambda>x. x \<noteq> c) (a @ c # b) = a" "dropWhile (\<lambda>x. x \<noteq> c) (a @ c # b) = c # b"
    using ab(2) by (induction a) auto
  then show ?thesis using ab by (auto simp: split_on2_def)
next
  case False
  then have ev: "dropWhile (\<lambda>x. x \<noteq> c) s = []" by (auto simp: dropWhile_eq_Nil_conv)
  show ?thesis using False unfolding split_on2_def ev by simp
qed

section \<open>White space and case\<close>

text \<open>
  \<open>strings.TrimSpace\<close> removes the runes of \<open>unicode.IsSpace\<close>, here by their UTF-8
  encodings: six ASCII bytes, U+0085, U+00A0, U+1680, U+2000 to U+200A, U+2028, U+2029, U+202F,
  U+205F and U+3000. UTF-8 is self-synchronising, so a suffix that spells one of them is that
  rune.
\<close>

definition byte :: "nat \<Rightarrow> char" where "byte n = char_of n"

definition space_codes :: "string list" where
  "space_codes =
     [[byte 9], [byte 10], [byte 11], [byte 12], [byte 13], [byte 32],
      [byte 194, byte 133], [byte 194, byte 160], [byte 225, byte 154, byte 128]]
     @ map (\<lambda>n. [byte 226, byte 128, byte n]) ([128..<139] @ [168, 169, 175])
     @ [[byte 226, byte 129, byte 159], [byte 227, byte 128, byte 128]]"

text \<open>The length of the space code that \<open>s\<close> starts with, 0 when it starts with none.\<close>

fun code_len :: "string list \<Rightarrow> string \<Rightarrow> nat" where
  "code_len [] s = 0"
| "code_len (k # ks) s = (if k \<noteq> [] \<and> has_prefix k s then length k else code_len ks s)"

lemma code_len_le: "code_len ks s \<le> length s"
  by (induction ks) (auto simp: has_prefix_def)

function trim_codes :: "string list \<Rightarrow> string \<Rightarrow> string" where
  "trim_codes ks s = (if code_len ks s = 0 then s else trim_codes ks (drop (code_len ks s) s))"
  by pat_completeness auto
termination
proof (relation "measure (\<lambda>(ks, s). length s)")
  fix ks s assume "code_len ks s \<noteq> 0"
  with code_len_le [of ks s] show "((ks, drop (code_len ks s) s), (ks, s)) \<in> measure (\<lambda>(ks, s). length s)"
    by simp
qed simp

declare trim_codes.simps [simp del]

definition trim_space :: "string \<Rightarrow> string" where
  "trim_space s = rev (trim_codes (map rev space_codes) (rev (trim_codes space_codes s)))"

text \<open>
  \<open>strings.ToLower\<close>. The callers only look for ASCII text in the result, so ASCII letters are
  lowered, and the two other runes whose lower case is ASCII (U+212A KELVIN SIGN and U+0130);
  other bytes above 127 stay as they are.
\<close>

fun to_lower :: "string \<Rightarrow> string" where
  "to_lower [] = []"
| "to_lower (a # s) =
     (case s of
        b # c # r \<Rightarrow>
          (if a = byte 226 \<and> b = byte 132 \<and> c = byte 170 then CHR ''k'' # to_lower r
           else if a = byte 196 \<and> b = byte 176 then CHR ''i'' # to_lower (c # r)
           else (if 65 \<le> (of_char a :: nat) \<and> (of_char a :: nat) \<le> 90
                 then char_of ((of_char a :: nat) + 32) else a) # to_lower s)
      | [b] \<Rightarrow>
          (if a = byte 196 \<and> b = byte 176 then [CHR ''i'']
           else (if 65 \<le> (of_char a :: nat) \<and> (of_char a :: nat) \<le> 90
                 then char_of ((of_char a :: nat) + 32) else a) # to_lower s)
      | [] \<Rightarrow>
          [if 65 \<le> (of_char a :: nat) \<and> (of_char a :: nat) \<le> 90
           then char_of ((of_char a :: nat) + 32) else a])"

section \<open>Numbers\<close>

definition is_digit :: "char \<Rightarrow> bool" where
  "is_digit c \<longleftrightarrow> 48 \<le> (of_char c :: nat) \<and> (of_char c :: nat) \<le> 57"

definition digit_val :: "char \<Rightarrow> nat" where
  "digit_val c = of_char c - 48"

definition digit_char :: "nat \<Rightarrow> char" where
  "digit_char n = char_of (n + 48)"

fun digits_val :: "nat \<Rightarrow> string \<Rightarrow> nat" where
  "digits_val acc [] = acc"
| "digits_val acc (c # s) = digits_val (10 * acc + digit_val c) s"

fun format_nat :: "nat \<Rightarrow> string" where
  "format_nat n = (if n < 10 then [digit_char n] else format_nat (n div 10) @ [digit_char (n mod 10)])"

declare format_nat.simps [simp del]

text \<open>\<open>strconv.Itoa\<close> and \<open>strconv.FormatUint(u, 10)\<close>.\<close>

definition format_int :: "int \<Rightarrow> string" where
  "format_int i = (if i < 0 then CHR ''-'' # format_nat (nat (- i)) else format_nat (nat i))"

definition format_uint :: "uint64 \<Rightarrow> string" where
  "format_uint u = format_nat (unat u)"

text \<open>
  \<open>strconv.Atoi\<close> and \<open>strconv.ParseUint(s, 10, 64)\<close> return a value together with an error:
  0 on a syntax error, the nearest bound on a range error. The scan stops at the first digit that
  overflows, so what follows it is not looked at.
\<close>

datatype num_error = ErrSyntax | ErrRange

definition all_digits :: "string \<Rightarrow> bool" where
  "all_digits s \<longleftrightarrow> s \<noteq> [] \<and> list_all is_digit s"

fun scan_uint :: "nat \<Rightarrow> string \<Rightarrow> nat \<times> num_error option" where
  "scan_uint n [] = (n, None)"
| "scan_uint n (c # s) =
     (if \<not> is_digit c then (0, Some ErrSyntax)
      else if 2 ^ 64 \<le> 10 * n + digit_val c then (2 ^ 64 - 1, Some ErrRange)
      else scan_uint (10 * n + digit_val c) s)"

definition atoi_signed :: "bool \<Rightarrow> string \<Rightarrow> int64 \<times> num_error option" where
  "atoi_signed neg ds =
     (if ds = [] then (0, Some ErrSyntax)
      else case scan_uint 0 ds of (n, e) \<Rightarrow>
        let v = (if neg then - int n else int n)
        in if e = Some ErrSyntax then (0, e)
           else if 2 ^ 63 \<le> v then (2 ^ 63 - 1, Some ErrRange)
           else if v < - (2 ^ 63) then (- (2 ^ 63), Some ErrRange)
           else (v, None))"

fun atoi :: "string \<Rightarrow> int64 \<times> num_error option" where
  "atoi [] = (0, Some ErrSyntax)"
| "atoi (c # s) =
     (if c = CHR ''-'' then atoi_signed True s
      else if c = CHR ''+'' then atoi_signed False s
      else atoi_signed False (c # s))"

definition parse_uint :: "string \<Rightarrow> uint64 \<times> num_error option" where
  "parse_uint s =
     (if s = [] then (0, Some ErrSyntax) else (case scan_uint 0 s of (n, e) \<Rightarrow> (of_nat n, e)))"

lemma digits_val_ge: "acc \<le> digits_val acc s"
proof (induction s arbitrary: acc)
  case (Cons c s)
  have "acc \<le> 10 * acc + digit_val c" by simp
  also have "\<dots> \<le> digits_val (10 * acc + digit_val c) s" by (rule Cons.IH)
  finally show ?case by simp
qed simp

lemma scan_uint_digits:
  "list_all is_digit s \<Longrightarrow> n < 2 ^ 64 \<Longrightarrow> scan_uint n s =
     (if digits_val n s < 2 ^ 64 then (digits_val n s, None) else (2 ^ 64 - 1, Some ErrRange))"
proof (induction s arbitrary: n)
  case (Cons c s)
  show ?case
  proof (cases "2 ^ 64 \<le> 10 * n + digit_val c")
    case True
    then have "\<not> digits_val (10 * n + digit_val c) s < 2 ^ 64"
      using digits_val_ge [of "10 * n + digit_val c" s] by simp
    with True Cons.prems show ?thesis by simp
  qed (use Cons in simp)
qed simp

lemma digit_char_inverse [simp]: "n < 10 \<Longrightarrow> digit_val (digit_char n) = n"
  by (simp add: digit_val_def digit_char_def)

lemma is_digit_digit_char [simp]: "n < 10 \<Longrightarrow> is_digit (digit_char n)"
  by (simp add: is_digit_def digit_char_def)

lemma digits_val_append: "digits_val acc (s @ [c]) = 10 * digits_val acc s + digit_val c"
  by (induction s arbitrary: acc) simp_all

lemma digits_val_app: "digits_val acc (s @ t) = digits_val (digits_val acc s) t"
  by (induction s arbitrary: acc) simp_all

lemma format_nat_val [simp]: "digits_val 0 (format_nat n) = n"
proof (induction n rule: format_nat.induct)
  case (1 n)
  then show ?case by (cases "n < 10") (simp_all add: format_nat.simps [of n] digits_val_append)
qed

lemma format_nat_digits: "all_digits (format_nat n)"
proof (induction n rule: format_nat.induct)
  case (1 n)
  then show ?case by (cases "n < 10") (auto simp: all_digits_def format_nat.simps [of n])
qed

lemma not_digit_sign: "\<not> is_digit (CHR ''-'')" "\<not> is_digit (CHR ''+'')"
  by (simp_all add: is_digit_def)

lemma atoi_digits: "all_digits s \<Longrightarrow> atoi s = atoi_signed False s"
  using not_digit_sign by (cases s) (auto simp: all_digits_def)

lemma atoi_signed_digits:
  "all_digits s \<Longrightarrow> digits_val 0 s \<le> 2 ^ 63 \<Longrightarrow> neg \<or> digits_val 0 s < 2 ^ 63 \<Longrightarrow>
   atoi_signed neg s = (if neg then - int (digits_val 0 s) else int (digits_val 0 s), None)"
  by (auto simp: atoi_signed_def all_digits_def scan_uint_digits Let_def)

lemma atoi_format_int: "int64_range i \<Longrightarrow> atoi (format_int i) = (i, None)"
  using atoi_digits [OF format_nat_digits [of "nat i"]] atoi_signed_digits [OF format_nat_digits]
  by (auto simp: format_int_def format_nat_digits int64_range_def nat_le_iff nat_less_iff)

lemma parse_format_uint: "parse_uint (format_uint u) = (u, None)"
proof -
  have "unat u < 2 ^ 64" using unsigned_less [of u] by simp
  then show ?thesis using format_nat_digits [of "unat u"]
    by (simp add: parse_uint_def format_uint_def all_digits_def scan_uint_digits)
qed

lemma atoi_signed_range: "int64_range (fst (atoi_signed b s))"
  by (auto simp: atoi_signed_def int64_range_def Let_def split: prod.splits)

lemma atoi_range [go_bounds]: "int64_range (fst (atoi s))"
  by (cases s) (auto simp: atoi_signed_range, simp add: int64_range_def)

end
