(* ===== verification/Go_Float.thy ===== *)
theory Go_Float
  imports Go_Strings Float64
begin

text \<open>
  Go's \<open>strconv.ParseFloat(s, 64)\<close>: decimal and hexadecimal literals with an optional sign, with
  underscores between digits, and the names of infinity and NaN in any case. The value is the
  number the text spells, rounded once.
\<close>

section \<open>Definitions\<close>

definition lower_byte :: "char \<Rightarrow> char" where
  "lower_byte c = (if 65 \<le> (of_char c :: nat) \<and> (of_char c :: nat) \<le> 90 then char_of ((of_char c :: nat) + 32) else c)"

definition is_hex_letter :: "char \<Rightarrow> bool" where
  "is_hex_letter c \<longleftrightarrow> lower_byte c \<in> {CHR ''a'', CHR ''b'', CHR ''c'', CHR ''d'', CHR ''e'', CHR ''f''}"

text \<open>
  The digits of a literal up to the first byte that does not belong to them: the mantissa read as
  an integer, the number of digits after the point, whether there was a digit, and the rest.
\<close>

fun scan_mantissa ::
  "bool \<Rightarrow> bool \<Rightarrow> bool \<Rightarrow> nat \<Rightarrow> nat \<Rightarrow> string \<Rightarrow> nat \<times> nat \<times> bool \<times> string" where
  "scan_mantissa hex sawdot sawdigits m scale [] = (m, scale, sawdigits, [])"
| "scan_mantissa hex sawdot sawdigits m scale (c # s) =
     (if c = CHR ''_'' then scan_mantissa hex sawdot sawdigits m scale s
      else if c = CHR ''.'' then
        (if sawdot then (m, scale, sawdigits, c # s) else scan_mantissa hex True sawdigits m scale s)
      else if is_digit c \<or> (hex \<and> is_hex_letter c) then
        scan_mantissa hex sawdot True
          ((if hex then 16 else 10) * m
             + (if is_digit c then digit_val c else of_char (lower_byte c) - 87))
          (if sawdot then Suc scale else scale) s
      else (m, scale, sawdigits, c # s))"

fun scan_exponent :: "nat \<Rightarrow> string \<Rightarrow> nat \<times> string" where
  "scan_exponent e [] = (e, [])"
| "scan_exponent e (c # s) =
     (if c = CHR ''_'' then scan_exponent e s
      else if is_digit c then scan_exponent (if e < 10000 then 10 * e + digit_val c else e) s
      else (e, c # s))"

text \<open>Underscores stand between two digits, or between a base prefix and a digit.\<close>

datatype underscore_state = AtStart | AfterDigit | AfterUnderscore | AfterOther

fun underscores_ok :: "bool \<Rightarrow> underscore_state \<Rightarrow> string \<Rightarrow> bool" where
  "underscores_ok hex st [] = (st \<noteq> AfterUnderscore)"
| "underscores_ok hex st (c # s) =
     (if is_digit c \<or> (hex \<and> is_hex_letter c) then underscores_ok hex AfterDigit s
      else if c = CHR ''_'' then st = AfterDigit \<and> underscores_ok hex AfterUnderscore s
      else st \<noteq> AfterUnderscore \<and> underscores_ok hex AfterOther s)"

definition strip_sign :: "string \<Rightarrow> bool \<times> string" where
  "strip_sign s =
     (case s of
        c # r \<Rightarrow> if c = CHR ''-'' then (True, r) else if c = CHR ''+'' then (False, r) else (False, s)
      | [] \<Rightarrow> (False, s))"

definition is_hex_literal :: "string \<Rightarrow> bool" where
  "is_hex_literal s \<longleftrightarrow> 2 < length s \<and> hd s = CHR ''0'' \<and> lower_byte (s ! 1) = CHR ''x''"

text \<open>A base prefix counts as a digit for the placing of underscores.\<close>

definition underscore_ok :: "string \<Rightarrow> bool" where
  "underscore_ok s =
     (if 2 \<le> length s \<and> hd s = CHR ''0'' \<and> lower_byte (s ! 1) \<in> {CHR ''b'', CHR ''o'', CHR ''x''}
      then underscores_ok (lower_byte (s ! 1) = CHR ''x'') AfterDigit (drop 2 s)
      else underscores_ok False AtStart s)"

text \<open>The exponent after the mantissa: \<open>None\<close> on a syntax error.\<close>

definition read_exponent :: "bool \<Rightarrow> string \<Rightarrow> (int \<times> string) option" where
  "read_exponent hex rest =
     (case rest of
        c # r \<Rightarrow>
          if lower_byte c = (if hex then CHR ''p'' else CHR ''e'') then
            (case strip_sign r of (neg, ds) \<Rightarrow>
               if ds = [] \<or> \<not> is_digit (hd ds) then None
               else (case scan_exponent 0 ds of (e, rest') \<Rightarrow> Some (if neg then - int e else int e, rest')))
          else if hex then None else Some (0, rest)
      | [] \<Rightarrow> if hex then None else Some (0, rest))"

definition pow_rat :: "rat \<Rightarrow> int \<Rightarrow> rat" where
  "pow_rat b e = (if 0 \<le> e then b ^ nat e else 1 / b ^ nat (- e))"

definition parse_float :: "string \<Rightarrow> f64 \<times> num_error option" where
  "parse_float s =
     (case strip_sign s of (neg, body) \<Rightarrow>
        if map lower_byte body = ''inf'' \<or> map lower_byte body = ''infinity'' then (Inf neg, None)
        else if map lower_byte s = ''nan'' then (NaN, None)
        else
          let hex = is_hex_literal body
          in case scan_mantissa hex False False 0 0 (if hex then drop 2 body else body) of
               (m, scale, sawdigits, rest) \<Rightarrow>
                 if \<not> sawdigits then (0, Some ErrSyntax)
                 else (case read_exponent hex rest of
                         None \<Rightarrow> (0, Some ErrSyntax)
                       | Some (e, rest') \<Rightarrow>
                           if rest' \<noteq> [] \<or> (CHR ''_'' \<in> set body \<and> \<not> underscore_ok body)
                           then (0, Some ErrSyntax)
                           else
                             let v = of_nat m * (if hex then pow_rat 2 (e - 4 * int scale) else pow_rat 10 (e - int scale));
                                 r = f64_round neg (if neg then - v else v)
                             in (r, if f64_finite r then None else Some ErrRange)))"

section \<open>Plain decimals\<close>

lemma digit_not_special: "is_digit c \<Longrightarrow> c \<noteq> CHR ''_'' \<and> c \<noteq> CHR ''.''"
  by (auto simp: is_digit_def)

lemma scan_mantissa_digits:
  "list_all is_digit ds \<Longrightarrow> scan_mantissa False dot saw m sc (ds @ rest) =
     scan_mantissa False dot (saw \<or> ds \<noteq> []) (digits_val m ds) (if dot then sc + length ds else sc) rest"
proof (induction ds arbitrary: saw m sc)
  case (Cons d ds)
  then show ?case using digit_not_special [of d] by simp
qed simp

lemma lower_byte_digit: "is_digit c \<Longrightarrow> lower_byte c = c"
  by (auto simp: lower_byte_def is_digit_def)

text \<open>Two runs of digits with a point between them spell their value divided by a power of ten.\<close>

lemma parse_float_decimal:
  assumes "list_all is_digit ds" "list_all is_digit fs" "ds \<noteq> []"
  shows "parse_float (ds @ ''.'' @ fs) = (let r = f64_round False (of_nat (digits_val 0 (ds @ fs)) / 10 ^ length fs)
    in (r, if f64_finite r then None else Some ErrRange))"
proof -
  obtain d r where d: "ds = d # r" "is_digit d" using assms(1,3) by (cases ds) auto
  have "d \<noteq> CHR ''-''" "d \<noteq> CHR ''+''" using d(2) by (auto simp: is_digit_def)
  then have s: "strip_sign (ds @ ''.'' @ fs) = (False, ds @ ''.'' @ fs)" by (simp add: strip_sign_def d(1))
  have "d \<noteq> CHR ''i''" "d \<noteq> CHR ''n''" using d(2) by (auto simp: is_digit_def)
  then have n: "map lower_byte (ds @ ''.'' @ fs) \<noteq> ''inf'' \<and> map lower_byte (ds @ ''.'' @ fs) \<noteq> ''infinity''
      \<and> map lower_byte (ds @ ''.'' @ fs) \<noteq> ''nan''"
    using lower_byte_digit [OF d(2)] by (simp add: d(1))
  have x: "\<not> is_hex_literal (ds @ ''.'' @ fs)"
  proof (cases r)
    case Nil
    then show ?thesis by (simp add: is_hex_literal_def d(1) lower_byte_def)
  next
    case (Cons a r')
    then have "is_digit a" using assms(1) d(1) by simp
    then have "lower_byte a \<noteq> CHR ''x''" using lower_byte_digit by (auto simp: is_digit_def)
    then show ?thesis by (simp add: is_hex_literal_def d(1) Cons)
  qed
  have u: "CHR ''_'' \<notin> set (ds @ ''.'' @ fs)"
    using assms(1,2) digit_not_special by (auto simp: list_all_iff)
  have dv: "digits_val (digits_val 0 ds) fs = digits_val 0 (ds @ fs)" by (simp add: digits_val_app)
  have m: "scan_mantissa False False False 0 0 (ds @ ''.'' @ fs) = (digits_val 0 (ds @ fs), length fs, True, [])"
    using scan_mantissa_digits [OF assms(1), of False False 0 0 "''.'' @ fs"]
      scan_mantissa_digits [OF assms(2), of True True "digits_val 0 ds" 0 "[]"] assms(3) dv by simp
  show ?thesis using s n x u m
    by (simp add: parse_float_def read_exponent_def pow_rat_def divide_inverse Let_def)
qed

end
