(* ===== verification/Float_Bounds.thy ===== *)
theory Float_Bounds
  imports Go_Time
begin

text \<open>
  Magnitude bounds of floating-point expressions: \<open>f64_within k a\<close> when \<open>a\<close> is a finite number
  of magnitude at most \<open>2 ^ k\<close>. Rounding keeps such a bound, so the bounds of operands bound the
  result of an operation, and a result so bounded is neither infinite nor a NaN.
\<close>

definition f64_within :: "int \<Rightarrow> f64 \<Rightarrow> bool" where
  "f64_within k a \<longleftrightarrow> f64_finite a \<and> \<bar>f64_val a\<bar> \<le> 2 powi k"

lemma within_finite [dest]: "f64_within k a \<Longrightarrow> f64_finite a"
  by (simp add: f64_within_def)

lemma powi_pos [simp]: "(0 :: rat) < 2 powi k"
  by (simp add: power_int_def)

lemma powi_mono: "j \<le> k \<Longrightarrow> (2 :: rat) powi j \<le> 2 powi k"
  by (rule power_int_increasing) simp_all

lemma within_mono: "f64_within j a \<Longrightarrow> j \<le> k \<Longrightarrow> f64_within k a"
  unfolding f64_within_def using powi_mono [of j k] by auto

lemma within_zero [simp]: "f64_within k (Zero s)" "f64_within k 0"
  by (simp_all add: f64_within_def zero_f64_def less_imp_le)

lemma within_Fin: "f64_within k (Fin r) \<longleftrightarrow> \<bar>r\<bar> \<le> 2 powi k"
  by (simp add: f64_within_def)

lemma flog2_le_powi: "0 < x \<Longrightarrow> x \<le> 2 powi k \<Longrightarrow> flog2 x \<le> k"
proof (rule ccontr)
  assume x: "0 < x" "x \<le> 2 powi k" "\<not> flog2 x \<le> k"
  then have "2 powi (k + 1) \<le> x" using flog2_le_iff [OF x(1), of "k + 1"] by simp
  moreover have "(2 :: rat) powi k < 2 powi (k + 1)" by (simp add: power_int_add)
  ultimately show False using x(2) by simp
qed

lemma within_round:
  assumes "\<bar>x\<bar> \<le> 2 powi k" "-1000 \<le> k" "k \<le> 1000" shows "f64_within k (f64_round s x)"
proof (cases "x = 0")
  case False
  define y where "y = \<bar>x\<bar>"
  have y: "0 < y" "y \<le> 2 powi k" using False assms(1) by (simp_all add: y_def)
  have "f64_exp y \<le> k" using flog2_le_powi [OF y] assms(2) by (simp add: f64_exp_def)
  then have m: "f64_mag y \<le> 2 powi k" by (rule f64_mag_le_pow [OF y])
  also have "(2 :: rat) powi k < 2 ^ 1024"
    using powi_mono [of k 1000] assms(3) by (rule_tac order_le_less_trans [of _ "2 powi 1000"]) simp_all
  finally have "f64_mag y < 2 ^ 1024" .
  then show ?thesis using m f64_mag_nonneg [of y] y
    by (auto simp: f64_round_def Let_def y_def f64_within_def False less_imp_le)
qed (simp add: f64_round_def)

lemma within_of_int: "\<bar>of_int n\<bar> \<le> (2 :: rat) powi k \<Longrightarrow> -1000 \<le> k \<Longrightarrow> k \<le> 1000 \<Longrightarrow> f64_within k (f64_of_int n)"
  unfolding f64_of_int_def by (rule within_round)

lemma within_plus:
  assumes "f64_within k a" "f64_within k b" "-1000 \<le> k" "k < 1000" shows "f64_within (k + 1) (a + b)"
proof -
  have s: "\<bar>f64_val a + f64_val b\<bar> \<le> 2 powi (k + 1)"
    using assms(1,2) by (auto simp: f64_within_def power_int_add)
  have "f64_within (k + 1) (f64_round False (f64_val a + f64_val b))"
    using s assms(3,4) by (intro within_round) simp_all
  then show ?thesis using assms(1,2)
    by (cases a; cases b) (auto simp: f64_ops f64_within_def less_imp_le)
qed

lemma within_uminus [simp]: "f64_within k (f64_uminus a) = f64_within k a"
  by (cases a) (auto simp: f64_within_def)

lemma within_minus:
  assumes "f64_within k a" "f64_within k b" "-1000 \<le> k" "k < 1000" shows "f64_within (k + 1) (a - b)"
  using within_plus [of k a "f64_uminus b"] assms by (simp add: minus_f64_def plus_f64_def)

lemma within_times:
  assumes "f64_within j a" "f64_within k b" "-1000 \<le> j + k" "j + k \<le> 1000" shows "f64_within (j + k) (a * b)"
proof -
  have "\<bar>f64_val a * f64_val b\<bar> \<le> 2 powi j * 2 powi k"
    unfolding abs_mult using assms(1,2) by (intro mult_mono) (auto simp: f64_within_def less_imp_le)
  then have "f64_within (j + k) (f64_round s (f64_val a * f64_val b))" for s
    using assms(3,4) by (intro within_round) (simp_all add: power_int_add)
  then show ?thesis using assms(1,2)
    by (cases a; cases b) (auto simp: f64_ops f64_within_def less_imp_le)
qed

lemma within_divide:
  assumes "f64_within j a" "b = Fin r" "2 powi k \<le> r" "-1000 \<le> j - k" "j - k \<le> 1000"
  shows "f64_within (j - k) (a / b)"
proof -
  have r: "0 < r" using assms(3) powi_pos [of k] by linarith
  have "\<bar>f64_val a / r\<bar> \<le> 2 powi j / 2 powi k"
    unfolding abs_divide using assms(1,3) r by (intro frac_le) (auto simp: f64_within_def)
  then have "f64_within (j - k) (f64_round s (f64_val a / r))" for s
    using assms(4,5) by (intro within_round) (simp_all add: power_int_diff)
  then show ?thesis using assms(1) r unfolding assms(2)
    by (cases a) (auto simp: f64_ops f64_within_def less_imp_le)
qed

text \<open>The elapsed seconds that divide a counter are at least \<open>2 ^ -30\<close>.\<close>

lemma guarded_divide:
  assumes "f64_within j a" "d \<le> max_duration" "-1030 \<le> j" "j \<le> 970"
  shows "f64_within (j + 30) (a / (if dur_to_seconds d \<le> 0 then 1 else dur_to_seconds d))"
proof -
  obtain r where r: "(if dur_to_seconds d \<le> 0 then 1 else dur_to_seconds d) = Fin r" "1 / 2 ^ 30 \<le> r"
    using guarded_seconds [OF assms(2)] by metis
  have "(2 :: rat) powi -30 = 1 / 2 ^ 30" by (simp add: power_int_def field_simps)
  then show ?thesis using within_divide [OF assms(1) r(1), of "-30"] r(2) assms(3,4) by simp
qed

text \<open>A fraction with a power of two below it and few enough digits is its own rounding.\<close>

lemma f64_round_dyadic:
  assumes "0 < x" "x = of_int n * 2 powi k" "x \<le> 2 powi (k + 52)" "-1000 \<le> k" "k \<le> 900"
  shows "f64_round s x = Fin x"
proof -
  have "flog2 x \<le> k + 52" by (rule flog2_le_powi [OF assms(1,3)])
  then have "f64_exp x \<le> k" using assms(4) by (simp add: f64_exp_def)
  then have m: "f64_mag x = x" by (rule f64_mag_scaled_exact [OF assms(1,2)])
  have "x < 2 ^ 1024"
    using assms(3) powi_mono [of "k + 52" 1000] assms(5)
    by (rule_tac order_le_less_trans [of _ "2 powi 1000"]) simp_all
  then show ?thesis using m assms(1) by (simp add: f64_round_def Let_def)
qed

text \<open>Rounding takes integers to integers.\<close>

lemma f64_mag_int: assumes "0 < n" shows "\<exists>m. f64_mag (of_int n) = of_int m"
proof (cases "n \<le> 2 ^ 53")
  case True
  then show ?thesis using f64_mag_of_int [OF assms] by blast
next
  case False
  then have "52 \<le> flog2 (of_int n)" using assms flog2_le_iff [of "of_int n" 52] by simp
  then have "0 \<le> f64_exp (of_int n)" by (simp add: f64_exp_def)
  then have "f64_mag (of_int n) = of_int (rne (of_int n / 2 powi f64_exp (of_int n)) * 2 ^ nat (f64_exp (of_int n)))"
    by (simp add: f64_mag_def power_int_def)
  then show ?thesis by blast
qed

lemma f64_round_int: "\<exists>m. f64_val (f64_round s (of_int n)) = of_int m"
proof (cases "n = 0")
  case False
  then obtain m where m: "f64_mag \<bar>of_int n\<bar> = of_int m" using f64_mag_int [of "\<bar>n\<bar>"] by auto
  then show ?thesis using False
    by (auto simp: f64_round_def Let_def intro: exI [of _ 0] exI [of _ m] exI [of _ "- m"])
qed (auto simp: f64_round_def intro: exI [of _ 0])

text \<open>Two counters read as floating-point numbers differ by nothing or by at least one.\<close>

lemma f64_counter_diff:
  assumes "0 < f64_of_int m - f64_of_int n" "\<bar>of_int m\<bar> \<le> (2::rat) powi 64" "\<bar>of_int n\<bar> \<le> (2::rat) powi 64"
  obtains r where "f64_of_int m - f64_of_int n = Fin r" "1 \<le> r"
proof -
  let ?a = "f64_of_int m" and ?b = "f64_of_int n"
  have w: "f64_within 64 ?a" "f64_within 64 ?b" using assms(2,3) by (auto intro: within_of_int)
  have f: "f64_finite (?a - ?b)" using within_finite [OF within_minus [OF w]] by simp
  obtain i j where ij: "f64_val ?a = of_int i" "f64_val ?b = of_int j"
    using f64_round_int unfolding f64_of_int_def by metis
  have "f64_val (?a - ?b) = of_int (i - j) \<or> (\<exists>s. ?a - ?b = f64_round s (of_int (i - j)))"
    using within_finite [OF w(1)] within_finite [OF w(2)] ij
    by (cases ?a; cases ?b) (auto simp: f64_ops)
  then obtain k where k: "f64_val (?a - ?b) = of_int k"
    using f64_round_int by metis
  then show ?thesis using f assms(1) by (cases "?a - ?b") (auto simp: f64_ops intro: that)
qed

end
