(* ===== verification/Cpu_Collector.thy ===== *)
theory Cpu_Collector
  imports Models Go_Float Float_Bounds Config_Model
begin

text \<open>
  The CPU collector of \<open>internal/collectors/cpu.go\<close>: the parsing of \<open>lscpu\<close>'s output, the assignment
  of sensor temperatures to cores, and the collection, which takes the usage percentages from a
  cache or samples them. gopsutil and \<open>lscpu\<close> answer through \<open>cpu_env\<close>.
\<close>

section \<open>Parsing\<close>

text \<open>
  The submatch of a pattern \<open>pre(\d+)post\<close>: the digits at its leftmost match. \<open>post\<close> does not
  start with a digit, so the run of digits is the longest one.
\<close>

definition group_at :: "string \<Rightarrow> string \<Rightarrow> string \<Rightarrow> string option" where
  "group_at pre post s =
     (if has_prefix pre s then
        let rest = drop (length pre) s; ds = takeWhile is_digit rest
        in if ds \<noteq> [] \<and> has_prefix post (dropWhile is_digit rest) then Some ds else None
      else None)"

fun find_group :: "string \<Rightarrow> string \<Rightarrow> string \<Rightarrow> string option" where
  "find_group pre post [] = group_at pre post []"
| "find_group pre post (c # s) =
     (case group_at pre post (c # s) of Some g \<Rightarrow> Some g | None \<Rightarrow> find_group pre post s)"

definition parseSize :: "string \<Rightarrow> int64" where
  "parseSize sizeStr =
     (case find_group [] [] sizeStr of
        None \<Rightarrow> 0
      | Some digits \<Rightarrow>
          let size = fst (atoi digits)
          in if str_contains ''K'' sizeStr then s64 (size * 1024)
             else if str_contains ''M'' sizeStr then s64 (s64 (size * 1024) * 1024)
             else size)"

text \<open>The submatch of \<open>@ ([0-9]+\.[0-9]+)GHz\<close>.\<close>

definition ghz_at :: "string \<Rightarrow> string option" where
  "ghz_at s =
     (if has_prefix ''@ '' s then
        let rest = drop 2 s; ds = takeWhile is_digit rest; rest1 = dropWhile is_digit rest
        in if ds \<noteq> [] \<and> has_prefix ''.'' rest1 then
             let fs = takeWhile is_digit (drop 1 rest1); rest2 = dropWhile is_digit (drop 1 rest1)
             in if fs \<noteq> [] \<and> has_prefix ''GHz'' rest2 then Some (ds @ ''.'' @ fs) else None
           else None
      else None)"

fun find_ghz :: "string \<Rightarrow> string option" where
  "find_ghz [] = None"
| "find_ghz (c # s) = (case ghz_at (c # s) of Some g \<Rightarrow> Some g | None \<Rightarrow> find_ghz s)"

definition getCPUBaseClockSpeed :: "string \<Rightarrow> f64" where
  "getCPUBaseClockSpeed modelName =
     (case find_ghz modelName of
        None \<Rightarrow> 0
      | Some m \<Rightarrow> (case parse_float m of (baseSpeed, None) \<Rightarrow> baseSpeed * Fin 1000 | (_, Some err) \<Rightarrow> 0))"

text \<open>The values of a \<open>map[string]interface{}\<close>.\<close>

datatype any = AnyInt int64 | AnyFloat f64 | AnyStr string

definition getIntValueSafely :: "(string \<rightharpoonup> any) \<Rightarrow> string \<Rightarrow> int64" where
  "getIntValueSafely data key = (case data key of Some (AnyInt intValue) \<Rightarrow> intValue | _ \<Rightarrow> 0)"

definition getFloatValueSafely :: "(string \<rightharpoonup> any) \<Rightarrow> string \<Rightarrow> f64" where
  "getFloatValueSafely data key = (case data key of Some (AnyFloat floatValue) \<Rightarrow> floatValue | _ \<Rightarrow> 0)"

definition lscpu_line :: "(string \<rightharpoonup> any) \<Rightarrow> string \<Rightarrow> (string \<rightharpoonup> any)" where
  "lscpu_line info line =
     (case split_on (CHR '':'') line of
        [k, v] \<Rightarrow>
          let key = trim_space k; value = trim_space v
          in if str_contains ''Model name'' key then info(''model_name'' \<mapsto> AnyStr value)
             else if str_contains ''L1d cache'' key then info(''l1_cache'' \<mapsto> AnyInt (parseSize value))
             else if str_contains ''L2 cache'' key then info(''l2_cache'' \<mapsto> AnyInt (parseSize value))
             else if str_contains ''L3 cache'' key then info(''l3_cache'' \<mapsto> AnyInt (parseSize value))
             else if str_contains ''CPU min MHz'' key then info(''min_clock_speed'' \<mapsto> AnyFloat (fst (parse_float value)))
             else if str_contains ''CPU max MHz'' key then info(''max_clock_speed'' \<mapsto> AnyFloat (fst (parse_float value)))
             else info
      | _ \<Rightarrow> info)"

definition parse_lscpu :: "string \<Rightarrow> (string \<rightharpoonup> any)" where
  "parse_lscpu output =
     (let info = foldl lscpu_line Map.empty (split_on (char_of (10 :: nat)) output)
      in case info ''model_name'' of
           Some (AnyStr model) \<Rightarrow> info(''base_clock_speed'' \<mapsto> AnyFloat (getCPUBaseClockSpeed model))
         | _ \<Rightarrow> info(''base_clock_speed'' \<mapsto> AnyInt 0, ''model_name'' \<mapsto> AnyStr []))"

section \<open>Temperatures\<close>

definition set_temperature :: "int \<Rightarrow> f64 \<Rightarrow> CPUCore list \<Rightarrow> CPUCore list outcome" where
  "set_temperature i t cores = obind (go_index cores i) (\<lambda>core. go_store cores i (core\<lparr>cc_Temperature := t\<rparr>))"

text \<open>
  One sensor: it is a core of that number, a core counted from the second sensor on, or the package;
  a sensor that was assigned to a core is not looked at again.
\<close>

definition sensor_core :: "int \<Rightarrow> string \<Rightarrow> int option" where
  "sensor_core n key =
     (case find_group ''core_'' [] key of
        None \<Rightarrow> None
      | Some ds \<Rightarrow> (case atoi ds of (coreID, None) \<Rightarrow> if coreID < n then Some coreID else None | (_, Some err) \<Rightarrow> None))"

definition sensor_input :: "int \<Rightarrow> string \<Rightarrow> int option" where
  "sensor_input n key =
     (if has_prefix ''temp'' key \<and> has_suffix ''_input'' key then
        (case find_group ''temp'' ''_input'' key of
           None \<Rightarrow> None
         | Some ds \<Rightarrow>
             (case atoi ds of
                (coreID, None) \<Rightarrow> let coreIndex = coreID - 2
                  in if 0 \<le> coreIndex \<and> coreIndex < n then Some coreIndex else None
              | (_, Some err) \<Rightarrow> None))
      else None)"

definition apply_sensor :: "bool \<Rightarrow> string \<times> f64 \<Rightarrow> CPUCore list \<times> f64 \<Rightarrow> (CPUCore list \<times> f64) outcome" where
  "apply_sensor isHyperthreading sensor st =
     (case (sensor, st) of ((sensorKey, t), (cores, packageTemp)) \<Rightarrow>
        let key = to_lower sensorKey
        in case sensor_core (int (length cores)) key of
             Some coreID \<Rightarrow>
               if isHyperthreading then
                 obind (set_temperature (coreID * 2) t cores)
                   (\<lambda>cores'. obind (set_temperature (coreID * 2 + 1) t cores') (\<lambda>cores''. Return (cores'', packageTemp)))
               else obind (set_temperature coreID t cores) (\<lambda>cores'. Return (cores', packageTemp))
           | None \<Rightarrow>
               (case sensor_input (int (length cores)) key of
                  Some coreIndex \<Rightarrow> obind (set_temperature coreIndex t cores) (\<lambda>cores'. Return (cores', packageTemp))
                | None \<Rightarrow>
                    Return (cores,
                      if str_contains ''package'' key \<or> has_prefix ''cpu_temp'' key \<or> key = ''temp1_input''
                      then t else packageTemp)))"

fun apply_sensors :: "bool \<Rightarrow> (string \<times> f64) list \<Rightarrow> CPUCore list \<times> f64 \<Rightarrow> (CPUCore list \<times> f64) outcome" where
  "apply_sensors ht [] st = Return st"
| "apply_sensors ht (sensor # sensors) st = obind (apply_sensor ht sensor st) (apply_sensors ht sensors)"

fun fallback_temperature :: "(string \<times> f64) list \<Rightarrow> f64 \<Rightarrow> f64" where
  "fallback_temperature [] packageTemp = packageTemp"
| "fallback_temperature ((key, t) # sensors) packageTemp =
     (if 0 < t \<and> str_contains ''input'' (to_lower key) then t else fallback_temperature sensors packageTemp)"

definition cpu_temperatures ::
  "go_error + (string \<times> f64) list \<Rightarrow> bool \<Rightarrow> CPUCore list \<Rightarrow> (CPUCore list \<times> f64) outcome" where
  "cpu_temperatures temps isHyperthreading cores =
     (case temps of
        Inl err \<Rightarrow> Return (cores, 0)
      | Inr sensors \<Rightarrow>
          obind (apply_sensors isHyperthreading sensors (cores, 0))
            (\<lambda>(cores', packageTemp). Return (cores',
               if f64_eq packageTemp 0 then fallback_temperature sensors packageTemp else packageTemp)))"

section \<open>Collection\<close>

record CpuInfoStat =
  cpi_ModelName :: string
  cpi_VendorID :: string
  cpi_CacheSize :: int
  cpi_Mhz :: f64
  cpi_Flags :: "string list"

text \<open>\<open>cu_percent d perCore\<close> is the answer of \<open>PercentWithContext\<close> for a sampling of length \<open>d\<close>.\<close>

record cpu_env =
  cu_info :: "go_error + CpuInfoStat list"
  cu_logical_counts :: "go_error + int64"
  cu_physical_counts :: "go_error + int64"
  cu_check_time :: instant
  cu_percent :: "duration \<Rightarrow> bool \<Rightarrow> go_error + f64 list"
  cu_store_time :: instant
  cu_temperatures :: "go_error + (string \<times> f64) list"
  cu_lscpu :: "go_error + string"

record CPUCollector =
  ck_cachedPercent :: "f64 list"
  ck_cachedPercents :: "f64 list"
  ck_cachedTime :: instant
  ck_cacheDuration :: duration
  ck_samplingDuration :: duration
  ck_updateFrequency :: duration
  ck_directSampling :: duration
  ck_backgroundRunning :: bool

definition cpu_store :: "instant \<Rightarrow> f64 list \<Rightarrow> f64 list \<Rightarrow> CPUCollector \<Rightarrow> CPUCollector" where
  "cpu_store t percent percents c =
     c\<lparr>ck_cachedPercent := percent, ck_cachedPercents := percents, ck_cachedTime := t\<rparr>"

definition cpu_isCacheValid :: "instant \<Rightarrow> CPUCollector \<Rightarrow> bool" where
  "cpu_isCacheValid now c \<longleftrightarrow> time_sub now (ck_cachedTime c) < ck_cacheDuration c
     \<and> 0 < length (ck_cachedPercent c) \<and> 0 < length (ck_cachedPercents c)"

definition cpu_samplingTime :: "CPUCollector \<Rightarrow> duration" where
  "cpu_samplingTime c = (if ck_directSampling c < dur_millis 500 then dur_millis 500 else ck_directSampling c)"

text \<open>The percentages: the cached ones while they are valid, new ones otherwise.\<close>

definition cpu_percents ::
  "cpu_env \<Rightarrow> CPUCollector \<Rightarrow> (go_error + f64 list \<times> f64 list) \<times> CPUCollector" where
  "cpu_percents env c =
     (if cpu_isCacheValid (cu_check_time env) c then (Inr (ck_cachedPercent c, ck_cachedPercents c), c)
      else (case cu_percent env (cpu_samplingTime c) False of
              Inl totalErr \<Rightarrow> (Inl totalErr, c)
            | Inr percent \<Rightarrow>
                (case cu_percent env (cpu_samplingTime c) True of
                   Inl coresErr \<Rightarrow> (Inl coresErr, c)
                 | Inr percents \<Rightarrow> (Inr (percent, percents), cpu_store (cu_store_time env) percent percents c))))"

definition cpu_cores :: "f64 list \<Rightarrow> CPUCore list" where
  "cpu_cores percents = map2 (\<lambda>i p. zero_CPUCore\<lparr>cc_ID := int i, cc_Usage := p\<rparr>) [0..<length percents] percents"

definition getCPUDetailedInfo :: "cpu_env \<Rightarrow> (string \<rightharpoonup> any)" where
  "getCPUDetailedInfo env = (case cu_lscpu env of Inl err \<Rightarrow> Map.empty | Inr output \<Rightarrow> parse_lscpu output)"

definition cpu_metrics ::
  "CpuInfoStat \<Rightarrow> int64 \<Rightarrow> int64 \<Rightarrow> f64 \<Rightarrow> f64 \<Rightarrow> CPUCore list \<Rightarrow> (string \<rightharpoonup> any) \<Rightarrow> CPUMetrics" where
  "cpu_metrics info physicalCounts logicalCounts usage packageTemp cores detailedInfo =
     \<lparr>cm_Architecture = cpi_ModelName info,
      cm_Model = cpi_ModelName info,
      cm_Vendor = cpi_VendorID info,
      cm_CacheSize = cpi_CacheSize info,
      cm_ClockSpeed = cpi_Mhz info,
      cm_TotalCores = physicalCounts,
      cm_TotalLogicalCores = logicalCounts,
      cm_Usage = usage,
      cm_Temperature = packageTemp,
      cm_HasVMX = (''vmx'' \<in> set (cpi_Flags info)),
      cm_HasSVM = (''svm'' \<in> set (cpi_Flags info)),
      cm_HasAVX = (''avx'' \<in> set (cpi_Flags info)),
      cm_HasAVX2 = (''avx2'' \<in> set (cpi_Flags info)),
      cm_HasNEON = (''neon'' \<in> set (cpi_Flags info)),
      cm_HasSVE = (''sve'' \<in> set (cpi_Flags info)),
      cm_IsHyperthreading = (logicalCounts \<noteq> physicalCounts),
      cm_L1CacheSize = getIntValueSafely detailedInfo ''l1_cache'',
      cm_L2CacheSize = getIntValueSafely detailedInfo ''l2_cache'',
      cm_L3CacheSize = getIntValueSafely detailedInfo ''l3_cache'',
      cm_BaseClockSpeed = getFloatValueSafely detailedInfo ''base_clock_speed'',
      cm_MaxClockSpeed = getFloatValueSafely detailedInfo ''max_clock_speed'',
      cm_MinClockSpeed = getFloatValueSafely detailedInfo ''min_clock_speed'',
      cm_Cores = Some cores\<rparr>"

definition cpu_Collect ::
  "cpu_env \<Rightarrow> CPUCollector \<Rightarrow> ((go_error + CPUMetrics) \<times> CPUCollector) outcome" where
  "cpu_Collect env c0 =
     (let c = (if ck_directSampling c0 \<le> 0 then c0\<lparr>ck_directSampling := dur_millis 750\<rparr> else c0)
      in case cu_info env of
           Inl err \<Rightarrow> Return (Inl err, c)
         | Inr info \<Rightarrow>
             (case cu_logical_counts env of
                Inl err \<Rightarrow> Return (Inl err, c)
              | Inr logicalCounts \<Rightarrow>
                  (case cu_physical_counts env of
                     Inl err \<Rightarrow> Return (Inl err, c)
                   | Inr physicalCounts \<Rightarrow>
                       (case cpu_percents env c of
                          (Inl err, c') \<Rightarrow> Return (Inl err, c')
                        | (Inr (percent, percents), c') \<Rightarrow>
                            obind (cpu_temperatures (cu_temperatures env) (logicalCounts \<noteq> physicalCounts) (cpu_cores percents))
                              (\<lambda>(cores, packageTemp).
                                 obind (go_index info 0) (\<lambda>info0.
                                   obind (go_index percent 0) (\<lambda>usage.
                                     Return (Inr (cpu_metrics info0 physicalCounts logicalCounts usage packageTemp
                                               cores (getCPUDetailedInfo env)), c'))))))))"

text \<open>One turn of the background loop; it then sleeps for the update frequency.\<close>

definition cpu_background_turn :: "cpu_env \<Rightarrow> CPUCollector \<Rightarrow> CPUCollector" where
  "cpu_background_turn env c =
     (case cu_percent env (ck_samplingDuration c) False of
        Inl err \<Rightarrow> c
      | Inr percent \<Rightarrow>
          (case cu_percent env (ck_samplingDuration c) True of
             Inl err \<Rightarrow> c
           | Inr percents \<Rightarrow> cpu_store (cu_store_time env) percent percents c))"

definition cpu_startBackgroundCollection :: "CPUCollector \<Rightarrow> CPUCollector \<times> bool" where
  "cpu_startBackgroundCollection c =
     (if ck_backgroundRunning c then (c, False) else (c\<lparr>ck_backgroundRunning := True\<rparr>, True))"

definition NewCPUCollector :: "CPUCollectorSettings \<Rightarrow> CPUCollector \<times> bool" where
  "NewCPUCollector cfg = cpu_startBackgroundCollection
     \<lparr>ck_cachedPercent = [], ck_cachedPercents = [], ck_cachedTime = zero_time,
      ck_cacheDuration = dur_seconds (cpu_CacheDurationSeconds cfg),
      ck_samplingDuration = dur_millis (cpu_BackgroundSamplingMillis cfg),
      ck_updateFrequency = dur_seconds (cpu_BackgroundFrequencySeconds cfg),
      ck_directSampling = dur_millis (cpu_DirectSamplingMillis cfg),
      ck_backgroundRunning = False\<rparr>"

section \<open>Lemmas\<close>

lemma find_group_digits:
  assumes "list_all is_digit ds" "ds \<noteq> []" "rest = [] \<or> \<not> is_digit (hd rest)"
  shows "find_group [] [] (ds @ rest) = Some ds"
proof -
  have "\<forall>x \<in> set ds. is_digit x" using assms(1) by (simp add: list_all_iff)
  then have "takeWhile is_digit (ds @ rest) = ds" using assms(3) by (rule takeWhile_run)
  then have "group_at [] [] (ds @ rest) = Some ds"
    using assms(2) by (simp add: group_at_def has_prefix_def)
  then show ?thesis using assms(2) by (cases "ds @ rest") auto
qed

lemma atoi_all_digits:
  "all_digits ds \<Longrightarrow> digits_val 0 ds < 2 ^ 63 \<Longrightarrow> atoi ds = (int (digits_val 0 ds), None)"
  by (simp add: atoi_digits atoi_signed_digits)

lemma str_contains_digits:
  assumes "list_all is_digit ds" "\<not> is_digit c" shows "str_contains [c] (ds @ rest) = str_contains [c] rest"
  using assms by (induction ds) (auto simp: has_prefix_def)

lemma set_temperature_eq:
  "set_temperature i t cores =
    (if 0 \<le> i \<and> i < int (length cores) then Return (cores[nat i := (cores ! nat i)\<lparr>cc_Temperature := t\<rparr>])
     else Panic IndexOutOfRange)"
  by (simp add: set_temperature_def go_index_def go_store_def)

text \<open>Assigning temperatures changes neither the number nor the numbers and usages of the cores.\<close>

definition core_usages :: "CPUCore list \<Rightarrow> (int64 \<times> f64) list" where
  "core_usages cores = map (\<lambda>core. (cc_ID core, cc_Usage core)) cores"

lemma core_usages_update [simp]:
  "core_usages (cores[i := (cores ! i)\<lparr>cc_Temperature := t\<rparr>]) = core_usages cores"
  by (cases "i < length cores") (simp_all add: core_usages_def map_update list_update_same_conv list_update_beyond not_less)

lemma atoi_digits_nonneg: "list_all is_digit ds \<Longrightarrow> 0 \<le> fst (atoi ds)"
proof (cases ds)
  case (Cons c s)
  assume "list_all is_digit ds"
  then have "c \<noteq> CHR ''-''" using Cons not_digit_sign by auto
  then have "atoi ds = atoi_signed False ds \<or> atoi ds = atoi_signed False s" using Cons by auto
  then show ?thesis by (auto simp: atoi_signed_def Let_def split: prod.splits)
qed simp

lemma find_group_is_digits: "find_group pre post s = Some ds \<Longrightarrow> list_all is_digit ds"
proof (induction s)
  case Nil
  then show ?case by (auto simp: group_at_def Let_def list_all_iff split: if_splits dest: set_takeWhileD)
next
  case (Cons c s)
  have "group_at pre post (c # s) = Some g \<Longrightarrow> list_all is_digit g" for g
    by (auto simp: group_at_def Let_def list_all_iff split: if_splits dest: set_takeWhileD)
  with Cons show ?case by (auto split: option.splits)
qed

lemma sensor_core_range: "sensor_core n key = Some i \<Longrightarrow> 0 \<le> i \<and> i < n"
  using atoi_digits_nonneg [OF find_group_is_digits, of "''core_''" "[]" key]
  by (auto simp: sensor_core_def split: option.splits prod.splits if_splits)

lemma sensor_input_range: "sensor_input n key = Some i \<Longrightarrow> 0 \<le> i \<and> i < n"
  by (auto simp: sensor_input_def Let_def split: option.splits prod.splits if_splits)

text \<open>The sensors that write past the last core.\<close>

definition sensor_overruns :: "bool \<Rightarrow> int \<Rightarrow> string \<times> f64 \<Rightarrow> bool" where
  "sensor_overruns ht n sensor \<longleftrightarrow>
     ht \<and> (case sensor_core n (to_lower (fst sensor)) of None \<Rightarrow> False | Some i \<Rightarrow> n \<le> 2 * i + 1)"

lemma apply_sensor_cases:
  "if sensor_overruns ht (int (length cores)) sensor
   then apply_sensor ht sensor (cores, pt) = Panic IndexOutOfRange
   else \<exists>cores' pt'. apply_sensor ht sensor (cores, pt) = Return (cores', pt')
     \<and> core_usages cores' = core_usages cores \<and> length cores' = length cores"
proof (cases "sensor_core (int (length cores)) (to_lower (fst sensor))")
  case None
  show ?thesis
    using None sensor_input_range [of "int (length cores)" "to_lower (fst sensor)"]
    by (cases sensor; cases "sensor_input (int (length cores)) (to_lower (fst sensor))")
       (auto simp: sensor_overruns_def apply_sensor_def Let_def set_temperature_eq)
next
  case (Some i)
  note r = sensor_core_range [OF this]
  show ?thesis
  proof (cases "ht \<and> int (length cores) \<le> 2 * i + 1")
    case True
    then show ?thesis using Some r
      by (cases sensor) (auto simp: sensor_overruns_def apply_sensor_def Let_def set_temperature_eq)
  next
    case False
    then have "apply_sensor ht sensor (cores, pt) =
        (if ht then Return (let cs = cores[nat (i * 2) := (cores ! nat (i * 2))\<lparr>cc_Temperature := snd sensor\<rparr>]
            in cs[nat (i * 2 + 1) := (cs ! nat (i * 2 + 1))\<lparr>cc_Temperature := snd sensor\<rparr>], pt)
         else Return (cores[nat i := (cores ! nat i)\<lparr>cc_Temperature := snd sensor\<rparr>], pt))"
      using Some r by (cases sensor) (auto simp: apply_sensor_def Let_def set_temperature_eq)
    then show ?thesis using False Some by (simp add: sensor_overruns_def Let_def)
  qed
qed

lemma apply_sensors_cases:
  "if list_ex (sensor_overruns ht (int (length cores))) sensors
   then apply_sensors ht sensors (cores, pt) = Panic IndexOutOfRange
   else \<exists>cores' pt'. apply_sensors ht sensors (cores, pt) = Return (cores', pt')
     \<and> core_usages cores' = core_usages cores"
proof (induction sensors arbitrary: cores pt)
  case (Cons sensor sensors)
  show ?case
  proof (cases "sensor_overruns ht (int (length cores)) sensor")
    case True
    then show ?thesis using apply_sensor_cases [of ht cores sensor pt] by simp
  next
    case False
    then obtain cores' pt' where a: "apply_sensor ht sensor (cores, pt) = Return (cores', pt')"
      "core_usages cores' = core_usages cores" "length cores' = length cores"
      using apply_sensor_cases [of ht cores sensor pt] by auto
    with Cons.IH [of cores' pt'] False show ?thesis by (auto split: if_splits)
  qed
qed simp

lemma core_usages_cores: "core_usages (cpu_cores percents) = zip (map int [0..<length percents]) percents"
  by (simp add: core_usages_def cpu_cores_def zero_CPUCore_def map_zip_map zip_map1 split_def comp_def)

lemma cpu_temperatures_cases:
  "if (\<exists>sensors. temps = Inr sensors \<and> list_ex (sensor_overruns ht (int (length cores))) sensors)
   then cpu_temperatures temps ht cores = Panic IndexOutOfRange
   else \<exists>cores' pt. cpu_temperatures temps ht cores = Return (cores', pt) \<and> core_usages cores' = core_usages cores"
proof (cases temps)
  case (Inr sensors)
  then show ?thesis using apply_sensors_cases [of ht cores sensors 0]
    by (auto simp: cpu_temperatures_def split: if_splits)
qed (simp add: cpu_temperatures_def)

lemma find_ghz_skip: "CHR ''@'' \<notin> set pre \<Longrightarrow> find_ghz (pre @ s) = find_ghz s"
  by (induction pre) (auto simp: ghz_at_def has_prefix_def)

lemma find_ghz_at:
  assumes "list_all is_digit ds" "ds \<noteq> []" "list_all is_digit fs" "fs \<noteq> []"
  shows "find_ghz (''@ '' @ ds @ ''.'' @ fs @ ''GHz'' @ rest) = Some (ds @ ''.'' @ fs)"
proof -
  have nd: "\<not> is_digit (CHR ''.'')" "\<not> is_digit (CHR ''G'')" by (simp_all add: is_digit_def)
  have d: "takeWhile is_digit (ds @ ''.'' @ fs @ ''GHz'' @ rest) = ds"
      "dropWhile is_digit (ds @ ''.'' @ fs @ ''GHz'' @ rest) = ''.'' @ fs @ ''GHz'' @ rest"
    using assms(1) nd by (intro takeWhile_run dropWhile_run; simp add: list_all_iff)+
  have f: "takeWhile is_digit (fs @ ''GHz'' @ rest) = fs" "dropWhile is_digit (fs @ ''GHz'' @ rest) = ''GHz'' @ rest"
    using assms(3) nd by (intro takeWhile_run dropWhile_run; simp add: list_all_iff)+
  have "ghz_at (''@ '' @ ds @ ''.'' @ fs @ ''GHz'' @ rest) = Some (ds @ ''.'' @ fs)"
    using d f assms(2,4) by (simp add: ghz_at_def has_prefix_def Let_def)
  then show ?thesis by simp
qed

definition sample_cpu_env :: "(string \<times> f64) list \<Rightarrow> cpu_env" where
  "sample_cpu_env sensors = \<lparr>cu_info = Inr [\<lparr>cpi_ModelName = ''CPU @ 2.80GHz'', cpi_VendorID = ''v'', cpi_CacheSize = 8192,
       cpi_Mhz = Fin 2800, cpi_Flags = [''avx'']\<rparr>],
     cu_logical_counts = Inr 4, cu_physical_counts = Inr 2, cu_check_time = max_duration,
     cu_percent = (\<lambda>d perCore. Inr (if perCore then [Fin 10, Fin 20, Fin 30, Fin 40] else [Fin 25])),
     cu_store_time = max_duration, cu_temperatures = Inr sensors, cu_lscpu = Inr ''L2 cache: 1.3 MiB''\<rparr>"

definition sample_cpu_collector :: CPUCollector where
  "sample_cpu_collector = fst (NewCPUCollector (cs_CPU (cfg_Collectors DefaultConfig)))"

section \<open>Properties\<close>

text \<open>
  C31. Assigning the sensor temperatures panics exactly when the machine counts as hyperthreaded and
  some sensor names a core whose doubled number, plus one, is not below the number of logical cores
  (core numbers with gaps, as on hybrid or multi-die processors); otherwise it returns and leaves
  the numbers and usages of the cores as they were.
\<close>

theorem cpu_temperatures_panic:
  "((\<exists>p. cpu_temperatures temps ht cores = Panic p) \<longleftrightarrow>
      (\<exists>sensors. temps = Inr sensors \<and> list_ex (\<lambda>(key, t). ht \<and>
         (case sensor_core (int (length cores)) (to_lower key) of
            None \<Rightarrow> False | Some i \<Rightarrow> int (length cores) \<le> 2 * i + 1)) sensors))
   \<and> (case cpu_temperatures temps ht cores of
        Return (cores', pt) \<Rightarrow> map (\<lambda>k. (cc_ID k, cc_Usage k)) cores' = map (\<lambda>k. (cc_ID k, cc_Usage k)) cores
      | Panic p \<Rightarrow> p = IndexOutOfRange
      | Diverge \<Rightarrow> False)"
proof -
  have e: "(\<lambda>(key, t). ht \<and> (case sensor_core (int (length cores)) (to_lower key) of
            None \<Rightarrow> False | Some i \<Rightarrow> int (length cores) \<le> 2 * i + 1)) = sensor_overruns ht (int (length cores))"
    by (auto simp: sensor_overruns_def fun_eq_iff)
  show ?thesis unfolding e using cpu_temperatures_cases [of temps ht cores]
    by (auto simp: core_usages_def split: if_splits)
qed

text \<open>
  C32. A CPU collection that answers reports the total usage first, one core per sampled percentage
  with its number and usage, and percentages that were either cached less than the cache duration
  before or sampled over at least 500 ms, and then cached.
\<close>

theorem cpu_collect_reports:
  assumes "cpu_Collect env c = Return (Inr m, c')"
  shows "\<exists>percents. map (\<lambda>k. (cc_ID k, cc_Usage k)) (slice_list (cm_Cores m)) = zip (map int [0..<length percents]) percents
    \<and> ck_cachedPercents c' = percents \<and> ck_cachedPercent c' \<noteq> [] \<and> cm_Usage m = hd (ck_cachedPercent c')
    \<and> (time_sub (cu_check_time env) (ck_cachedTime c) < ck_cacheDuration c
       \<or> (\<exists>d. dur_millis 500 \<le> d \<and> cu_percent env d True = Inr percents
            \<and> cu_percent env d False = Inr (ck_cachedPercent c') \<and> ck_cachedTime c' = cu_store_time env))"
proof -
  define c1 where "c1 = (if ck_directSampling c \<le> 0 then c\<lparr>ck_directSampling := dur_millis 750\<rparr> else c)"
  obtain ht percent percents cores pt where
    p: "cpu_percents env c1 = (Inr (percent, percents), c')"
    and t: "cpu_temperatures (cu_temperatures env) ht (cpu_cores percents) = Return (cores, pt)"
    and u: "go_index percent 0 = Return (cm_Usage m)" and m: "cm_Cores m = Some cores"
    using assms
    by (auto simp: cpu_Collect_def Let_def c1_def [symmetric] cpu_metrics_def
        split: sum.splits prod.splits)
  have cores: "map (\<lambda>k. (cc_ID k, cc_Usage k)) cores = zip (map int [0..<length percents]) percents"
    using cpu_temperatures_cases [of "cu_temperatures env" ht "cpu_cores percents"] t
      core_usages_cores [of percents]
    by (auto simp: core_usages_def split: if_splits)
  have usage: "percent \<noteq> []" "cm_Usage m = hd percent"
    using u by (auto simp: go_index_def hd_conv_nth split: if_splits)
  have frame: "ck_cachedTime c1 = ck_cachedTime c" "ck_cacheDuration c1 = ck_cacheDuration c"
    by (simp_all add: c1_def)
  show ?thesis
  proof (cases "cpu_isCacheValid (cu_check_time env) c1")
    case True
    with p have "c' = c1" "percent = ck_cachedPercent c1" "percents = ck_cachedPercents c1"
      by (auto simp: cpu_percents_def)
    then show ?thesis using cores usage m True frame by (simp add: cpu_isCacheValid_def)
  next
    case False
    with p have "cu_percent env (cpu_samplingTime c1) False = Inr percent"
      "cu_percent env (cpu_samplingTime c1) True = Inr percents"
      "c' = cpu_store (cu_store_time env) percent percents c1"
      by (auto simp: cpu_percents_def split: sum.splits)
    moreover have "dur_millis 500 \<le> cpu_samplingTime c1" by (simp add: cpu_samplingTime_def)
    ultimately show ?thesis using cores usage m by (auto simp: cpu_store_def)
  qed
qed

lemma cpu_collect_reports_witness:
  "\<exists>m c'. cpu_Collect (sample_cpu_env []) sample_cpu_collector = Return (Inr m, c') \<and> cm_Usage m = Fin 25
     \<and> map (\<lambda>k. (cc_ID k, cc_Usage k)) (slice_list (cm_Cores m)) = [(0, Fin 10), (1, Fin 20), (2, Fin 30), (3, Fin 40)]"
proof -
  let ?c = "sample_cpu_collector"
  have i: "ck_cachedPercent ?c = []" "ck_directSampling ?c = 750000000"
    by (simp_all add: sample_cpu_collector_def NewCPUCollector_def cpu_startBackgroundCollection_def
        DefaultConfig_def dur_millis_def int64_range_def)
  then have "\<not> cpu_isCacheValid t ?c" for t by (simp add: cpu_isCacheValid_def)
  then obtain m c' where m: "cpu_Collect (sample_cpu_env []) ?c = Return (Inr m, c')"
    and s: "ck_cachedPercent c' = [Fin 25]" "ck_cachedPercents c' = [Fin 10, Fin 20, Fin 30, Fin 40]"
    by (simp add: cpu_Collect_def sample_cpu_env_def Let_def cpu_percents_def cpu_store_def
        cpu_temperatures_def go_index_def i)
  from cpu_collect_reports [OF m] s m show ?thesis by (auto simp: upt_rec)
qed

text \<open>
  A cache size is read as its leading digits times its unit: a fraction between the digits and
  the unit is dropped, so \<open>1.3 MiB\<close> counts as one MiB.
\<close>

theorem parse_size_units:
  assumes "all_digits ds" "digits_val 0 ds < 2 ^ 43" "rest = [] \<or> \<not> is_digit (hd rest)"
  shows "parseSize (ds @ rest) = int (digits_val 0 ds) *
    (if str_contains ''K'' rest then 1024 else if str_contains ''M'' rest then 1024 * 1024 else 1)"
proof -
  have d: "list_all is_digit ds" "ds \<noteq> []" using assms(1) by (simp_all add: all_digits_def)
  have nd: "\<not> is_digit (CHR ''K'')" "\<not> is_digit (CHR ''M'')" by (simp_all add: is_digit_def)
  have "int (digits_val 0 ds) < 2 ^ 43" using assms(2) by (simp add: nat_less_iff)
  then show ?thesis
    using assms(2) find_group_digits [OF d assms(3)] atoi_all_digits [OF assms(1)]
    by (simp add: parseSize_def str_contains_digits [OF d(1) nd(1)] str_contains_digits [OF d(1) nd(2)] int64_range_def)
qed

lemma parse_size_units_witness: "parseSize ''1.3 MiB (1 instance)'' = 1048576"
  using parse_size_units [of "''1''" "''.3 MiB (1 instance)''"]
  by (simp add: all_digits_def is_digit_def digit_val_def has_prefix_def)

text \<open>
  The base clock of a model name is the decimal number between the first \<open>@ \<close> and \<open>GHz\<close>,
  rounded to floating point, times 1000.
\<close>

theorem base_clock_from_model:
  assumes "CHR ''@'' \<notin> set pre" "all_digits ds" "all_digits fs" "digits_val 0 (ds @ fs) < 2 ^ 100"
  shows "getCPUBaseClockSpeed (pre @ ''@ '' @ ds @ ''.'' @ fs @ ''GHz'' @ rest)
    = f64_round False (of_nat (digits_val 0 (ds @ fs)) / 10 ^ length fs) * Fin 1000"
proof -
  let ?v = "of_nat (digits_val 0 (ds @ fs)) :: rat"
  have d: "list_all is_digit ds" "ds \<noteq> []" "list_all is_digit fs" "fs \<noteq> []"
    using assms(2,3) by (simp_all add: all_digits_def)
  have "?v \<le> of_nat (2 ^ 100)" using assms(4) by (simp only: of_nat_le_iff)
  moreover have "?v / 10 ^ length fs \<le> ?v" by (simp add: divide_le_eq mult_le_cancel_left1)
  ultimately have "\<bar>?v / 10 ^ length fs\<bar> \<le> 2 powi 100" by simp
  then have "f64_finite (f64_round False (?v / 10 ^ length fs))"
    using within_round [of "?v / 10 ^ length fs" 100 False] by (simp add: within_finite)
  then show ?thesis
    by (simp add: getCPUBaseClockSpeed_def find_ghz_skip [OF assms(1)]
        find_ghz_at [OF d, simplified] parse_float_decimal [OF d(1,3,2), simplified] Let_def)
qed

lemma base_clock_from_model_witness:
  "getCPUBaseClockSpeed ''i7 CPU @ 2.50GHz'' = Fin 2500"
proof -
  have d: "digits_val 0 ''250'' = 250" by (simp add: digit_val_def)
  have a: "all_digits ''2''" "all_digits ''50''" by (simp_all add: all_digits_def is_digit_def)
  have n: "CHR ''@'' \<notin> set ''i7 CPU ''" by simp
  have r: "f64_round False (5 / 2) = Fin (5 / 2)"
    by (rule f64_round_dyadic [of _ 5 "-1"]) (simp_all add: power_int_minus)
  have q: "Fin (5 / 2) * Fin 1000 = Fin 2500"
    using f64_round_of_int [of 2500 False] by (simp add: f64_ops)
  have "getCPUBaseClockSpeed (''i7 CPU '' @ ''@ '' @ ''2'' @ ''.'' @ ''50'' @ ''GHz'' @ [])
      = f64_round False (of_nat (digits_val 0 (''2'' @ ''50'')) / 10 ^ length ''50'') * Fin 1000"
    by (rule base_clock_from_model [OF n a]) (simp add: digit_val_def)
  also have "of_nat (digits_val 0 (''2'' @ ''50'')) / 10 ^ length ''50'' = (5 / 2 :: rat)"
    using d by simp
  finally show ?thesis by (simp only: r q append.simps)
qed

end
