(* ===== verification/Memory_Collector.thy ===== *)
theory Memory_Collector
  imports Models Go_Strings Collector_Cache Config_Model
begin

text \<open>
  The memory collector of \<open>internal/collectors/memory.go\<close>. Static figures (sizes, slots, speed) are
  gathered once, under a \<open>sync.Once\<close>, and kept in the cached metrics; the others are gathered by
  every collection. gopsutil, ghw and the output of dmidecode answer through \<open>memory_env\<close>.
\<close>

section \<open>Collection\<close>

record VirtualMemory =
  vm_Total :: uint64
  vm_Used :: uint64
  vm_Free :: uint64
  vm_Available :: uint64
  vm_Buffers :: uint64
  vm_Cached :: uint64
  vm_UsedPercent :: f64

record SwapMemory =
  sw_Total :: uint64
  sw_Used :: uint64
  sw_Free :: uint64

text \<open>
  The static collection and the dynamic one read the memory figures separately. \<open>me_ghw\<close> holds the
  sizes of the modules ghw found.
\<close>

record memory_env =
  me_check_time :: instant
  me_static_vm :: "go_error + VirtualMemory"
  me_static_swap :: "go_error + SwapMemory"
  me_dmidecode :: "go_error + string"
  me_ghw :: "go_error + int64 list"
  me_vm :: "go_error + VirtualMemory"
  me_swap :: "go_error + SwapMemory"
  me_store_time :: instant

record MemoryCollector =
  mk_cachedInfo :: MemoryMetrics
  mk_cachedTime :: instant
  mk_cacheDuration :: duration
  mk_updateFrequency :: duration
  mk_backgroundRunning :: bool
  mk_staticInfoLoaded :: bool
  mk_onceDone :: bool

text \<open>The state of the loop over the lines of dmidecode's output.\<close>

record slot_scan =
  ss_totalSlots :: uint16
  ss_usedSlots :: uint16
  ss_inMemoryDevice :: bool
  ss_metrics :: MemoryMetrics

definition scan_speed :: "string \<Rightarrow> MemoryMetrics \<Rightarrow> MemoryMetrics" where
  "scan_speed line m =
     (if has_prefix ''Speed:'' line \<and> mm_DataRate m = 0 then
        let speedInfo = trim_space (trim_prefix ''Speed:'' line)
        in if str_contains ''MT/s'' speedInfo then
             (case parse_uint (hd (split_on (CHR '' '') speedInfo)) of
                (speed, None) \<Rightarrow> m\<lparr>mm_DataRate := speed\<rparr>
              | (_, Some err) \<Rightarrow> m)
           else m
      else m)"

definition scan_form_factor :: "string \<Rightarrow> MemoryMetrics \<Rightarrow> MemoryMetrics" where
  "scan_form_factor line m =
     (if has_prefix ''Form Factor:'' line \<and> mm_FormFactor m = [] then
        let formFactor = trim_space (trim_prefix ''Form Factor:'' line)
        in if formFactor \<noteq> ''Unknown'' then m\<lparr>mm_FormFactor := formFactor\<rparr> else m
      else m)"

definition scan_line :: "slot_scan \<Rightarrow> string \<Rightarrow> slot_scan" where
  "scan_line s raw =
     (let line = trim_space raw;
          s = (if str_contains ''Memory Device'' line
               then s\<lparr>ss_inMemoryDevice := True, ss_totalSlots := ss_totalSlots s + 1\<rparr> else s);
          s = (if ss_inMemoryDevice s then
                 let s = (if has_prefix ''Size:'' line \<and> \<not> str_contains ''No Module Installed'' line
                          then s\<lparr>ss_usedSlots := ss_usedSlots s + 1\<rparr> else s);
                     s = s\<lparr>ss_metrics := scan_speed line (ss_metrics s)\<rparr>
                 in s\<lparr>ss_metrics := scan_form_factor line (ss_metrics s)\<rparr>
               else s)
      in if line = [] then s\<lparr>ss_inMemoryDevice := False\<rparr> else s)"

definition parse_dmidecode :: "string \<Rightarrow> MemoryMetrics \<Rightarrow> MemoryMetrics" where
  "parse_dmidecode output metrics =
     (let s = foldl scan_line \<lparr>ss_totalSlots = 0, ss_usedSlots = 0, ss_inMemoryDevice = False, ss_metrics = metrics\<rparr>
                (split_on (char_of (10 :: nat)) output)
      in (ss_metrics s)\<lparr>mm_TotalSlotCount := ss_totalSlots s, mm_UsingSlotCount := ss_usedSlots s\<rparr>)"

definition getMemoryHardwareInfo :: "memory_env \<Rightarrow> MemoryMetrics \<Rightarrow> go_error option \<times> MemoryMetrics" where
  "getMemoryHardwareInfo env metrics =
     (case me_dmidecode env of
        Inl err \<Rightarrow>
          (case me_ghw env of
             Inl ghwErr \<Rightarrow> (Some ghwErr, metrics)
           | Inr modules \<Rightarrow>
               if 0 < length modules then
                 (None, metrics\<lparr>mm_UsingSlotCount := of_nat (length (filter (\<lambda>size. 0 < size) modules)),
                                mm_TotalSlotCount := of_nat (length modules)\<rparr>)
               else (None, metrics))
      | Inr output \<Rightarrow> (None, parse_dmidecode output metrics))"

definition memory_collectStaticInfo :: "memory_env \<Rightarrow> go_error + MemoryMetrics" where
  "memory_collectStaticInfo env =
     (case me_static_vm env of
        Inl err \<Rightarrow> Inl err
      | Inr memInfo \<Rightarrow>
          (case me_static_swap env of
             Inl err \<Rightarrow> Inl err
           | Inr swapInfo \<Rightarrow>
               let metrics = zero_MemoryMetrics\<lparr>mm_Total := int64_of_uint64 (vm_Total memInfo),
                     mm_SwapTotal := int64_of_uint64 (sw_Total swapInfo)\<rparr>
               in (case getMemoryHardwareInfo env metrics of
                     (None, metrics') \<Rightarrow> Inr metrics'
                   | (Some err, metrics') \<Rightarrow>
                       Inr (metrics'\<lparr>mm_DataRate := 0, mm_UsingSlotCount := 0, mm_TotalSlotCount := 0, mm_FormFactor := []\<rparr>))))"

definition memory_collectDynamicInfo :: "memory_env \<Rightarrow> MemoryMetrics \<Rightarrow> go_error + MemoryMetrics" where
  "memory_collectDynamicInfo env metrics =
     (case me_vm env of
        Inl err \<Rightarrow> Inl err
      | Inr memInfo \<Rightarrow>
          (case me_swap env of
             Inl err \<Rightarrow> Inl err
           | Inr swapInfo \<Rightarrow> Inr (metrics
               \<lparr>mm_Used := int64_of_uint64 (vm_Used memInfo),
                mm_Free := int64_of_uint64 (vm_Free memInfo),
                mm_Available := int64_of_uint64 (vm_Available memInfo),
                mm_Buffers := int64_of_uint64 (vm_Buffers memInfo),
                mm_Cached := int64_of_uint64 (vm_Cached memInfo),
                mm_UsagePercent := vm_UsedPercent memInfo,
                mm_SwapUsed := int64_of_uint64 (sw_Used swapInfo),
                mm_SwapFree := int64_of_uint64 (sw_Free swapInfo),
                mm_PagedPoolSize := 0,
                mm_NonPagedPoolSize := 0\<rparr>)))"

text \<open>The function under the \<open>sync.Once\<close>: it runs in the first call only, whether or not it succeeds.\<close>

definition memory_collectStaticOnce :: "memory_env \<Rightarrow> MemoryCollector \<Rightarrow> go_error option \<times> MemoryCollector" where
  "memory_collectStaticOnce env c =
     (if mk_onceDone c then (None, c)
      else let c = c\<lparr>mk_onceDone := True\<rparr>
        in case memory_collectStaticInfo env of
             Inl err \<Rightarrow> (Some err, c)
           | Inr st \<Rightarrow> (None, c\<lparr>mk_cachedInfo := (mk_cachedInfo c)
                 \<lparr>mm_Total := mm_Total st, mm_SwapTotal := mm_SwapTotal st, mm_DataRate := mm_DataRate st,
                  mm_UsingSlotCount := mm_UsingSlotCount st, mm_TotalSlotCount := mm_TotalSlotCount st,
                  mm_FormFactor := mm_FormFactor st\<rparr>,
               mk_staticInfoLoaded := True\<rparr>))"

definition collectMemoryInfo ::
  "memory_env \<Rightarrow> MemoryCollector \<Rightarrow> ((go_error + MemoryMetrics) \<times> MemoryCollector) outcome" where
  "collectMemoryInfo env c =
     (case memory_collectStaticOnce env c of
        (Some staticErr, c') \<Rightarrow> Return (Inl staticErr, c')
      | (None, c') \<Rightarrow>
          (case memory_collectDynamicInfo env (mk_cachedInfo c') of
             Inl err \<Rightarrow> Return (Inl err, c')
           | Inr metrics \<Rightarrow> Return (Inr metrics, c')))"

section \<open>Cache and background collection\<close>

definition memory_store :: "instant \<Rightarrow> MemoryMetrics \<Rightarrow> MemoryCollector \<Rightarrow> MemoryCollector" where
  "memory_store t info c = c\<lparr>mk_cachedInfo := info, mk_cachedTime := t\<rparr>"

text \<open>One turn of the goroutine's endless loop; it then sleeps for the update frequency.\<close>

definition memory_background_turn :: "memory_env \<Rightarrow> MemoryCollector \<Rightarrow> MemoryCollector outcome" where
  "memory_background_turn env c =
     obind (collectMemoryInfo env c)
       (\<lambda>(r, c'). Return (case r of Inr info \<Rightarrow> memory_store (me_store_time env) info c' | Inl err \<Rightarrow> c'))"

definition memory_isCacheValid :: "instant \<Rightarrow> MemoryCollector \<Rightarrow> bool" where
  "memory_isCacheValid now c \<longleftrightarrow> time_sub now (mk_cachedTime c) < mk_cacheDuration c \<and> mk_staticInfoLoaded c"

definition memory_Collect ::
  "memory_env \<Rightarrow> MemoryCollector \<Rightarrow> ((go_error + MemoryMetrics) \<times> MemoryCollector) outcome" where
  "memory_Collect env c =
     (if memory_isCacheValid (me_check_time env) c then Return (Inr (mk_cachedInfo c), c)
      else obind (collectMemoryInfo env c)
        (\<lambda>(r, c'). Return (case r of
             Inl err \<Rightarrow> (Inl err, c')
           | Inr info \<Rightarrow> (Inr info, memory_store (me_store_time env) info c'))))"

definition memory_startBackgroundCollection :: "MemoryCollector \<Rightarrow> MemoryCollector \<times> bool" where
  "memory_startBackgroundCollection c =
     (if mk_backgroundRunning c then (c, False) else (c\<lparr>mk_backgroundRunning := True\<rparr>, True))"

definition NewMemoryCollector :: "MemoryCollectorSettings \<Rightarrow> MemoryCollector \<times> bool" where
  "NewMemoryCollector cfg = memory_startBackgroundCollection
     \<lparr>mk_cachedInfo = zero_MemoryMetrics, mk_cachedTime = zero_time,
      mk_cacheDuration = dur_seconds (memory_CacheDurationSeconds cfg),
      mk_updateFrequency = dur_seconds (memory_UpdateFrequencySeconds cfg),
      mk_backgroundRunning = False, mk_staticInfoLoaded = False, mk_onceDone = False\<rparr>"

section \<open>Lemmas\<close>

definition memory_inv :: "MemoryCollector \<Rightarrow> bool" where
  "memory_inv c \<longleftrightarrow> int64_range (mk_cacheDuration c) \<and> (\<not> mk_onceDone c \<longrightarrow> mk_cachedTime c = zero_time)"

lemma collectMemory_frame:
  assumes "collectMemoryInfo env c = Return (r, c')"
  shows "mk_onceDone c' \<and> mk_cachedTime c' = mk_cachedTime c \<and> mk_cacheDuration c' = mk_cacheDuration c
    \<and> (mk_onceDone c \<longrightarrow> mk_cachedInfo c' = mk_cachedInfo c)"
  using assms
  by (auto simp: collectMemoryInfo_def memory_collectStaticOnce_def Let_def
      split: sum.splits prod.splits if_splits option.splits)

interpretation memory: standard_collector memory_isCacheValid mk_cachedInfo mk_cachedTime
  mk_cacheDuration collectMemoryInfo memory_store memory_Collect memory_background_turn
  me_check_time me_store_time memory_inv "\<lambda>m c. mk_staticInfoLoaded c"
  by unfold_locales
    (auto simp: memory_isCacheValid_def memory_inv_def memory_store_def memory_Collect_def
      memory_background_turn_def dest!: collectMemory_frame)

text \<open>
  The sections of dmidecode's output, separated by blank lines; a memory device is what follows the
  first line of a section that names one.
\<close>

fun line_blocks :: "string list \<Rightarrow> string list list" where
  "line_blocks [] = [[]]"
| "line_blocks (l # ls) =
     (if l = [] then [] # line_blocks ls else (l # hd (line_blocks ls)) # tl (line_blocks ls))"

definition device_part :: "string list \<Rightarrow> string list" where
  "device_part b = dropWhile (\<lambda>l. \<not> str_contains ''Memory Device'' l) b"

definition used_line :: "string \<Rightarrow> bool" where
  "used_line l \<longleftrightarrow> has_prefix ''Size:'' l \<and> \<not> str_contains ''No Module Installed'' l"

definition open_part :: "bool \<Rightarrow> string list list \<Rightarrow> string list" where
  "open_part inside bs = (if inside then hd bs else device_part (hd bs)) @ concat (map device_part (tl bs))"

lemma scan_line_counts:
  "ss_totalSlots (scan_line s raw) = ss_totalSlots s + (if str_contains ''Memory Device'' (trim_space raw) then 1 else 0)"
  "ss_inMemoryDevice (scan_line s raw) \<longleftrightarrow>
     (ss_inMemoryDevice s \<or> str_contains ''Memory Device'' (trim_space raw)) \<and> trim_space raw \<noteq> []"
  "ss_usedSlots (scan_line s raw) = ss_usedSlots s +
     (if (ss_inMemoryDevice s \<or> str_contains ''Memory Device'' (trim_space raw)) \<and> used_line (trim_space raw) then 1 else 0)"
  by (auto simp: scan_line_def Let_def used_line_def)

lemma line_blocks_nonempty [simp]: "line_blocks ls \<noteq> []"
  by (cases ls) simp_all

lemma scan_lines_total:
  "ss_totalSlots (foldl scan_line s raws) = ss_totalSlots s
     + of_nat (length (filter (str_contains ''Memory Device'') (map trim_space raws)))"
  by (induction raws arbitrary: s) (simp_all add: scan_line_counts)

lemma scan_lines_used:
  "ss_usedSlots (foldl scan_line s raws) = ss_usedSlots s
     + of_nat (length (filter used_line (open_part (ss_inMemoryDevice s) (line_blocks (map trim_space raws)))))"
proof (induction raws arbitrary: s)
  case Nil
  show ?case by (simp add: open_part_def device_part_def)
next
  case (Cons raw raws)
  obtain b bs where B: "line_blocks (map trim_space raws) = b # bs"
    using line_blocks_nonempty by (meson neq_Nil_conv)
  show ?case
  proof (cases "trim_space raw = []")
    case True
    then show ?thesis
      by (simp add: Cons.IH scan_line_counts B open_part_def device_part_def used_line_def has_prefix_def)
  next
    case False
    then show ?thesis
      by (simp add: Cons.IH scan_line_counts B open_part_def device_part_def)
  qed
qed

text \<open>The static figures, and that nothing changes them once the static collection has run.\<close>

definition static_of :: "MemoryMetrics \<Rightarrow> int64 \<times> int64 \<times> uint64 \<times> uint16 \<times> uint16 \<times> string" where
  "static_of m = (mm_Total m, mm_SwapTotal m, mm_DataRate m, mm_UsingSlotCount m, mm_TotalSlotCount m, mm_FormFactor m)"

definition memory_frozen :: "MemoryCollector \<Rightarrow> MemoryCollector \<Rightarrow> bool" where
  "memory_frozen c c' \<longleftrightarrow> mk_onceDone c' \<and> mk_staticInfoLoaded c' = mk_staticInfoLoaded c
     \<and> static_of (mk_cachedInfo c') = static_of (mk_cachedInfo c)"

lemma dynamic_static: "memory_collectDynamicInfo env m = Inr m' \<Longrightarrow> static_of m' = static_of m"
  by (auto simp: memory_collectDynamicInfo_def static_of_def split: sum.splits)

lemma collectMemory_frozen:
  assumes "mk_onceDone c" "collectMemoryInfo env c = Return (r, c')"
  shows "c' = c \<and> (\<forall>m. r = Inr m \<longrightarrow> static_of m = static_of (mk_cachedInfo c))"
  using assms
  by (auto simp: collectMemoryInfo_def memory_collectStaticOnce_def dest: dynamic_static split: sum.splits)

lemma memory_turn_frozen:
  assumes "mk_onceDone c" "memory_background_turn env c = Return c'" shows "memory_frozen c c'"
proof -
  from refresh_result [OF assms(2) [unfolded memory_background_turn_def]] obtain r c1
    where g: "collectMemoryInfo env c = Return (r, c1)"
      and c': "c' = (case r of Inl err \<Rightarrow> c1 | Inr m \<Rightarrow> memory_store (me_store_time env) m c1)" by blast
  with collectMemory_frozen [OF assms(1) g] assms(1) show ?thesis
    by (cases r) (auto simp: memory_frozen_def memory_store_def)
qed

lemma memory_Collect_frozen:
  assumes "mk_onceDone c" "memory_Collect env c = Return (r, c')"
  shows "memory_frozen c c' \<and> (\<forall>m. r = Inr m \<longrightarrow> static_of m = static_of (mk_cachedInfo c))"
proof (cases "memory_isCacheValid (me_check_time env) c")
  case True
  with assms show ?thesis by (auto simp: memory_Collect_def memory_frozen_def)
next
  case False
  with assms(2) have "obind (collectMemoryInfo env c) (\<lambda>(r, c'). Return (case r of
       Inl err \<Rightarrow> (Inl err, c') | Inr m \<Rightarrow> (Inr m, memory_store (me_store_time env) m c'))) = Return (r, c')"
    by (simp add: memory_Collect_def)
  from write_back_result [OF this] obtain c1 where g: "collectMemoryInfo env c = Return (r, c1)"
    and c': "c' = (case r of Inl err \<Rightarrow> c1 | Inr m \<Rightarrow> memory_store (me_store_time env) m c1)" by blast
  with collectMemory_frozen [OF assms(1) g] assms(1) show ?thesis
    by (cases r) (auto simp: memory_frozen_def memory_store_def)
qed

lemma memory_run_frozen:
  "mk_onceDone c \<Longrightarrow> cache_run memory_Collect memory_background_turn es c = Return c' \<Longrightarrow> memory_frozen c c'"
proof (induction es arbitrary: c)
  case Nil
  then show ?case by (simp add: memory_frozen_def)
next
  case (Cons a es)
  have "\<exists>c1. memory_frozen c c1 \<and> cache_run memory_Collect memory_background_turn es c1 = Return c'"
  proof (cases a)
    case (Refresh e)
    with Cons.prems memory_turn_frozen [OF Cons.prems(1)] show ?thesis by auto
  next
    case (Request e)
    with Cons.prems memory_Collect_frozen [OF Cons.prems(1)] show ?thesis by fastforce
  qed
  then obtain c1 where "memory_frozen c c1" "cache_run memory_Collect memory_background_turn es c1 = Return c'" by blast
  with Cons.IH [of c1] show ?case by (simp add: memory_frozen_def)
qed

definition sample_memory_env :: "instant \<Rightarrow> memory_env" where
  "sample_memory_env t = \<lparr>me_check_time = t,
     me_static_vm = Inl (ErrExt ''meminfo''), me_static_swap = Inl (ErrExt ''swaps''),
     me_dmidecode = Inl (ErrExt ''dmidecode''), me_ghw = Inl (ErrExt ''ghw''),
     me_vm = Inr \<lparr>vm_Total = 8192, vm_Used = 4096, vm_Free = 4096, vm_Available = 4096, vm_Buffers = 0,
       vm_Cached = 0, vm_UsedPercent = Fin 50\<rparr>,
     me_swap = Inr \<lparr>sw_Total = 0, sw_Used = 0, sw_Free = 0\<rparr>, me_store_time = t\<rparr>"

definition sample_memory_collector :: MemoryCollector where
  "sample_memory_collector = fst (NewMemoryCollector (cs_Memory (cfg_Collectors DefaultConfig)))"

section \<open>Properties\<close>

text \<open>
  C33. The slot counts parsed from dmidecode are the number of lines that name a memory device and,
  among the lines of memory-device sections (a section ends at a blank line), the number of sizes
  other than \<open>No Module Installed\<close>, modulo \<open>2 ^ 16\<close>.
\<close>

theorem dmidecode_slots:
  "let lines = map trim_space (split_on (char_of (10 :: nat)) out)
   in mm_TotalSlotCount (parse_dmidecode out m) = of_nat (length (filter (str_contains ''Memory Device'') lines))
      \<and> mm_UsingSlotCount (parse_dmidecode out m)
          = of_nat (length (filter used_line (concat (map device_part (line_blocks lines)))))"
proof -
  have "open_part False (line_blocks ls) = concat (map device_part (line_blocks ls))" for ls
    by (cases "line_blocks ls") (simp_all add: open_part_def)
  then show ?thesis
    by (simp add: parse_dmidecode_def Let_def scan_lines_total scan_lines_used del: filter_concat)
qed

text \<open>
  C34. Once the static collection has run, the total sizes, slots, speed and form factor never change
  again: every answer of every later request, after any background turns, carries the same ones, and
  whether they count as loaded does not change either.
\<close>

theorem memory_static_frozen:
  assumes "mk_onceDone c" "cache_run memory_Collect memory_background_turn es c = Return c'"
    and "memory_Collect e c' = Return (Inr m, c'')"
  shows "static_of m = static_of (mk_cachedInfo c) \<and> mk_staticInfoLoaded c'' = mk_staticInfoLoaded c"
proof -
  have f: "memory_frozen c c'" by (rule memory_run_frozen [OF assms(1,2)])
  then have "mk_onceDone c'" by (simp add: memory_frozen_def)
  from memory_Collect_frozen [OF this assms(3)] f show ?thesis by (simp add: memory_frozen_def)
qed

lemma memory_static_frozen_witness:
  "\<exists>m c''. memory_Collect (sample_memory_env 0) (sample_memory_collector\<lparr>mk_onceDone := True\<rparr>) = Return (Inr m, c'')
    \<and> mm_Used m = 4096 \<and> static_of m = static_of zero_MemoryMetrics"
proof -
  let ?c = "sample_memory_collector\<lparr>mk_onceDone := True\<rparr>"
  have i: "mk_cachedInfo ?c = zero_MemoryMetrics" "mk_staticInfoLoaded ?c = False"
    by (simp_all add: sample_memory_collector_def NewMemoryCollector_def memory_startBackgroundCollection_def)
  then obtain m c'' where m: "memory_Collect (sample_memory_env 0) ?c = Return (Inr m, c'')" "mm_Used m = 4096"
    by (simp add: memory_Collect_def memory_isCacheValid_def collectMemoryInfo_def memory_collectStaticOnce_def
        memory_collectDynamicInfo_def sample_memory_env_def int64_of_uint64_def)
  with memory_static_frozen [of ?c "[]" ?c "sample_memory_env 0" m c''] i show ?thesis by simp
qed

text \<open>
  C35. A failed static collection is never retried: if the first background turn of a new collector
  cannot read the memory sizes, every later answer reports a total of zero, and no request is ever
  served from the cache.
\<close>

theorem memory_static_failure_permanent:
  assumes "NewMemoryCollector cfg = (c0, started)" "memory_collectStaticInfo e0 = Inl err"
    and "cache_run memory_Collect memory_background_turn (Refresh e0 # es) c0 = Return c'"
    and "memory_Collect e c' = Return (Inr m, c'')"
  shows "mm_Total m = 0 \<and> mm_SwapTotal m = 0 \<and> \<not> memory_isCacheValid t c'"
proof -
  have i: "mk_cachedInfo c0 = zero_MemoryMetrics" "\<not> mk_staticInfoLoaded c0" "\<not> mk_onceDone c0"
    using assms(1) by (auto simp: NewMemoryCollector_def memory_startBackgroundCollection_def)
  let ?c1 = "c0\<lparr>mk_onceDone := True\<rparr>"
  have "memory_background_turn e0 c0 = Return ?c1"
    using i(3) assms(2) by (simp add: memory_background_turn_def collectMemoryInfo_def memory_collectStaticOnce_def)
  with assms(3) have r: "cache_run memory_Collect memory_background_turn es ?c1 = Return c'" by simp
  have "static_of m = static_of zero_MemoryMetrics"
    using memory_static_frozen [OF _ r assms(4)] i by simp
  moreover have "\<not> mk_staticInfoLoaded c'"
    using memory_run_frozen [OF _ r] i by (simp add: memory_frozen_def)
  ultimately show ?thesis by (simp add: static_of_def zero_MemoryMetrics_def memory_isCacheValid_def)
qed

lemma memory_static_failure_permanent_witness:
  "\<exists>c' m c''. cache_run memory_Collect memory_background_turn [Refresh (sample_memory_env 0)] sample_memory_collector
       = Return c'
     \<and> memory_Collect (sample_memory_env 1) c' = Return (Inr m, c'') \<and> mm_Total m = 0"
proof -
  obtain started where n: "NewMemoryCollector (cs_Memory (cfg_Collectors DefaultConfig)) = (sample_memory_collector, started)"
    by (metis prod.collapse sample_memory_collector_def)
  have s: "memory_collectStaticInfo (sample_memory_env 0) = Inl (ErrExt ''meminfo'')"
    by (simp add: memory_collectStaticInfo_def sample_memory_env_def)
  have i: "\<not> mk_staticInfoLoaded sample_memory_collector" "\<not> mk_onceDone sample_memory_collector"
    by (simp_all add: sample_memory_collector_def NewMemoryCollector_def memory_startBackgroundCollection_def)
  let ?c = "sample_memory_collector\<lparr>mk_onceDone := True\<rparr>"
  have r: "cache_run memory_Collect memory_background_turn [Refresh (sample_memory_env 0)] sample_memory_collector = Return ?c"
    using i s by (simp add: memory_background_turn_def collectMemoryInfo_def memory_collectStaticOnce_def)
  obtain m c'' where m: "memory_Collect (sample_memory_env 1) ?c = Return (Inr m, c'')"
    using i by (simp add: memory_Collect_def memory_isCacheValid_def collectMemoryInfo_def memory_collectStaticOnce_def
        memory_collectDynamicInfo_def sample_memory_env_def)
  with memory_static_failure_permanent [OF n s r m] r show ?thesis by blast
qed

end
