(* ===== verification/Go_Path.thy ===== *)
theory Go_Path
  imports Go_Strings
begin

text \<open>
  The functions of Go's package \<open>path/filepath\<close> that the program calls, with \<open>/\<close> as the
  separator.
\<close>

text \<open>The elements that \<open>Clean\<close> keeps; the ones already kept are in reverse.\<close>

fun clean_parts :: "bool \<Rightarrow> string list \<Rightarrow> string list \<Rightarrow> string list" where
  "clean_parts rooted [] kept = rev kept"
| "clean_parts rooted (p # ps) kept =
     (if p = [] \<or> p = ''.'' then clean_parts rooted ps kept
      else if p = ''..'' then
        (case kept of
           [] \<Rightarrow> clean_parts rooted ps (if rooted then [] else [p])
         | k # ks \<Rightarrow> clean_parts rooted ps (if k = ''..'' then p # kept else ks))
      else clean_parts rooted ps (p # kept))"

definition path_clean :: "string \<Rightarrow> string" where
  "path_clean s =
     (let rooted = (s \<noteq> [] \<and> hd s = CHR ''/'');
          out = join_with (CHR ''/'') (clean_parts rooted (split_on (CHR ''/'') s) [])
      in if rooted then CHR ''/'' # out else if out = [] then ''.'' else out)"

definition path_join :: "string list \<Rightarrow> string" where
  "path_join elems =
     (case dropWhile (\<lambda>e. e = []) elems of
        [] \<Rightarrow> []
      | e # es \<Rightarrow> path_clean (join_with (CHR ''/'') (e # es)))"

definition path_dir :: "string \<Rightarrow> string" where
  "path_dir s = path_clean (rev (dropWhile (\<lambda>c. c \<noteq> CHR ''/'') (rev s)))"

definition path_base :: "string \<Rightarrow> string" where
  "path_base s =
     (if s = [] then ''.''
      else let t = rev (dropWhile (\<lambda>c. c = CHR ''/'') (rev s))
        in if t = [] then ''/'' else last (split_on (CHR ''/'') t))"

text \<open>An element of a path: a name that is neither empty nor a dot nor two dots.\<close>

definition plain_name :: "string \<Rightarrow> bool" where
  "plain_name n \<longleftrightarrow> n \<noteq> [] \<and> n \<noteq> ''.'' \<and> n \<noteq> ''..'' \<and> CHR ''/'' \<notin> set n"

lemma clean_parts_plain:
  "list_all plain_name ps \<Longrightarrow> clean_parts rooted ps kept = rev kept @ ps"
  by (induction ps arbitrary: kept) (auto simp: plain_name_def)

lemma join_with_Cons: "xs \<noteq> [] \<Longrightarrow> join_with c (x # xs) = x @ c # join_with c xs"
  by (cases xs) simp_all

lemma path_join_plain:
  assumes "list_all plain_name ps" "ps \<noteq> []" "list_all plain_name qs" "qs \<noteq> []"
  shows "path_join ((CHR ''/'' # join_with (CHR ''/'') ps) # qs) = CHR ''/'' # join_with (CHR ''/'') (ps @ qs)"
proof -
  have app: "join_with (CHR ''/'') (ps @ qs) = join_with (CHR ''/'') (join_with (CHR ''/'') ps # qs)"
    using assms(2,4) by (induction ps rule: induct_list012) (auto simp: join_with_Cons)
  have "split_on (CHR ''/'') (join_with (CHR ''/'') (ps @ qs)) = ps @ qs"
    using assms by (intro split_on_join) (auto simp: list_all_iff plain_name_def)
  then show ?thesis
    using assms clean_parts_plain [of "ps @ qs" True "[]"]
    by (simp add: path_join_def path_clean_def Let_def app join_with_Cons)
qed

end
