(* ===== verification/Counter_Rate.thy ===== *)
theory Counter_Rate
  imports Go_Time
begin

text \<open>
  Rates of cumulative unsigned counters, the expression
  \<open>float64(current - previous) / duration\<close> that the disk and network collectors use for every
  per-second figure. The subtraction is on \<open>uint64\<close> and wraps when a counter was reset.
\<close>

definition counter_rate :: "uint64 \<Rightarrow> uint64 \<Rightarrow> f64 \<Rightarrow> f64" where
  "counter_rate current previous seconds = f64_of_int (uint (current - previous)) / seconds"

lemma uint64_less: "uint (w :: uint64) < 2 ^ 64"
  using uint_lt2p [of w] by simp

lemma uint64_diff:
  fixes c p :: uint64
  shows "uint (c - p) = (if uint p \<le> uint c then uint c - uint p else uint c - uint p + 2 ^ 64)"
  using uint64_less [of c] uint64_less [of p]
  by (simp add: uint_sub_if')

lemma counter_rate_forward:
  "uint p \<le> uint c \<Longrightarrow> counter_rate c p d = f64_of_int (uint c - uint p) / d"
  by (simp add: counter_rate_def uint64_diff)

lemma counter_rate_reset:
  "uint c < uint p \<Longrightarrow> counter_rate c p d = f64_of_int (2 ^ 64 - (uint p - uint c)) / d"
  by (simp add: counter_rate_def uint64_diff algebra_simps)

text \<open>Over a positive number of seconds a rate is never negative and never a NaN.\<close>

lemma counter_rate_nonneg: "0 < r \<Longrightarrow> 0 \<le> counter_rate c p (Fin r)"
  unfolding counter_rate_def
  by (rule f64_divide_nonneg) (simp_all add: f64_of_int_nonneg, simp add: f64_ops)

text \<open>And it is finite when the interval is at least a nanosecond or so.\<close>

lemma f64_round_finite:
  assumes "0 \<le> x" "x \<le> 2 ^ 100" shows "f64_finite (f64_round s x)"
proof (cases "x = 0")
  case False
  with assms have x: "0 < x" "x \<le> 2 powi 100" by simp_all
  then have "\<not> 101 \<le> flog2 x" using flog2_le_iff [OF x(1), of 101] by simp
  then have "f64_mag x \<le> 2 powi 100"
    using x by (intro f64_mag_le_pow) (simp_all add: f64_exp_def)
  moreover have "(2::rat) powi 100 < 2 ^ 1024" by simp
  ultimately show ?thesis using x(1) by (simp add: f64_round_def Let_def)
qed (simp add: f64_round_def)

lemma counter_rate_finite:
  assumes "1 / 2 ^ 30 \<le> r" shows "f64_finite (counter_rate c p (Fin r))"
proof (cases "uint (c - p) = 0")
  case False
  define n where "n = uint (c - p)"
  have "0 < n" "n < 2 ^ 64" using False uint64_less [of "c - p"] by (auto simp: n_def less_le)
  have "0 < r" using assms by (rule less_le_trans [rotated]) simp
  obtain v where v: "f64_of_int n = Fin v" "1 \<le> v" using f64_of_int_pos [of n] \<open>0 < n\<close> \<open>n < 2 ^ 64\<close> by auto
  have "f64_of_int n \<le> f64_of_int (2 ^ 64)" using \<open>0 < n\<close> \<open>n < 2 ^ 64\<close> by (intro f64_of_int_mono) simp_all
  moreover have "f64_of_int (2 ^ 64) = Fin (2 ^ 64)" by (simp add: f64_of_int_def f64_eval)
  ultimately have "v \<le> 2 ^ 64" using v by (simp add: f64_ops)
  have "v / r \<le> 2 ^ 64 / (1 / 2 ^ 30)"
    using \<open>v \<le> 2 ^ 64\<close> \<open>1 \<le> v\<close> assms \<open>0 < r\<close> by (intro frac_le) simp_all
  then have "f64_finite (f64_round False (v / r))"
    using \<open>1 \<le> v\<close> \<open>0 < r\<close> by (intro f64_round_finite) (simp_all add: order_trans)
  moreover have "counter_rate c p (Fin r) = f64_round False (v / r)"
    using v \<open>0 < r\<close> by (simp add: counter_rate_def n_def [symmetric] f64_ops)
  ultimately show ?thesis by simp
qed (simp add: counter_rate_def f64_ops f64_round_def)

end
