(* ===== verification/Disk_Collector.thy ===== *)
theory Disk_Collector
  imports Models Go_Path Collector_Cache Counter_Rate Config_Model
begin

text \<open>
  The disk collector of \<open>internal/collectors/disk.go\<close>. The library gopsutil and the files
  under \<open>/sys/block\<close> answer through \<open>disk_env\<close>, one environment per collection; the
  collector's fields and the package's block-device cache are the state. First the lookup of a
  partition's block device and of the disk behind it, then the collection, then the cache and
  \<open>Collect\<close>.
\<close>

section \<open>The world outside\<close>

text \<open>The fields of gopsutil's results that the collector reads.\<close>

record PartitionStat =
  ps_Device :: string
  ps_Mountpoint :: string
  ps_Fstype :: string

record UsageStat =
  us_Total :: uint64
  us_Used :: uint64
  us_Free :: uint64
  us_UsedPercent :: f64
  us_InodesTotal :: uint64
  us_InodesUsed :: uint64
  us_InodesFree :: uint64

record DiskCounters =
  dct_ReadBytes :: uint64
  dct_WriteBytes :: uint64
  dct_ReadCount :: uint64
  dct_WriteCount :: uint64
  dct_ReadTime :: uint64
  dct_WriteTime :: uint64
  dct_IopsInProgress :: uint64
  dct_IoTime :: uint64

text \<open>
  \<open>de_sys_block n\<close>: \<open>/sys/block/n\<close> exists. \<open>de_slaves n\<close>: the names in its
  \<open>slaves\<close> directory, \<open>None\<close> when it cannot be read. \<open>de_model n\<close> and
  \<open>de_rotational n\<close>: the contents of \<open>device/model\<close> and \<open>queue/rotational\<close>. The
  instants are the clock readings of one collection, in the order they are taken.
\<close>

record disk_env =
  de_check_time :: instant
  de_partitions :: "go_error + PartitionStat list"
  de_io_counters :: "go_error + (string \<rightharpoonup> DiskCounters)"
  de_prev_time :: instant
  de_since_time :: instant
  de_usage :: "string \<Rightarrow> go_error + UsageStat"
  de_sys_block :: "string \<Rightarrow> bool"
  de_slaves :: "string \<Rightarrow> string list option"
  de_model :: "string \<Rightarrow> string option"
  de_rotational :: "string \<Rightarrow> string option"
  de_store_time :: instant

section \<open>Block devices\<close>

definition ignoredFSTypes :: "string list" where
  "ignoredFSTypes =
     [''autofs'', ''binfmt_misc'', ''bpf'', ''cgroup'', ''cgroup2'',
      ''configfs'', ''debugfs'', ''devpts'', ''devtmpfs'', ''fusectl'',
      ''hugetlbfs'', ''mqueue'', ''nsfs'', ''overlay'', ''proc'',
      ''pstore'', ''securityfs'', ''squashfs'', ''sysfs'', ''tracefs'',
      ''tmpfs'']"

text \<open>
  \<open>partitionRegexp.ReplaceAllString(s, "")\<close> with the pattern \<open>p?\d+$\<close>: the leftmost
  match starts at the run of digits that ends the string, or at the \<open>p\<close> before it.
\<close>

definition partition_base :: "string \<Rightarrow> string" where
  "partition_base s =
     (let ds = takeWhile is_digit (rev s); rest = dropWhile is_digit (rev s)
      in if ds = [] then s
         else (case rest of
                 [] \<Rightarrow> []
               | c # r \<Rightarrow> if c = CHR ''p'' then rev r else rev rest))"

type_synonym device_cache = "string \<rightharpoonup> string"

definition getBlockDeviceFromPartition ::
  "(string \<Rightarrow> bool) \<Rightarrow> string \<Rightarrow> device_cache \<Rightarrow> string \<times> device_cache" where
  "getBlockDeviceFromPartition stat part cache =
     (case cache part of
        Some dev \<Rightarrow> (dev, cache)
      | None \<Rightarrow>
          if has_prefix ''dm-'' part then (part, cache(part \<mapsto> part))
          else let baseName = partition_base part
            in if baseName \<noteq> part \<and> stat baseName
               then (baseName, cache(part \<mapsto> baseName))
               else (part, cache(part \<mapsto> part)))"

text \<open>
  A device-mapper device asks its first slave; the recursion follows the slaves and has no bound
  of its own, so not returning is \<open>None\<close>.
\<close>

partial_function (option) getDiskInfo ::
  "disk_env \<Rightarrow> string \<Rightarrow> device_cache \<Rightarrow> ((string \<times> string) \<times> device_cache) option" where
  "getDiskInfo env blockDeviceName cache =
     (let (baseDeviceName, cache') = getBlockDeviceFromPartition (de_sys_block env) blockDeviceName cache;
          files = (if has_prefix ''dm-'' baseDeviceName then de_slaves env baseDeviceName else None);
          modelName = (case de_model env baseDeviceName of
             None \<Rightarrow> ''N/A'' | Some modelBytes \<Rightarrow> trim_space modelBytes);
          diskType = (case de_rotational env baseDeviceName of
             None \<Rightarrow> ''N/A''
           | Some rotationalBytes \<Rightarrow>
               let rotational = trim_space rotationalBytes
               in if rotational = ''0'' then ''SSD'' else if rotational = ''1'' then ''HDD'' else ''N/A'')
      in if files \<noteq> None \<and> the files \<noteq> [] then getDiskInfo env (hd (the files)) cache'
         else Some ((modelName, diskType), cache'))"

section \<open>Collection\<close>

record DiskCollector =
  dk_cachedMetrics :: "DiskMetrics slice"
  dk_cachedTime :: instant
  dk_cacheDuration :: duration
  dk_updateFrequency :: duration
  dk_backgroundRunning :: bool
  dk_prevIOCounters :: "string \<rightharpoonup> DiskCounters"
  dk_prevTime :: instant

text \<open>The collector and the package variable \<open>blockDeviceCache\<close>.\<close>

type_synonym disk_state = "DiskCollector \<times> device_cache"

definition disk_io_stats ::
  "DiskCounters \<Rightarrow> DiskCounters option \<Rightarrow> bool \<Rightarrow> f64 \<Rightarrow> DiskIOStats" where
  "disk_io_stats currentIO prev isFirstCollection duration =
     (let ioStats = zero_DiskIOStats
        \<lparr>io_ReadBytes := int64_of_uint64 (dct_ReadBytes currentIO),
         io_WriteBytes := int64_of_uint64 (dct_WriteBytes currentIO),
         io_Reads := int64_of_uint64 (dct_ReadCount currentIO),
         io_Writes := int64_of_uint64 (dct_WriteCount currentIO),
         io_ReadTime := int64_of_uint64 (dct_ReadTime currentIO),
         io_WriteTime := int64_of_uint64 (dct_WriteTime currentIO),
         io_IOInProgress := int64_of_uint64 (dct_IopsInProgress currentIO),
         io_IOTime := int64_of_uint64 (dct_IoTime currentIO)\<rparr>
      in case prev of
           None \<Rightarrow> ioStats
         | Some prevIO \<Rightarrow>
             if \<not> isFirstCollection then ioStats
               \<lparr>io_ReadBytesPerSec := counter_rate (dct_ReadBytes currentIO) (dct_ReadBytes prevIO) duration,
                io_WriteBytesPerSec := counter_rate (dct_WriteBytes currentIO) (dct_WriteBytes prevIO) duration,
                io_ReadsPerSec := counter_rate (dct_ReadCount currentIO) (dct_ReadCount prevIO) duration,
                io_WritesPerSec := counter_rate (dct_WriteCount currentIO) (dct_WriteCount prevIO) duration\<rparr>
             else ioStats)"

text \<open>
  The name under which a partition's counters are found: an nvme partition goes to its block
  device when that has counters, any partition falls back to its block device.
\<close>

definition io_device_name :: "(string \<rightharpoonup> DiskCounters) \<Rightarrow> string \<Rightarrow> string \<Rightarrow> string" where
  "io_device_name ioCounters ioDeviceName blockDeviceName =
     (let n1 = (if has_prefix ''nvme'' ioDeviceName \<and> ioCounters blockDeviceName \<noteq> None
                then blockDeviceName else ioDeviceName)
      in if ioCounters n1 = None \<and> ioCounters blockDeviceName \<noteq> None then blockDeviceName else n1)"

definition disk_usage_fields :: "DiskMetrics \<Rightarrow> go_error + UsageStat \<Rightarrow> DiskMetrics" where
  "disk_usage_fields dm u =
     (case u of
        Inl err \<Rightarrow> dm
      | Inr usage \<Rightarrow> dm
          \<lparr>dm_Total := int64_of_uint64 (us_Total usage),
           dm_Used := int64_of_uint64 (us_Used usage),
           dm_Free := int64_of_uint64 (us_Free usage),
           dm_UsagePercent := us_UsedPercent usage,
           dm_InodesTotal := int64_of_uint64 (us_InodesTotal usage),
           dm_InodesUsed := int64_of_uint64 (us_InodesUsed usage),
           dm_InodesFree := int64_of_uint64 (us_InodesFree usage)\<rparr>)"

definition disk_metric ::
  "disk_env \<Rightarrow> (string \<rightharpoonup> DiskCounters) \<Rightarrow> (string \<rightharpoonup> DiskCounters) \<Rightarrow> bool \<Rightarrow> f64
   \<Rightarrow> PartitionStat \<Rightarrow> device_cache \<Rightarrow> (DiskMetrics \<times> device_cache) option" where
  "disk_metric env ioCounters prevCounters isFirstCollection duration p cache =
     (let dm = disk_usage_fields (zero_DiskMetrics
            \<lparr>dm_Device := ps_Device p, dm_MountPoint := ps_Mountpoint p,
             dm_FilesystemType := ps_Fstype p, dm_IsSystemDisk := ps_Mountpoint p = ''/'',
             dm_IsPageFileDisk := ps_Fstype p = ''swap''\<rparr>) (de_usage env (ps_Mountpoint p));
          ioDeviceName = path_base (ps_Device p);
          (blockDeviceName, cache1) = getBlockDeviceFromPartition (de_sys_block env) ioDeviceName cache
      in case getDiskInfo env blockDeviceName cache1 of
           None \<Rightarrow> None
         | Some ((modelName, diskType), cache2) \<Rightarrow>
             let dm2 = dm\<lparr>dm_ModelName := modelName, dm_Type := diskType\<rparr>;
                 name = io_device_name ioCounters ioDeviceName blockDeviceName
             in Some (case ioCounters name of
                        None \<Rightarrow> dm2
                      | Some currentIO \<Rightarrow> dm2\<lparr>dm_IOStats := disk_io_stats currentIO
                          (prevCounters name) isFirstCollection duration\<rparr>,
                      cache2))"

fun disk_metrics_loop ::
  "(PartitionStat \<Rightarrow> device_cache \<Rightarrow> (DiskMetrics \<times> device_cache) option) \<Rightarrow> PartitionStat list
   \<Rightarrow> device_cache \<Rightarrow> (DiskMetrics list \<times> device_cache) option" where
  "disk_metrics_loop body [] cache = Some ([], cache)"
| "disk_metrics_loop body (p # ps) cache =
     (if ps_Fstype p \<in> set ignoredFSTypes then disk_metrics_loop body ps cache
      else (case body p cache of
              None \<Rightarrow> None
            | Some (dm, cache') \<Rightarrow>
                (case disk_metrics_loop body ps cache' of
                   None \<Rightarrow> None
                 | Some (dms, cache'') \<Rightarrow> Some (dm # dms, cache''))))"

definition disk_duration :: "disk_env \<Rightarrow> instant \<Rightarrow> f64" where
  "disk_duration env prevTime =
     (let duration = (if is_zero_time prevTime then 0
                      else dur_to_seconds (time_sub (de_since_time env) prevTime))
      in if duration \<le> 0 then 1 else duration)"

definition collectDiskMetrics ::
  "disk_env \<Rightarrow> disk_state \<Rightarrow> ((go_error + DiskMetrics slice) \<times> disk_state) outcome" where
  "collectDiskMetrics env s =
     (case s of (c, cache) \<Rightarrow>
        (case de_partitions env of
           Inl err \<Rightarrow> Return (Inl err, s)
         | Inr partitions \<Rightarrow>
             let ioCounters = (case de_io_counters env of Inl err \<Rightarrow> Map.empty | Inr m \<Rightarrow> m);
                 c' = c\<lparr>dk_prevIOCounters := ioCounters, dk_prevTime := de_prev_time env\<rparr>;
                 body = disk_metric env ioCounters (dk_prevIOCounters c) (is_zero_time (dk_prevTime c))
                   (disk_duration env (dk_prevTime c))
             in obind (outcome_of_option (disk_metrics_loop body partitions cache))
                  (\<lambda>(dms, cache'). Return (Inr (slice_of_appends dms), (c', cache')))))"

section \<open>Cache and background collection\<close>

definition disk_store :: "instant \<Rightarrow> DiskMetrics slice \<Rightarrow> disk_state \<Rightarrow> disk_state" where
  "disk_store t metrics s = (case s of (c, cache) \<Rightarrow>
     (c\<lparr>dk_cachedMetrics := metrics, dk_cachedTime := t\<rparr>, cache))"

definition disk_collectAndCache :: "disk_env \<Rightarrow> disk_state \<Rightarrow> disk_state outcome" where
  "disk_collectAndCache env s =
     obind (collectDiskMetrics env s)
       (\<lambda>(r, s'). Return (case r of Inr metrics \<Rightarrow> disk_store (de_store_time env) metrics s' | Inl err \<Rightarrow> s'))"

definition disk_isCacheValid :: "instant \<Rightarrow> disk_state \<Rightarrow> bool" where
  "disk_isCacheValid now s = (case s of (c, cache) \<Rightarrow>
     time_sub now (dk_cachedTime c) < dk_cacheDuration c \<and> 0 < slice_len (dk_cachedMetrics c))"

definition disk_Collect ::
  "disk_env \<Rightarrow> disk_state \<Rightarrow> ((go_error + DiskMetrics slice) \<times> disk_state) outcome" where
  "disk_Collect env s =
     (if disk_isCacheValid (de_check_time env) s then Return (Inr (dk_cachedMetrics (fst s)), s)
      else obind (collectDiskMetrics env s)
        (\<lambda>(r, s'). Return (case r of
             Inl err \<Rightarrow> (Inl err, s')
           | Inr metrics \<Rightarrow> (Inr metrics, disk_store (de_store_time env) metrics s'))))"

text \<open>
  \<open>startBackgroundCollection\<close> answers whether it started a goroutine, whose first actions are
  \<open>disk_background\<close>: one collection, then the ticker. Each tick is a \<open>collectAndCache\<close>.
\<close>

definition disk_startBackgroundCollection :: "DiskCollector \<Rightarrow> DiskCollector \<times> bool" where
  "disk_startBackgroundCollection c =
     (if dk_backgroundRunning c then (c, False) else (c\<lparr>dk_backgroundRunning := True\<rparr>, True))"

definition disk_background :: "disk_env \<Rightarrow> disk_state \<Rightarrow> disk_state outcome" where
  "disk_background env s =
     obind (disk_collectAndCache env s)
       (\<lambda>s'. obind (new_ticker (dk_updateFrequency (fst s'))) (\<lambda>_. Return s'))"

definition NewDiskCollector :: "DiskCollectorSettings \<Rightarrow> DiskCollector \<times> bool" where
  "NewDiskCollector cfg = disk_startBackgroundCollection
     \<lparr>dk_cachedMetrics = None, dk_cachedTime = zero_time,
      dk_cacheDuration = dur_seconds (disk_CacheDurationSeconds cfg),
      dk_updateFrequency = dur_seconds (disk_UpdateFrequencySeconds cfg),
      dk_backgroundRunning = False, dk_prevIOCounters = Map.empty, dk_prevTime = zero_time\<rparr>"


section \<open>Block device lookup\<close>

lemma rev_split:
  "s = rev (dropWhile is_digit (rev s)) @ rev (takeWhile is_digit (rev s))"
  by (metis rev_append rev_rev_ident takeWhile_dropWhile_id)

lemma trailing_digits_run:
  assumes "list_all is_digit ds" "b = [] \<or> \<not> is_digit (last b)"
  shows "takeWhile is_digit (rev (b @ ds)) = rev ds" "dropWhile is_digit (rev (b @ ds)) = rev b"
proof -
  have "\<forall>x \<in> set (rev ds). is_digit x" using assms(1) by (simp add: list_all_iff)
  moreover have "rev b = [] \<or> \<not> is_digit (hd (rev b))" using assms(2) by (simp add: hd_rev)
  ultimately show "takeWhile is_digit (rev (b @ ds)) = rev ds" "dropWhile is_digit (rev (b @ ds)) = rev b"
    unfolding rev_append by (rule takeWhile_run, rule dropWhile_run)
qed

lemma partition_base_eval:
  assumes "list_all is_digit ds" "ds \<noteq> []" "b = [] \<or> \<not> is_digit (last b)"
  shows "partition_base (b @ ds) = (if b \<noteq> [] \<and> last b = CHR ''p'' then butlast b else b)"
  unfolding partition_base_def trailing_digits_run [OF assms(1,3)] using assms(2)
  by (cases b rule: rev_cases) (simp_all add: Let_def)

lemma partition_base_id:
  "s = [] \<or> \<not> is_digit (last s) \<Longrightarrow> partition_base s = s"
  by (cases s rule: rev_cases) (simp_all add: partition_base_def)

text \<open>Every string splits into a part that does not end in a digit and the digits after it.\<close>

lemma split_trailing_digits:
  obtains b ds where "s = b @ ds" "list_all is_digit ds" "b = [] \<or> \<not> is_digit (last b)"
proof
  show "s = rev (dropWhile is_digit (rev s)) @ rev (takeWhile is_digit (rev s))" by (rule rev_split)
  show "list_all is_digit (rev (takeWhile is_digit (rev s)))"
    by (simp add: list_all_iff) (metis set_takeWhileD)
  show "rev (dropWhile is_digit (rev s)) = [] \<or> \<not> is_digit (last (rev (dropWhile is_digit (rev s))))"
    by (cases "dropWhile is_digit (rev s) = []") (simp_all add: last_rev hd_dropWhile)
qed

lemma partition_base_prefix: "\<exists>r. s = partition_base s @ r"
proof -
  obtain b ds where s: "s = b @ ds" "list_all is_digit ds" "b = [] \<or> \<not> is_digit (last b)"
    by (rule split_trailing_digits)
  show ?thesis
  proof (cases "ds = []")
    case True
    with s show ?thesis by (simp add: partition_base_id)
  next
    case False
    have "\<exists>r. b = butlast b @ r" by (cases b rule: rev_cases) auto
    with s partition_base_eval [OF s(2) False s(3)] show ?thesis by (auto, metis append.assoc)
  qed
qed

text \<open>What a lookup answers when nothing is cached.\<close>

definition block_of :: "(string \<Rightarrow> bool) \<Rightarrow> string \<Rightarrow> string" where
  "block_of stat p = fst (getBlockDeviceFromPartition stat p Map.empty)"

definition cache_ok :: "(string \<Rightarrow> bool) \<Rightarrow> device_cache \<Rightarrow> bool" where
  "cache_ok stat cache \<longleftrightarrow> (\<forall>p d. cache p = Some d \<longrightarrow> d = block_of stat p)"

lemma getBlock_miss:
  "cache p = None \<Longrightarrow>
   getBlockDeviceFromPartition stat p cache = (block_of stat p, cache(p \<mapsto> block_of stat p))"
  by (simp add: block_of_def getBlockDeviceFromPartition_def Let_def)

lemma getBlock_hit:
  "cache p = Some d \<Longrightarrow> getBlockDeviceFromPartition stat p cache = (d, cache)"
  by (simp add: getBlockDeviceFromPartition_def)

lemma getBlock_cached:
  assumes "cache_ok stat cache"
  shows "fst (getBlockDeviceFromPartition stat p cache) = block_of stat p
    \<and> cache_ok stat (snd (getBlockDeviceFromPartition stat p cache))"
  using assms by (cases "cache p") (auto simp: getBlock_miss getBlock_hit cache_ok_def)

text \<open>A name with the \<open>dm-\<close> prefix is only ever the answer to itself, whatever was cached when.\<close>

definition dm_ok :: "device_cache \<Rightarrow> bool" where
  "dm_ok cache \<longleftrightarrow> (\<forall>p d. cache p = Some d \<longrightarrow> has_prefix ''dm-'' d \<longrightarrow> d = p)"

lemma dm_ok_empty [simp]: "dm_ok Map.empty"
  by (simp add: dm_ok_def)

lemma getBlock_dm:
  assumes "dm_ok cache" "getBlockDeviceFromPartition stat p cache = (d, cache')"
  shows "dm_ok cache' \<and> (has_prefix ''dm-'' d \<longrightarrow> d = p)"
proof -
  have base: "has_prefix ''dm-'' (partition_base p) \<Longrightarrow> has_prefix ''dm-'' p"
    using partition_base_prefix [of p] by (metis append.assoc has_prefix_iff)
  show ?thesis using assms base
    by (auto simp: getBlockDeviceFromPartition_def dm_ok_def Let_def split: option.splits if_splits)
qed

text \<open>Device-mapper devices are stacked without cycles: some rank decreases from a device to its slaves.\<close>

definition slaves_ranked :: "disk_env \<Rightarrow> (string \<Rightarrow> nat) \<Rightarrow> bool" where
  "slaves_ranked env rank \<longleftrightarrow>
     (\<forall>d s ss. has_prefix ''dm-'' d \<longrightarrow> de_slaves env d = Some (s # ss) \<longrightarrow> rank s < rank d)"

lemma getDiskInfo_returns:
  assumes "slaves_ranked env rank" "dm_ok cache"
  shows "\<exists>m t cache'. getDiskInfo env name cache = Some ((m, t), cache') \<and> dm_ok cache'
    \<and> t \<in> {''SSD'', ''HDD'', ''N/A''}"
  using assms(2)
proof (induction "rank name" arbitrary: name cache rule: less_induct)
  case less
  obtain d cache1 where b: "getBlockDeviceFromPartition (de_sys_block env) name cache = (d, cache1)"
    by fastforce
  note dm = getBlock_dm [OF less.prems b]
  show ?case
  proof (cases "has_prefix ''dm-'' d \<and> (\<exists>s ss. de_slaves env d = Some (s # ss))")
    case True
    then obtain s ss where s: "de_slaves env d = Some (s # ss)" by blast
    with True dm assms(1) have "rank s < rank name" unfolding slaves_ranked_def by blast
    then show ?thesis
      using less.hyps [of s cache1] dm True s b
      by (subst getDiskInfo.simps) simp
  next
    case False
    then show ?thesis using dm b
      by (subst getDiskInfo.simps) (auto simp: Let_def neq_Nil_conv split: option.splits)
  qed
qed

section \<open>Collection\<close>

lemma disk_duration_pos: obtains r where "disk_duration env t = Fin r" "0 < r" "1 / 2 ^ 30 \<le> r"
proof (cases "is_zero_time t")
  case True
  then show ?thesis by (intro that [of 1]) (simp_all add: disk_duration_def f64_ops)
next
  case False
  obtain r where "(if dur_to_seconds (time_sub (de_since_time env) t) \<le> 0 then 1
      else dur_to_seconds (time_sub (de_since_time env) t)) = Fin r" "0 < r" "1 / 2 ^ 30 \<le> r"
    using guarded_seconds [of "time_sub (de_since_time env) t"] by auto
  with False show ?thesis by (intro that [of r]) (simp_all add: disk_duration_def Let_def)
qed

lemma disk_metric_returns:
  assumes "slaves_ranked env rank" "dm_ok cache"
  shows "\<exists>dm cache'. disk_metric env io prev first dur p cache = Some (dm, cache') \<and> dm_ok cache'"
proof -
  obtain d cache1 where b: "getBlockDeviceFromPartition (de_sys_block env) (path_base (ps_Device p)) cache = (d, cache1)"
    by fastforce
  with getBlock_dm [OF assms(2)] have "dm_ok cache1" by blast
  from getDiskInfo_returns [OF assms(1) this] obtain m t cache2
    where "getDiskInfo env d cache1 = Some ((m, t), cache2)" "dm_ok cache2" by blast
  with b show ?thesis by (simp add: disk_metric_def Let_def)
qed

lemma disk_loop_returns:
  assumes "\<And>p cache. dm_ok cache \<Longrightarrow> \<exists>dm cache'. body p cache = Some (dm, cache') \<and> dm_ok cache'"
  shows "dm_ok cache \<Longrightarrow> \<exists>dms cache'. disk_metrics_loop body ps cache = Some (dms, cache') \<and> dm_ok cache'"
proof (induction ps arbitrary: cache)
  case (Cons p ps)
  show ?case
  proof (cases "ps_Fstype p \<in> set ignoredFSTypes")
    case False
    obtain dm cache' where "body p cache = Some (dm, cache')" "dm_ok cache'" using assms Cons.prems by blast
    with Cons.IH [of cache'] False show ?thesis by auto
  qed (use Cons in simp)
qed simp

text \<open>What every metric of a loop satisfies, and which partitions it reports.\<close>

lemma disk_loop_all:
  assumes "\<And>p cache dm cache'. body p cache = Some (dm, cache') \<Longrightarrow> P p dm"
  shows "disk_metrics_loop body ps cache = Some (dms, cache') \<Longrightarrow>
    list_all2 P (filter (\<lambda>p. ps_Fstype p \<notin> set ignoredFSTypes) ps) dms"
  by (induction ps arbitrary: cache dms) (auto split: if_splits option.splits dest: assms)

lemma disk_usage_fields_frame [simp]:
  "dm_Device (disk_usage_fields dm u) = dm_Device dm"
  "dm_MountPoint (disk_usage_fields dm u) = dm_MountPoint dm"
  "dm_FilesystemType (disk_usage_fields dm u) = dm_FilesystemType dm"
  "dm_IsSystemDisk (disk_usage_fields dm u) = dm_IsSystemDisk dm"
  "dm_IOStats (disk_usage_fields dm u) = dm_IOStats dm"
  by (simp_all add: disk_usage_fields_def split: sum.splits)

lemma zero_f64_finite [simp]: "f64_finite 0"
  by (simp add: zero_f64_def)

lemma disk_metric_fields:
  assumes "disk_metric env io prev first dur p cache = Some (dm, cache')"
  shows "dm_Device dm = ps_Device p \<and> dm_MountPoint dm = ps_Mountpoint p
    \<and> dm_FilesystemType dm = ps_Fstype p \<and> (dm_IsSystemDisk dm \<longleftrightarrow> ps_Mountpoint p = ''/'')"
  using assms
  by (auto simp: disk_metric_def Let_def zero_DiskMetrics_def split: prod.splits option.splits)

lemma getDiskInfo_result:
  assumes "getDiskInfo env name cache = Some r" shows "snd (fst r) \<in> {''SSD'', ''HDD'', ''N/A''}"
proof (rule getDiskInfo.raw_induct [OF _ assms])
  fix f e n c r
  assume "\<And>e n c r. f e n c = Some r \<Longrightarrow> snd (fst r) \<in> {''SSD'', ''HDD'', ''N/A''}"
    and "(let (baseDeviceName, cache') = getBlockDeviceFromPartition (de_sys_block e) n c;
          files = (if has_prefix ''dm-'' baseDeviceName then de_slaves e baseDeviceName else None);
          modelName = (case de_model e baseDeviceName of
             None \<Rightarrow> ''N/A'' | Some modelBytes \<Rightarrow> trim_space modelBytes);
          diskType = (case de_rotational e baseDeviceName of
             None \<Rightarrow> ''N/A''
           | Some rotationalBytes \<Rightarrow>
               let rotational = trim_space rotationalBytes
               in if rotational = ''0'' then ''SSD'' else if rotational = ''1'' then ''HDD'' else ''N/A'')
      in if files \<noteq> None \<and> the files \<noteq> [] then f e (hd (the files)) cache'
         else Some ((modelName, diskType), cache')) = Some r"
  then show "snd (fst r) \<in> {''SSD'', ''HDD'', ''N/A''}"
    by (auto simp: Let_def split: prod.splits if_splits option.splits)
qed

lemma getDiskInfo_type:
  "getDiskInfo env name cache = Some ((m, t), cache') \<Longrightarrow> t \<in> {''SSD'', ''HDD'', ''N/A''}"
  by (drule getDiskInfo_result) simp

lemma disk_metric_type:
  assumes "disk_metric env io prev first dur p cache = Some (dm, cache')"
  shows "dm_Type dm \<in> {''SSD'', ''HDD'', ''N/A''}"
  using assms
  by (auto simp: disk_metric_def Let_def split: prod.splits option.splits dest: getDiskInfo_type)

lemma disk_io_stats_finite:
  assumes "1 / 2 ^ 30 \<le> r" shows "json_ok (json_DiskIOStats (disk_io_stats c prev first (Fin r)))"
  using counter_rate_finite [OF assms]
  by (auto simp: json_DiskIOStats_def disk_io_stats_def zero_DiskIOStats_def Let_def split: option.splits)

lemma disk_metric_json_ok:
  assumes "disk_metric env io prev first dur p cache = Some (dm, cache')"
    and "dur = Fin r" "1 / 2 ^ 30 \<le> r"
    and "\<And>u. de_usage env (ps_Mountpoint p) = Inr u \<Longrightarrow> f64_finite (us_UsedPercent u)"
  shows "json_ok (json_DiskMetrics dm)"
proof -
  have z: "json_ok (json_DiskIOStats zero_DiskIOStats)"
    by (simp add: json_DiskIOStats_def zero_DiskIOStats_def)
  have u: "f64_finite (dm_UsagePercent (disk_usage_fields d (de_usage env (ps_Mountpoint p))))"
    if "f64_finite (dm_UsagePercent d)" for d
    using assms(4) that by (auto simp: disk_usage_fields_def split: sum.splits)
  show ?thesis
    using assms(1) unfolding disk_metric_def Let_def assms(2)
    by (auto simp: json_DiskMetrics_def z u disk_io_stats_finite [OF assms(3)]
        zero_DiskMetrics_def split: prod.splits option.splits)
qed

definition disk_rates_nonneg :: "DiskMetrics \<Rightarrow> bool" where
  "disk_rates_nonneg dm \<longleftrightarrow> 0 \<le> io_ReadBytesPerSec (dm_IOStats dm) \<and> 0 \<le> io_WriteBytesPerSec (dm_IOStats dm)
     \<and> 0 \<le> io_ReadsPerSec (dm_IOStats dm) \<and> 0 \<le> io_WritesPerSec (dm_IOStats dm)"

lemma disk_metric_rates_nonneg:
  assumes "disk_metric env io prev first dur p cache = Some (dm, cache')" "dur = Fin r" "0 < r"
  shows "disk_rates_nonneg dm"
  using assms counter_rate_nonneg [OF assms(3)]
  by (auto simp: disk_metric_def disk_rates_nonneg_def Let_def disk_io_stats_def zero_DiskMetrics_def
      zero_DiskIOStats_def f64_zero_le_zero split: prod.splits option.splits)

lemma collectDiskMetrics_ok:
  assumes "collectDiskMetrics env (c, cache) = Return (Inr ms, s')"
  obtains parts io dms cache' where "de_partitions env = Inr parts"
    "disk_metrics_loop (disk_metric env io (dk_prevIOCounters c) (is_zero_time (dk_prevTime c))
       (disk_duration env (dk_prevTime c))) parts cache = Some (dms, cache')"
    "ms = slice_of_appends dms"
    "s' = (c\<lparr>dk_prevIOCounters := io, dk_prevTime := de_prev_time env\<rparr>, cache')"
    "io = (case de_io_counters env of Inl err \<Rightarrow> Map.empty | Inr m \<Rightarrow> m)"
proof -
  let ?io = "case de_io_counters env of Inl err \<Rightarrow> Map.empty | Inr m \<Rightarrow> m"
  from assms obtain parts where p: "de_partitions env = Inr parts"
    by (auto simp: collectDiskMetrics_def split: sum.splits)
  then obtain dms cache' where l: "disk_metrics_loop (disk_metric env ?io (dk_prevIOCounters c)
      (is_zero_time (dk_prevTime c)) (disk_duration env (dk_prevTime c))) parts cache = Some (dms, cache')"
    and "ms = slice_of_appends dms"
      "s' = (c\<lparr>dk_prevIOCounters := ?io, dk_prevTime := de_prev_time env\<rparr>, cache')"
    using assms
    by (auto simp: collectDiskMetrics_def Let_def outcome_of_option_def split: option.splits)
  with p show ?thesis by (intro that [where io = ?io]) auto
qed

section \<open>The cache contract\<close>

definition disk_inv :: "disk_state \<Rightarrow> bool" where
  "disk_inv s \<longleftrightarrow> int64_range (dk_cacheDuration (fst s))"

lemma collectDiskMetrics_frame:
  assumes "collectDiskMetrics env s = Return (r, s')"
  shows "dk_cachedMetrics (fst s') = dk_cachedMetrics (fst s) \<and> dk_cachedTime (fst s') = dk_cachedTime (fst s)
    \<and> dk_cacheDuration (fst s') = dk_cacheDuration (fst s) \<and> dk_updateFrequency (fst s') = dk_updateFrequency (fst s)"
  using assms
  by (cases s) (auto simp: collectDiskMetrics_def Let_def outcome_of_option_def split: sum.splits option.splits)

interpretation disk: standard_collector disk_isCacheValid "\<lambda>s. dk_cachedMetrics (fst s)"
  "\<lambda>s. dk_cachedTime (fst s)" "\<lambda>s. dk_cacheDuration (fst s)" collectDiskMetrics disk_store
  disk_Collect disk_collectAndCache de_check_time de_store_time disk_inv "\<lambda>m s. 0 < slice_len m"
  by unfold_locales
    (auto simp: disk_isCacheValid_def disk_inv_def disk_store_def disk_Collect_def disk_collectAndCache_def
      dest!: collectDiskMetrics_frame split: prod.splits)

section \<open>Properties\<close>

text \<open>The strings the pattern \<open>p?\d+\<close> matches.\<close>

definition partition_match :: "string \<Rightarrow> bool" where
  "partition_match t =
     (t \<noteq> [] \<and> (list_all is_digit t \<or> (hd t = CHR ''p'' \<and> tl t \<noteq> [] \<and> list_all is_digit (tl t))))"

lemma partition_match_last: "partition_match t \<Longrightarrow> is_digit (last t)"
  by (cases t) (auto simp: partition_match_def list_all_iff split: if_splits)

lemma partition_match_digits:
  assumes "list_all is_digit ds" "ds \<noteq> []" "b = [] \<or> \<not> is_digit (last b)" "j \<le> length b"
    and "partition_match (drop j b @ ds)"
  shows "drop j b = [] \<or> drop j b = ''p''"
proof (rule ccontr)
  assume n: "\<not> ?thesis"
  then have j: "j < length b" by (cases "j < length b") auto
  then have last: "last (drop j b) = last b" "b \<noteq> []" by auto
  with assms(3) have nd: "\<not> is_digit (last (drop j b))" by simp
  obtain x xs where x: "drop j b = x # xs" using n by (cases "drop j b") auto
  show False
  proof (cases "xs = []")
    case True
    with assms(5) nd x n show False by (auto simp: partition_match_def)
  next
    case False
    with assms(5) nd x show False by (auto simp: partition_match_def list_all_iff)
  qed
qed

text \<open>
  C26. The base name of a partition is what the regular expression \<open>p?\d+$\<close> leaves: the text
  before its leftmost match, or the whole name when it does not match.
\<close>

theorem partition_base_regex:
  "(partition_base s = s \<and> (\<forall>i \<le> length s. \<not> partition_match (drop i s))) \<or>
   (\<exists>i \<le> length s. partition_match (drop i s) \<and> (\<forall>j < i. \<not> partition_match (drop j s))
      \<and> partition_base s = take i s)"
proof -
  obtain b ds where s: "s = b @ ds" "list_all is_digit ds" "b = [] \<or> \<not> is_digit (last b)"
    by (rule split_trailing_digits)
  show ?thesis
  proof (cases "ds = []")
    case True
    have "\<not> partition_match (drop i s)" for i
    proof
      assume m: "partition_match (drop i s)"
      then have "drop i s \<noteq> []" by (auto simp: partition_match_def)
      with partition_match_last [OF m] s True show False by (cases "i < length b") auto
    qed
    with s True show ?thesis by (simp add: partition_base_id)
  next
    case False
    note eval = partition_base_eval [OF s(2) False s(3)]
    note only = partition_match_digits [OF s(2) False s(3)]
    show ?thesis
    proof (cases "b \<noteq> [] \<and> last b = CHR ''p''")
      case True
      then obtain b' where b: "b = b' @ ''p''" by (cases b rule: rev_cases) auto
      have "\<not> partition_match (drop j s)" if "j < length b'" for j
        using only [of j] that b s(1) by (auto simp: append_eq_Cons_conv drop_eq_Nil)
      moreover have "partition_match (drop (length b') s)"
        using b s False by (simp add: partition_match_def)
      ultimately show ?thesis using eval True b s(1)
        by (intro disjI2 exI [of _ "length b'"]) simp
    next
      case n: False
      have "\<not> partition_match (drop j s)" if j: "j < length b" for j
      proof
        assume "partition_match (drop j s)"
        with only [of j] j s(1) have "drop j b = ''p''" by auto
        with j have "last b = CHR ''p''" by (metis last_drop last.simps)
        with n j show False by auto
      qed
      moreover have "partition_match (drop (length b) s)" using s False by (simp add: partition_match_def)
      ultimately show ?thesis using eval n s(1)
        by (intro disjI2 exI [of _ "length b"]) simp
    qed
  qed
qed

lemma partition_base_regex_witness:
  "\<exists>i. partition_match (drop i ''nvme0n1p2'') \<and> partition_base ''nvme0n1p2'' = take i ''nvme0n1p2''"
proof -
  have "partition_match (drop 7 ''nvme0n1p2'')" by (simp add: partition_match_def is_digit_def)
  then have "\<not> (\<forall>i \<le> length ''nvme0n1p2''. \<not> partition_match (drop i ''nvme0n1p2''))" by force
  with partition_base_regex [of "''nvme0n1p2''"] show ?thesis by blast
qed

text \<open>
  C23. A collection over an acyclic device-mapper hierarchy terminates and reports exactly the
  partitions whose file system is not ignored, in the order gopsutil lists them, each with its own
  device, mount point and file system type and a disk type of SSD, HDD or N/A, whatever usage
  figures, counters or \<open>/sys\<close> files are missing; the counters read become the previous ones.
\<close>

theorem disk_collect_reports:
  assumes "slaves_ranked env rank" "dm_ok cache" "de_partitions env = Inr parts"
  shows "\<exists>dms cache'. collectDiskMetrics env (c, cache) = Return (Inr (slice_of_appends dms),
      (c\<lparr>dk_prevIOCounters := (case de_io_counters env of Inl err \<Rightarrow> Map.empty | Inr m \<Rightarrow> m),
         dk_prevTime := de_prev_time env\<rparr>, cache'))
    \<and> dm_ok cache'
    \<and> list_all2 (\<lambda>p dm. dm_Device dm = ps_Device p \<and> dm_MountPoint dm = ps_Mountpoint p
        \<and> dm_FilesystemType dm = ps_Fstype p \<and> (dm_IsSystemDisk dm \<longleftrightarrow> ps_Mountpoint p = ''/'')
        \<and> dm_Type dm \<in> {''SSD'', ''HDD'', ''N/A''})
      (filter (\<lambda>p. ps_Fstype p \<notin> set ignoredFSTypes) parts) dms"
proof -
  let ?body = "disk_metric env (case de_io_counters env of Inl err \<Rightarrow> Map.empty | Inr m \<Rightarrow> m)
    (dk_prevIOCounters c) (is_zero_time (dk_prevTime c)) (disk_duration env (dk_prevTime c))"
  obtain dms cache' where l: "disk_metrics_loop ?body parts cache = Some (dms, cache')" "dm_ok cache'"
    using disk_loop_returns [of ?body, OF disk_metric_returns [OF assms(1)] assms(2)] by blast
  have "list_all2 (\<lambda>p dm. dm_Device dm = ps_Device p \<and> dm_MountPoint dm = ps_Mountpoint p
        \<and> dm_FilesystemType dm = ps_Fstype p \<and> (dm_IsSystemDisk dm \<longleftrightarrow> ps_Mountpoint p = ''/'')
        \<and> dm_Type dm \<in> {''SSD'', ''HDD'', ''N/A''})
      (filter (\<lambda>p. ps_Fstype p \<notin> set ignoredFSTypes) parts) dms"
  proof (rule disk_loop_all [where body = ?body, OF _ l(1)])
    fix p cache1 dm cache2
    assume "?body p cache1 = Some (dm, cache2)"
    then show "dm_Device dm = ps_Device p \<and> dm_MountPoint dm = ps_Mountpoint p
        \<and> dm_FilesystemType dm = ps_Fstype p \<and> (dm_IsSystemDisk dm \<longleftrightarrow> ps_Mountpoint p = ''/'')
        \<and> dm_Type dm \<in> {''SSD'', ''HDD'', ''N/A''}"
      using disk_metric_fields disk_metric_type by blast
  qed
  with l assms(3) show ?thesis by (auto simp: collectDiskMetrics_def Let_def)
qed

text \<open>A machine with one disk and one mounted partition, for concrete runs.\<close>

definition sample_counters :: DiskCounters where
  "sample_counters = \<lparr>dct_ReadBytes = 4096, dct_WriteBytes = 0, dct_ReadCount = 1, dct_WriteCount = 0,
     dct_ReadTime = 0, dct_WriteTime = 0, dct_IopsInProgress = 0, dct_IoTime = 0\<rparr>"

definition sample_disk_env :: "instant \<Rightarrow> disk_env" where
  "sample_disk_env t = \<lparr>de_check_time = t,
     de_partitions = Inr [\<lparr>ps_Device = ''/dev/sda1'', ps_Mountpoint = ''/'', ps_Fstype = ''ext4''\<rparr>,
       \<lparr>ps_Device = ''tmpfs'', ps_Mountpoint = ''/tmp'', ps_Fstype = ''tmpfs''\<rparr>],
     de_io_counters = Inr [''sda1'' \<mapsto> sample_counters], de_prev_time = t, de_since_time = t,
     de_usage = (\<lambda>m. Inl (ErrExt ''no usage'')), de_sys_block = (\<lambda>n. n = ''sda''),
     de_slaves = (\<lambda>n. None), de_model = (\<lambda>n. None), de_rotational = (\<lambda>n. Some ''0''),
     de_store_time = t\<rparr>"

lemma sample_disk_times [simp]:
  "de_check_time (sample_disk_env t) = t" "de_store_time (sample_disk_env t) = t"
  by (simp_all add: sample_disk_env_def)

lemma sample_ranked: "slaves_ranked (sample_disk_env t) (\<lambda>_. 0)"
  by (simp add: slaves_ranked_def sample_disk_env_def)

lemma disk_collect_reports_witness:
  "\<exists>dms c' cache'. collectDiskMetrics (sample_disk_env 0) (fst (NewDiskCollector (cs_Disk (cfg_Collectors DefaultConfig))), Map.empty)
     = Return (Inr (slice_of_appends dms), (c', cache')) \<and> length dms = 1"
  using disk_collect_reports [OF sample_ranked dm_ok_empty, of 0 _ "fst (NewDiskCollector (cs_Disk (cfg_Collectors DefaultConfig)))"]
  by (fastforce simp: sample_disk_env_def ignoredFSTypes_def dest: list_all2_lengthD)

lemma sample_disk_collects:
  "\<exists>dms s'. collectDiskMetrics (sample_disk_env t) (c, Map.empty) = Return (Inr (slice_of_appends dms), s')
     \<and> length dms = 1"
proof -
  let ?io = "[''sda1'' \<mapsto> sample_counters]"
  obtain dms cache' where l: "disk_metrics_loop (disk_metric (sample_disk_env t) ?io (dk_prevIOCounters c)
      (is_zero_time (dk_prevTime c)) (disk_duration (sample_disk_env t) (dk_prevTime c)))
      [\<lparr>ps_Device = ''/dev/sda1'', ps_Mountpoint = ''/'', ps_Fstype = ''ext4''\<rparr>,
       \<lparr>ps_Device = ''tmpfs'', ps_Mountpoint = ''/tmp'', ps_Fstype = ''tmpfs''\<rparr>] Map.empty = Some (dms, cache')"
    by (metis disk_loop_returns disk_metric_returns dm_ok_empty sample_ranked)
  from disk_loop_all [where P = "\<lambda>_ _. True", OF _ this] have "length dms = 1"
    by (auto simp: ignoredFSTypes_def dest: list_all2_lengthD)
  with l show ?thesis by (auto simp: collectDiskMetrics_def sample_disk_env_def)
qed

text \<open>
  Every disk metric of a successful collection can be serialised, provided gopsutil's usage
  percentages are finite: no rate is infinite or a NaN, whatever the clock and the counters did
  between two collections, and no rate is negative.
\<close>

theorem disk_metrics_serialisable:
  assumes "collectDiskMetrics env s = Return (Inr ms, s')"
    and "\<And>m u. de_usage env m = Inr u \<Longrightarrow> f64_finite (us_UsedPercent u)"
  shows "json_marshal (json_slice json_DiskMetrics ms) = Inr (json_slice json_DiskMetrics ms)
    \<and> list_all (\<lambda>dm. 0 \<le> io_ReadBytesPerSec (dm_IOStats dm) \<and> 0 \<le> io_WriteBytesPerSec (dm_IOStats dm)
        \<and> 0 \<le> io_ReadsPerSec (dm_IOStats dm) \<and> 0 \<le> io_WritesPerSec (dm_IOStats dm)) (slice_list ms)"
proof -
  obtain c cache where s: "s = (c, cache)" by fastforce
  obtain parts io dms cache' where l: "disk_metrics_loop (disk_metric env io (dk_prevIOCounters c)
      (is_zero_time (dk_prevTime c)) (disk_duration env (dk_prevTime c))) parts cache = Some (dms, cache')"
    and ms: "ms = slice_of_appends dms"
    by (rule collectDiskMetrics_ok [OF assms(1) [unfolded s]])
  obtain r where r: "disk_duration env (dk_prevTime c) = Fin r" "0 < r" "1 / 2 ^ 30 \<le> r"
    by (rule disk_duration_pos)
  have "list_all2 (\<lambda>p dm. json_ok (json_DiskMetrics dm) \<and> disk_rates_nonneg dm)
      (filter (\<lambda>p. ps_Fstype p \<notin> set ignoredFSTypes) parts) dms"
  proof (rule disk_loop_all [OF _ l])
    fix p cache1 dm cache2
    assume m: "disk_metric env io (dk_prevIOCounters c) (is_zero_time (dk_prevTime c))
      (disk_duration env (dk_prevTime c)) p cache1 = Some (dm, cache2)"
    show "json_ok (json_DiskMetrics dm) \<and> disk_rates_nonneg dm"
      using disk_metric_json_ok [OF m r(1,3)] disk_metric_rates_nonneg [OF m r(1,2)] assms(2) by blast
  qed
  then show ?thesis unfolding ms
    by (simp add: json_marshal_def list_all2_conv_all_nth list_all_length disk_rates_nonneg_def)
qed

lemma disk_metrics_serialisable_witness:
  "\<exists>ms s'. collectDiskMetrics (sample_disk_env 0) (fst (NewDiskCollector (cs_Disk (cfg_Collectors DefaultConfig))), Map.empty) = Return (Inr ms, s')
    \<and> json_marshal (json_slice json_DiskMetrics ms) = Inr (json_slice json_DiskMetrics ms)"
proof -
  obtain dms s' where "collectDiskMetrics (sample_disk_env 0) (fst (NewDiskCollector (cs_Disk (cfg_Collectors DefaultConfig))), Map.empty)
      = Return (Inr (slice_of_appends dms), s')"
    using sample_disk_collects by blast
  from disk_metrics_serialisable [OF this] this show ?thesis by (auto simp: sample_disk_env_def)
qed

text \<open>A metric's rates between two readings of the counters, by the name they are kept under.\<close>

definition wrapped_rate :: "uint64 \<Rightarrow> uint64 \<Rightarrow> f64 \<Rightarrow> f64" where
  "wrapped_rate cur prev secs =
     (if uint prev \<le> uint cur then f64_of_int (uint cur - uint prev) / secs
      else f64_of_int (2 ^ 64 - (uint prev - uint cur)) / secs)"

definition disk_rates_zero :: "DiskMetrics \<Rightarrow> bool" where
  "disk_rates_zero dm \<longleftrightarrow> io_ReadBytesPerSec (dm_IOStats dm) = 0 \<and> io_WriteBytesPerSec (dm_IOStats dm) = 0
     \<and> io_ReadsPerSec (dm_IOStats dm) = 0 \<and> io_WritesPerSec (dm_IOStats dm) = 0"

definition rates_between ::
  "(string \<rightharpoonup> DiskCounters) \<Rightarrow> (string \<rightharpoonup> DiskCounters) \<Rightarrow> f64 \<Rightarrow> string \<Rightarrow> DiskMetrics \<Rightarrow> bool" where
  "rates_between io0 io1 secs name dm \<longleftrightarrow>
     (case (io0 name, io1 name) of
        (Some prev, Some cur) \<Rightarrow>
          io_ReadBytesPerSec (dm_IOStats dm) = wrapped_rate (dct_ReadBytes cur) (dct_ReadBytes prev) secs
          \<and> io_WriteBytesPerSec (dm_IOStats dm) = wrapped_rate (dct_WriteBytes cur) (dct_WriteBytes prev) secs
          \<and> io_ReadsPerSec (dm_IOStats dm) = wrapped_rate (dct_ReadCount cur) (dct_ReadCount prev) secs
          \<and> io_WritesPerSec (dm_IOStats dm) = wrapped_rate (dct_WriteCount cur) (dct_WriteCount prev) secs
      | _ \<Rightarrow> disk_rates_zero dm)"

lemma counter_rate_wrapped: "counter_rate cur prev secs = wrapped_rate cur prev secs"
  by (simp add: wrapped_rate_def counter_rate_forward counter_rate_reset)

text \<open>A partition is kept under its own name or under its base name, which the cache of devices respects.\<close>

definition devices_ok :: "device_cache \<Rightarrow> bool" where
  "devices_ok cache \<longleftrightarrow> (\<forall>p d. cache p = Some d \<longrightarrow> d = p \<or> d = partition_base p)"

lemma getBlock_devices:
  assumes "devices_ok cache" "getBlockDeviceFromPartition stat p cache = (d, cache')"
  shows "devices_ok cache' \<and> (d = p \<or> d = partition_base p)"
proof -
  have "devices_ok (cache(p \<mapsto> e))" if "e = p \<or> e = partition_base p" for e
    using assms(1) that by (simp add: devices_ok_def)
  moreover have "e = p \<or> e = partition_base p" if "cache p = Some e" for e
    using assms(1) that by (simp add: devices_ok_def)
  ultimately show ?thesis
    using assms by (auto simp: getBlockDeviceFromPartition_def Let_def split: option.splits if_splits)
qed

lemma getDiskInfo_devices_all:
  assumes "getDiskInfo env name cache = Some r" shows "devices_ok cache \<longrightarrow> devices_ok (snd r)"
proof (rule getDiskInfo.raw_induct [OF _ assms])
  fix f e n c r
  assume "\<And>e n c r. f e n c = Some r \<Longrightarrow> devices_ok c \<longrightarrow> devices_ok (snd r)"
    and "(let (baseDeviceName, cache') = getBlockDeviceFromPartition (de_sys_block e) n c;
          files = (if has_prefix ''dm-'' baseDeviceName then de_slaves e baseDeviceName else None);
          modelName = (case de_model e baseDeviceName of
             None \<Rightarrow> ''N/A'' | Some modelBytes \<Rightarrow> trim_space modelBytes);
          diskType = (case de_rotational e baseDeviceName of
             None \<Rightarrow> ''N/A''
           | Some rotationalBytes \<Rightarrow>
               let rotational = trim_space rotationalBytes
               in if rotational = ''0'' then ''SSD'' else if rotational = ''1'' then ''HDD'' else ''N/A'')
      in if files \<noteq> None \<and> the files \<noteq> [] then f e (hd (the files)) cache'
         else Some ((modelName, diskType), cache')) = Some r"
  moreover obtain d c' where b: "getBlockDeviceFromPartition (de_sys_block e) n c = (d, c')" by fastforce
  moreover have "devices_ok c \<Longrightarrow> devices_ok c'" using getBlock_devices [OF _ b] by blast
  ultimately show "devices_ok c \<longrightarrow> devices_ok (snd r)"
    by (auto simp: Let_def split: if_splits)
qed

lemma getDiskInfo_devices: "getDiskInfo env name cache = Some (r, cache') \<Longrightarrow> devices_ok cache \<Longrightarrow> devices_ok cache'"
  by (drule getDiskInfo_devices_all) simp

text \<open>The metric of a partition, with the readings before and at its collection.\<close>

definition partition_rates ::
  "(string \<rightharpoonup> DiskCounters) \<Rightarrow> (string \<rightharpoonup> DiskCounters) \<Rightarrow> f64 \<Rightarrow> PartitionStat \<Rightarrow> DiskMetrics \<Rightarrow> bool" where
  "partition_rates io0 io1 secs p dm \<longleftrightarrow>
     (let part = path_base (ps_Device p)
      in rates_between io0 io1 secs (io_device_name io1 part part) dm
         \<or> rates_between io0 io1 secs (io_device_name io1 part (partition_base part)) dm)"

lemma disk_metric_rates:
  assumes "disk_metric env io1 io0 first secs p cache = Some (dm, cache')" "devices_ok cache"
  shows "devices_ok cache' \<and> (if first then disk_rates_zero dm else partition_rates io0 io1 secs p dm)"
proof -
  obtain blk c1 where b: "getBlockDeviceFromPartition (de_sys_block env) (path_base (ps_Device p)) cache = (blk, c1)"
    by fastforce
  note blk = getBlock_devices [OF assms(2) b]
  let ?name = "io_device_name io1 (path_base (ps_Device p)) blk"
  obtain m t where g: "getDiskInfo env blk c1 = Some ((m, t), cache')"
    using assms(1) by (auto simp: disk_metric_def b Let_def split: option.splits)
  have z: "disk_rates_zero (dm'\<lparr>dm_ModelName := m, dm_Type := t\<rparr>)" if "dm_IOStats dm' = zero_DiskIOStats" for dm'
    using that by (simp add: disk_rates_zero_def zero_DiskIOStats_def)
  have "if first then disk_rates_zero dm else rates_between io0 io1 secs ?name dm"
  proof (cases "io1 ?name")
    case None
    then have "disk_rates_zero dm" using assms(1)
      by (auto simp: disk_metric_def b g Let_def zero_DiskMetrics_def intro!: z)
    then show ?thesis by (simp add: rates_between_def None split: option.split)
  next
    case (Some cur)
    then have "dm_IOStats dm = disk_io_stats cur (io0 ?name) first secs"
      using assms(1) by (auto simp: disk_metric_def b g Let_def)
    then show ?thesis using Some
      by (auto simp: rates_between_def disk_rates_zero_def disk_io_stats_def zero_DiskIOStats_def Let_def
          counter_rate_wrapped split: option.split)
  qed
  then show ?thesis using blk getDiskInfo_devices [OF g] by (auto simp: partition_rates_def Let_def)
qed

lemma disk_loop_rates:
  "disk_metrics_loop (disk_metric env io1 io0 first secs) ps cache = Some (dms, cache') \<Longrightarrow> devices_ok cache \<Longrightarrow>
   devices_ok cache' \<and> list_all2 (\<lambda>p dm. if first then disk_rates_zero dm else partition_rates io0 io1 secs p dm)
     (filter (\<lambda>p. ps_Fstype p \<notin> set ignoredFSTypes) ps) dms"
proof (induction ps arbitrary: cache dms)
  case (Cons p ps)
  show ?case
  proof (cases "ps_Fstype p \<in> set ignoredFSTypes")
    case False
    with Cons.prems(1) obtain dm c1 dms1 where l: "disk_metric env io1 io0 first secs p cache = Some (dm, c1)"
      "disk_metrics_loop (disk_metric env io1 io0 first secs) ps c1 = Some (dms1, cache')" "dms = dm # dms1"
      by (auto split: option.splits)
    show ?thesis using disk_metric_rates [OF l(1) Cons.prems(2)] Cons.IH [OF l(2)] False l(3) by simp
  qed (use Cons in simp)
qed simp

definition read_counters :: "disk_env \<Rightarrow> string \<rightharpoonup> DiskCounters" where
  "read_counters env = (case de_io_counters env of Inl err \<Rightarrow> Map.empty | Inr m \<Rightarrow> m)"

lemma collectDiskMetrics_rates:
  assumes "collectDiskMetrics env (c, devices) = Return (Inr ms, s')" "devices_ok devices"
  obtains devices' where "s' = (c\<lparr>dk_prevIOCounters := read_counters env, dk_prevTime := de_prev_time env\<rparr>, devices')"
    "devices_ok devices'"
    "list_all2 (\<lambda>p dm. if is_zero_time (dk_prevTime c) then disk_rates_zero dm
        else partition_rates (dk_prevIOCounters c) (read_counters env) (disk_duration env (dk_prevTime c)) p dm)
      (filter (\<lambda>p. ps_Fstype p \<notin> set ignoredFSTypes) (case de_partitions env of Inl err \<Rightarrow> [] | Inr ps \<Rightarrow> ps))
      (slice_list ms)"
proof (rule collectDiskMetrics_ok [OF assms(1)])
  fix parts io dms cache'
  assume a: "de_partitions env = Inr parts"
    "disk_metrics_loop (disk_metric env io (dk_prevIOCounters c) (is_zero_time (dk_prevTime c))
       (disk_duration env (dk_prevTime c))) parts devices = Some (dms, cache')"
    "ms = slice_of_appends dms"
    "s' = (c\<lparr>dk_prevIOCounters := io, dk_prevTime := de_prev_time env\<rparr>, cache')"
    "io = (case de_io_counters env of Inl err \<Rightarrow> Map.empty | Inr m \<Rightarrow> m)"
  have io: "io = read_counters env" using a(5) by (simp add: read_counters_def)
  note l = disk_loop_rates [OF a(2) assms(2), unfolded io]
  show thesis
  proof (rule that [of cache'])
    show "s' = (c\<lparr>dk_prevIOCounters := read_counters env, dk_prevTime := de_prev_time env\<rparr>, cache')"
      using a(4) by (simp add: io)
  qed (use l in \<open>simp_all add: a(1,3) split del: if_split\<close>)
qed

text \<open>
  C25. What the rates mean over two collections in a row: the first of a collector's life reports zero
  rates, and the next reports for each counter its growth since the previous one, over the seconds
  between the two clock readings (one second when the clock stood still or went back); a device
  without a previous reading has zero rates. A partition's counters are kept under its own name or its
  base device's, as in the package's device cache (\<open>devices_ok\<close>, which every collection keeps). The growth is a difference of unsigned numbers, so
  that a counter that went back (a device was reset) gives a rate near \<open>2 ^ 64\<close>.
\<close>

theorem disk_rates:
  assumes "collectDiskMetrics env1 (c, devices) = Return (Inr ms1, s1)"
    and "collectDiskMetrics env2 s1 = Return (Inr ms2, s2)" "de_prev_time env1 \<noteq> zero_time" "devices_ok devices"
  defines "elapsed \<equiv> dur_to_seconds (time_sub (de_since_time env2) (de_prev_time env1))"
  shows "(dk_prevTime c = zero_time \<longrightarrow> list_all disk_rates_zero (slice_list ms1)) \<and>
    list_all2 (partition_rates (read_counters env1) (read_counters env2) (if elapsed \<le> 0 then 1 else elapsed))
      (filter (\<lambda>p. ps_Fstype p \<notin> set ignoredFSTypes) (case de_partitions env2 of Inl err \<Rightarrow> [] | Inr ps \<Rightarrow> ps))
      (slice_list ms2)"
proof -
  have nz: "\<not> is_zero_time (de_prev_time env1)" using assms(3) by (simp add: is_zero_time_def)
  obtain devices1 where s1: "s1 = (c\<lparr>dk_prevIOCounters := read_counters env1, dk_prevTime := de_prev_time env1\<rparr>, devices1)"
    and d1: "devices_ok devices1"
    and r1: "list_all2 (\<lambda>p dm. if is_zero_time (dk_prevTime c) then disk_rates_zero dm
        else partition_rates (dk_prevIOCounters c) (read_counters env1) (disk_duration env1 (dk_prevTime c)) p dm)
      (filter (\<lambda>p. ps_Fstype p \<notin> set ignoredFSTypes) (case de_partitions env1 of Inl err \<Rightarrow> [] | Inr ps \<Rightarrow> ps))
      (slice_list ms1)"
    by (rule collectDiskMetrics_rates [OF assms(1,4)])
  have "dk_prevTime c = zero_time \<longrightarrow> list_all disk_rates_zero (slice_list ms1)"
    using r1 by (auto simp: is_zero_time_def list_all2_conv_all_nth list_all_length)
  moreover have "disk_duration env2 (de_prev_time env1) = (if elapsed \<le> 0 then 1 else elapsed)"
    using nz by (simp add: disk_duration_def elapsed_def)
  ultimately show ?thesis
    using collectDiskMetrics_rates [OF assms(2) [unfolded s1] d1] nz by fastforce
qed

lemma disk_rates_witness:
  "\<exists>ms1 s1 dm s2. collectDiskMetrics (sample_disk_env 1000000000)
       (fst (NewDiskCollector (cs_Disk (cfg_Collectors DefaultConfig))), Map.empty) = Return (Inr ms1, s1)
     \<and> collectDiskMetrics ((sample_disk_env 3000000000)\<lparr>de_io_counters := Inr [''sda1'' \<mapsto> sample_counters\<lparr>dct_ReadBytes := 8192\<rparr>]\<rparr>) s1
       = Return (Inr (Some [dm]), s2)
     \<and> list_all disk_rates_zero (slice_list ms1) \<and> io_ReadBytesPerSec (dm_IOStats dm) = Fin 2048"
proof -
  define c where "c = fst (NewDiskCollector (cs_Disk (cfg_Collectors DefaultConfig)))"
  let ?io2 = "[''sda1'' \<mapsto> sample_counters\<lparr>dct_ReadBytes := 8192\<rparr>]"
  let ?e1 = "sample_disk_env 1000000000" and ?e2 = "(sample_disk_env 3000000000)\<lparr>de_io_counters := Inr ?io2\<rparr>"
  let ?c1 = "c\<lparr>dk_prevIOCounters := [''sda1'' \<mapsto> sample_counters], dk_prevTime := 1000000000\<rparr>"
  let ?parts = "[\<lparr>ps_Device = ''/dev/sda1'', ps_Mountpoint = ''/'', ps_Fstype = ''ext4''\<rparr>,
       \<lparr>ps_Device = ''tmpfs'', ps_Mountpoint = ''/tmp'', ps_Fstype = ''tmpfs''\<rparr>]"
  have e: "de_partitions (sample_disk_env t) = Inr ?parts" "de_prev_time (sample_disk_env t) = t"
    "de_since_time (sample_disk_env t) = t" "de_io_counters (sample_disk_env t) = Inr [''sda1'' \<mapsto> sample_counters]" for t
    by (simp_all add: sample_disk_env_def)
  have rk: "slaves_ranked ?e2 (\<lambda>_. 0)" by (simp add: slaves_ranked_def sample_disk_env_def)
  obtain dms1 cache1 where l1: "disk_metrics_loop (disk_metric ?e1 [''sda1'' \<mapsto> sample_counters] (dk_prevIOCounters c)
      (is_zero_time (dk_prevTime c)) (disk_duration ?e1 (dk_prevTime c))) ?parts Map.empty = Some (dms1, cache1)" "dm_ok cache1"
    using disk_loop_returns [OF disk_metric_returns [OF sample_ranked] dm_ok_empty] by meson
  then have c1: "collectDiskMetrics ?e1 (c, Map.empty) = Return (Inr (slice_of_appends dms1), (?c1, cache1))"
    by (simp add: collectDiskMetrics_def Let_def e)
  obtain dms2 cache2 where l2: "disk_metrics_loop (disk_metric ?e2 ?io2 (dk_prevIOCounters ?c1)
      (is_zero_time (dk_prevTime ?c1)) (disk_duration ?e2 (dk_prevTime ?c1))) ?parts cache1 = Some (dms2, cache2)"
    using disk_loop_returns [OF disk_metric_returns [OF rk] l1(2)] by meson
  then have c2: "\<exists>s2. collectDiskMetrics ?e2 (?c1, cache1) = Return (Inr (slice_of_appends dms2), s2)"
    by (simp add: collectDiskMetrics_def Let_def e del: disk_metrics_loop.simps)
  then obtain s2 where c2: "collectDiskMetrics ?e2 (?c1, cache1) = Return (Inr (slice_of_appends dms2), s2)" ..
  have d: "path_base ''/dev/sda1'' = ''sda1''" "partition_base ''sda1'' = ''sda''" by code_simp+
  have t: "dur_to_seconds (time_sub 3000000000 1000000000) = Fin 2"
    using f64_round_of_int [of 2 False]
    by (simp add: dur_to_seconds_def go_quot_def go_rem_def time_sub_def max_duration_def min_duration_def f64_ops f64_round_def [of False 0])
  have t': "dur_to_seconds (time_sub (de_since_time ?e2) (de_prev_time ?e1)) = Fin 2" by (simp add: e t)
  have z: "dk_prevTime c = zero_time" by (simp add: c_def NewDiskCollector_def disk_startBackgroundCollection_def)
  have n: "io_device_name ?io2 ''sda1'' blk = ''sda1''" for blk
    by (simp add: io_device_name_def)
  have "list_all disk_rates_zero dms1" "list_all2 (partition_rates [''sda1'' \<mapsto> sample_counters] ?io2 (Fin 2)) [hd ?parts] dms2"
    using disk_rates [OF c1 c2, unfolded t'] z
    by (simp_all add: e read_counters_def ignoredFSTypes_def zero_time_def devices_ok_def f64_ops)
  then obtain dm where "dms2 = [dm]" "rates_between [''sda1'' \<mapsto> sample_counters] ?io2 (Fin 2) ''sda1'' dm"
    by (auto simp: list_all2_Cons1 partition_rates_def Let_def d n)
  moreover have "wrapped_rate 8192 4096 (Fin 2) = Fin 2048"
    using f64_round_of_int [of 2048 False] by (simp add: wrapped_rate_def f64_ops)
  ultimately show ?thesis using c1 c2 \<open>list_all disk_rates_zero dms1\<close>
    by (auto simp: c_def rates_between_def slice_of_appends_def sample_counters_def)
qed

text \<open>
  C24. Staleness is bounded: an answer of \<open>Collect\<close>, after any sequence of background
  refreshes and requests, was gathered by that very request or by an earlier event whose result
  was stored less than the configured cache duration before.
\<close>

theorem disk_answers_fresh:
  assumes "NewDiskCollector cfg = (c0, started)"
    and "cache_run disk_Collect disk_collectAndCache es (c0, cache0) = Return s"
    and "disk_Collect e s = Return (Inr m, s')" "max_duration \<le> de_check_time e"
  shows "(\<exists>v. collectDiskMetrics e s = Return (Inr m, v)) \<or>
    (\<exists>e' \<in> set (map event_env es). \<exists>u v. collectDiskMetrics e' u = Return (Inr m, v) \<and>
       time_sub (de_check_time e) (de_store_time e') < dur_seconds (disk_CacheDurationSeconds cfg))"
proof -
  have c0: "disk_inv (c0, cache0)" "dk_cachedTime c0 = zero_time"
    "dk_cacheDuration c0 = dur_seconds (disk_CacheDurationSeconds cfg)"
    using assms(1) by (auto simp: NewDiskCollector_def disk_startBackgroundCollection_def disk_inv_def)
  from disk.collect_fresh [OF c0(1) _ assms(2,3,4)] c0(2,3) show ?thesis by simp
qed

lemma disk_answers_fresh_witness:
  defines "t \<equiv> max_duration" and "c0 \<equiv> fst (NewDiskCollector (cs_Disk (cfg_Collectors DefaultConfig)))"
  shows "\<exists>s m s'. cache_run disk_Collect disk_collectAndCache [Refresh (sample_disk_env t)] (c0, Map.empty) = Return s
    \<and> disk_Collect (sample_disk_env (t + 1000000000)) s = Return (Inr m, s')
    \<and> ((\<exists>v. collectDiskMetrics (sample_disk_env (t + 1000000000)) s = Return (Inr m, v))
       \<or> (\<exists>u v. collectDiskMetrics (sample_disk_env t) u = Return (Inr m, v)))"
proof -
  obtain dms s1 where c: "collectDiskMetrics (sample_disk_env t) (c0, Map.empty) = Return (Inr (slice_of_appends dms), s1)"
    and len: "length dms = 1" using sample_disk_collects by blast
  let ?s = "disk_store t (slice_of_appends dms) s1" and ?e = "sample_disk_env (t + 1000000000)"
  have n: "NewDiskCollector (cs_Disk (cfg_Collectors DefaultConfig)) = (c0, True)"
    by (simp add: c0_def NewDiskCollector_def disk_startBackgroundCollection_def)
  have r: "cache_run disk_Collect disk_collectAndCache [Refresh (sample_disk_env t)] (c0, Map.empty) = Return ?s"
    using c by (simp add: disk_collectAndCache_def)
  have "dk_cacheDuration (fst s1) = 3000000000"
    using collectDiskMetrics_frame [OF c] n
    by (auto simp: NewDiskCollector_def disk_startBackgroundCollection_def DefaultConfig_def dur_seconds_def int64_range_def)
  then have "disk_isCacheValid (t + 1000000000) ?s"
    using len by (cases s1; cases dms) (simp_all add: disk_isCacheValid_def disk_store_def time_sub_exact int64_range_def slice_len_def)
  then have q: "disk_Collect ?e ?s = Return (Inr (slice_of_appends dms), ?s)"
    by (cases s1) (simp add: disk_Collect_def disk_store_def)
  have "(\<exists>v. collectDiskMetrics ?e ?s = Return (Inr (slice_of_appends dms), v))
      \<or> (\<exists>u v. collectDiskMetrics (sample_disk_env t) u = Return (Inr (slice_of_appends dms), v))"
    using disk_answers_fresh [OF n r q] by (auto simp: t_def)
  with q r show ?thesis by blast
qed

text \<open>
  The goroutine that refreshes the cache panics, and with it the program, exactly when the
  configured update frequency is not positive, whatever the collection before did.
\<close>

theorem disk_background_panics:
  assumes "disk_collectAndCache env s = Return s'"
  shows "(\<exists>p. disk_background env s = Panic p) \<longleftrightarrow> dk_updateFrequency (fst s) \<le> 0"
proof -
  from refresh_result [OF assms [unfolded disk_collectAndCache_def]] obtain r s1
    where g: "collectDiskMetrics env s = Return (r, s1)"
      and s': "s' = (case r of Inl err \<Rightarrow> s1 | Inr m \<Rightarrow> disk_store (de_store_time env) m s1)" by blast
  have "dk_updateFrequency (fst s') = dk_updateFrequency (fst s)"
    using collectDiskMetrics_frame [OF g] s' by (cases s1; cases r) (simp_all add: disk_store_def)
  with assms show ?thesis by (simp add: disk_background_def new_ticker_def)
qed

lemma disk_background_panics_witness:
  "\<exists>p. disk_background (sample_disk_env 0\<lparr>de_partitions := Inl (ErrExt ''mountinfo'')\<rparr>)
     (fst (NewDiskCollector \<lparr>disk_CacheDurationSeconds = 0, disk_UpdateFrequencySeconds = 0\<rparr>), Map.empty) = Panic p"
proof -
  let ?c = "fst (NewDiskCollector \<lparr>disk_CacheDurationSeconds = 0, disk_UpdateFrequencySeconds = 0\<rparr>)"
  have "disk_collectAndCache (sample_disk_env 0\<lparr>de_partitions := Inl (ErrExt ''mountinfo'')\<rparr>) (?c, Map.empty)
      = Return (?c, Map.empty)"
    by (simp add: disk_collectAndCache_def collectDiskMetrics_def)
  moreover have "dk_updateFrequency ?c \<le> 0"
    by (simp add: NewDiskCollector_def disk_startBackgroundCollection_def dur_seconds_def int64_range_def)
  ultimately show ?thesis using disk_background_panics by fastforce
qed

end
