(* ===== verification/Network_Collector.thy ===== *)
theory Network_Collector
  imports Models Go_Strings Counter_Rate Config_Model
begin

text \<open>
  The network collector of \<open>internal/collectors/network.go\<close>. gopsutil answers through
  \<open>network_env\<close>. Unlike the other collectors this one collects once when it is created and
  \<open>Collect\<close> only ever answers what its goroutine stored last.
\<close>

section \<open>Collection\<close>

record InterfaceStat =
  if_Name :: string
  if_Flags :: "string list"
  if_HardwareAddr :: string
  if_MTU :: int64
  if_Addrs :: "string list"

record NetCounters =
  nct_Name :: string
  nct_BytesRecv :: uint64
  nct_BytesSent :: uint64
  nct_PacketsRecv :: uint64
  nct_PacketsSent :: uint64
  nct_Errin :: uint64
  nct_Errout :: uint64
  nct_Dropin :: uint64
  nct_Dropout :: uint64

record network_env =
  ne_interfaces :: "go_error + InterfaceStat list"
  ne_io_counters :: "go_error + NetCounters list"
  ne_now :: instant
  ne_store_time :: instant

record NetworkCollector =
  nk_cachedMetrics :: "NetworkMetrics slice"
  nk_cachedTime :: instant
  nk_cacheDuration :: duration
  nk_updateFrequency :: duration
  nk_backgroundRunning :: bool
  nk_prevCounters :: "string \<rightharpoonup> NetCounters"
  nk_prevTime :: instant

fun getInterfaceStatus :: "string list \<Rightarrow> string" where
  "getInterfaceStatus [] = ''down''"
| "getInterfaceStatus (f # flags) = (if f = ''up'' then ''up'' else getInterfaceStatus flags)"

fun has_loopback :: "string list \<Rightarrow> bool" where
  "has_loopback [] = False"
| "has_loopback (flag # flags) = (flag = ''loopback'' \<or> has_loopback flags)"

definition getInterfaceType :: "string \<Rightarrow> string" where
  "getInterfaceType name =
     (let lowerName = to_lower name
      in if has_prefix ''eth'' lowerName \<or> has_prefix ''en'' lowerName then ''Ethernet''
         else if has_prefix ''wl'' lowerName then ''Wi-Fi''
         else if has_prefix ''docker'' lowerName \<or> has_prefix ''br-'' lowerName \<or> has_prefix ''veth'' lowerName
         then ''Virtual''
         else ''Unknown'')"

definition addr_ip :: "string \<Rightarrow> string" where
  "addr_ip addr = hd (split_on (CHR ''/'') addr)"

fun set_addresses :: "string list \<Rightarrow> NetworkMetrics \<Rightarrow> NetworkMetrics" where
  "set_addresses [] metric = metric"
| "set_addresses (addr # addrs) metric =
     (let ip = addr_ip addr
      in set_addresses addrs
           (if str_contains '':'' ip then metric\<lparr>nm_IPv6 := ip\<rparr> else metric\<lparr>nm_IPv4 := ip\<rparr>))"

definition set_counters ::
  "NetCounters \<Rightarrow> NetCounters option \<Rightarrow> f64 \<Rightarrow> NetworkMetrics \<Rightarrow> NetworkMetrics" where
  "set_counters counter prev deltaTime metric =
     (let m = metric
        \<lparr>nm_RxBytes := int64_of_uint64 (nct_BytesRecv counter),
         nm_TxBytes := int64_of_uint64 (nct_BytesSent counter),
         nm_RxPackets := int64_of_uint64 (nct_PacketsRecv counter),
         nm_TxPackets := int64_of_uint64 (nct_PacketsSent counter),
         nm_RxErrors := int64_of_uint64 (nct_Errin counter),
         nm_TxErrors := int64_of_uint64 (nct_Errout counter),
         nm_RxDropped := int64_of_uint64 (nct_Dropin counter),
         nm_TxDropped := int64_of_uint64 (nct_Dropout counter)\<rparr>
      in case prev of
           None \<Rightarrow> m
         | Some prevCounter \<Rightarrow>
             if 0 < deltaTime then m
               \<lparr>nm_RxBytesPerSec := counter_rate (nct_BytesRecv counter) (nct_BytesRecv prevCounter) deltaTime,
                nm_TxBytesPerSec := counter_rate (nct_BytesSent counter) (nct_BytesSent prevCounter) deltaTime\<rparr>
             else m)"

definition network_metric ::
  "(string \<rightharpoonup> NetCounters) \<Rightarrow> (string \<rightharpoonup> NetCounters) \<Rightarrow> f64 \<Rightarrow> InterfaceStat \<Rightarrow> NetworkMetrics" where
  "network_metric countersMap prevCounters deltaTime iface =
     (let metric = set_addresses (if_Addrs iface) (zero_NetworkMetrics
            \<lparr>nm_Interface := if_Name iface, nm_MAC := if_HardwareAddr iface, nm_MTU := if_MTU iface,
             nm_Status := getInterfaceStatus (if_Flags iface),
             nm_ConnectionType := getInterfaceType (if_Name iface)\<rparr>)
      in case countersMap (if_Name iface) of
           None \<Rightarrow> metric
         | Some counter \<Rightarrow> set_counters counter (prevCounters (if_Name iface)) deltaTime metric)"

definition network_skipped :: "InterfaceStat \<Rightarrow> bool" where
  "network_skipped iface \<longleftrightarrow> has_loopback (if_Flags iface) \<or> getInterfaceStatus (if_Flags iface) \<noteq> ''up''"

fun network_metrics_loop :: "(InterfaceStat \<Rightarrow> NetworkMetrics) \<Rightarrow> InterfaceStat list \<Rightarrow> NetworkMetrics list" where
  "network_metrics_loop body [] = []"
| "network_metrics_loop body (iface # ifaces) =
     (if network_skipped iface then network_metrics_loop body ifaces
      else body iface # network_metrics_loop body ifaces)"

definition collectNetworkMetrics ::
  "network_env \<Rightarrow> NetworkCollector \<Rightarrow> (go_error + NetworkMetrics slice) \<times> NetworkCollector" where
  "collectNetworkMetrics env c =
     (case ne_interfaces env of
        Inl err \<Rightarrow> (Inl err, c)
      | Inr interfaces \<Rightarrow>
          (case ne_io_counters env of
             Inl err \<Rightarrow> (Inl err, c)
           | Inr ioCounters \<Rightarrow>
               let countersMap = map_of (rev (map (\<lambda>counter. (nct_Name counter, counter)) ioCounters));
                   deltaTime = dur_to_seconds (time_sub (ne_now env) (nk_prevTime c));
                   metrics = network_metrics_loop (network_metric countersMap (nk_prevCounters c) deltaTime) interfaces
               in (Inr (Some metrics), c\<lparr>nk_prevCounters := countersMap, nk_prevTime := ne_now env\<rparr>)))"

section \<open>Cache and background collection\<close>

definition network_collectAndCache :: "network_env \<Rightarrow> NetworkCollector \<Rightarrow> NetworkCollector" where
  "network_collectAndCache env c =
     (case collectNetworkMetrics env c of
        (Inl err, c') \<Rightarrow> c'
      | (Inr metrics, c') \<Rightarrow> c'\<lparr>nk_cachedMetrics := metrics, nk_cachedTime := ne_store_time env\<rparr>)"

definition network_Collect :: "NetworkCollector \<Rightarrow> (go_error + NetworkMetrics slice) \<times> NetworkCollector" where
  "network_Collect c = (Inr (nk_cachedMetrics c), c)"

text \<open>The first collection is made before the goroutine starts.\<close>

definition network_startBackgroundCollection :: "network_env \<Rightarrow> NetworkCollector \<Rightarrow> NetworkCollector \<times> bool" where
  "network_startBackgroundCollection env c =
     (if nk_backgroundRunning c then (c, False)
      else (network_collectAndCache env (c\<lparr>nk_backgroundRunning := True\<rparr>), True))"

text \<open>
  The goroutine recovers from a panic with \<open>r.(error).Error()\<close>, which panics itself on a value
  that is not an \<open>error\<close>; what \<open>time.NewTicker\<close> panics with depends on the Go release and is
  the argument. A recovered goroutine ends.
\<close>

datatype goroutine = Ticking | Ended

definition network_background :: "bool \<Rightarrow> NetworkCollector \<Rightarrow> goroutine outcome" where
  "network_background ticker_panic_is_error c =
     (case new_ticker (nk_updateFrequency c) of
        Return _ \<Rightarrow> Return Ticking
      | Panic p \<Rightarrow> if ticker_panic_is_error then Return Ended else Panic p
      | Diverge \<Rightarrow> Diverge)"

definition NewNetworkCollector :: "network_env \<Rightarrow> NetworkCollectorSettings \<Rightarrow> NetworkCollector \<times> bool" where
  "NewNetworkCollector env cfg = network_startBackgroundCollection env
     \<lparr>nk_cachedMetrics = None, nk_cachedTime = zero_time,
      nk_cacheDuration = dur_seconds (network_CacheDurationSeconds cfg),
      nk_updateFrequency = dur_seconds (network_UpdateFrequencySeconds cfg),
      nk_backgroundRunning = False, nk_prevCounters = Map.empty, nk_prevTime = zero_time\<rparr>"

section \<open>Lemmas\<close>

lemma getInterfaceStatus_up: "getInterfaceStatus flags = ''up'' \<longleftrightarrow> ''up'' \<in> set flags"
  by (induction flags) auto

lemma has_loopback_iff: "has_loopback flags \<longleftrightarrow> ''loopback'' \<in> set flags"
  by (induction flags) auto

lemma network_skipped_iff:
  "network_skipped i \<longleftrightarrow> ''loopback'' \<in> set (if_Flags i) \<or> ''up'' \<notin> set (if_Flags i)"
  by (simp add: network_skipped_def getInterfaceStatus_up has_loopback_iff)

lemma network_loop_eq: "network_metrics_loop body is = map body (filter (\<lambda>i. \<not> network_skipped i) is)"
  by (induction "is") auto

lemma set_addresses_frame [simp]:
  "nm_Interface (set_addresses as m) = nm_Interface m" "nm_MAC (set_addresses as m) = nm_MAC m"
  "nm_MTU (set_addresses as m) = nm_MTU m" "nm_Status (set_addresses as m) = nm_Status m"
  "nm_ConnectionType (set_addresses as m) = nm_ConnectionType m"
  "nm_RxBytesPerSec (set_addresses as m) = nm_RxBytesPerSec m"
  "nm_TxBytesPerSec (set_addresses as m) = nm_TxBytesPerSec m"
  by (induction as m rule: set_addresses.induct) (simp_all add: Let_def)

lemma set_counters_frame [simp]:
  "nm_Interface (set_counters c p d m) = nm_Interface m" "nm_MAC (set_counters c p d m) = nm_MAC m"
  "nm_MTU (set_counters c p d m) = nm_MTU m" "nm_Status (set_counters c p d m) = nm_Status m"
  "nm_ConnectionType (set_counters c p d m) = nm_ConnectionType m"
  "nm_IPv4 (set_counters c p d m) = nm_IPv4 m" "nm_IPv6 (set_counters c p d m) = nm_IPv6 m"
  by (simp_all add: set_counters_def Let_def split: option.splits)

text \<open>The last address of each family wins.\<close>

definition last_or :: "'a \<Rightarrow> 'a list \<Rightarrow> 'a" where
  "last_or d xs = (if xs = [] then d else last xs)"

lemma set_addresses_ips:
  "nm_IPv6 (set_addresses as m) = last_or (nm_IPv6 m) (filter (str_contains '':'') (map addr_ip as))"
  "nm_IPv4 (set_addresses as m) = last_or (nm_IPv4 m) (filter (\<lambda>ip. \<not> str_contains '':'' ip) (map addr_ip as))"
  by (induction as m rule: set_addresses.induct) (simp_all add: Let_def last_or_def)

lemma has_prefix_colon: "str_contains '':'' s \<longleftrightarrow> CHR '':'' \<in> set s"
  by (induction s) (auto simp: has_prefix_def)

text \<open>The divisor of a rate that is computed is a positive number of at least \<open>2 ^ -30\<close> seconds.\<close>

lemma delta_seconds:
  assumes "0 < dur_to_seconds (time_sub t u)"
  obtains r where "dur_to_seconds (time_sub t u) = Fin r" "0 < r" "1 / 2 ^ 30 \<le> r"
proof -
  have "0 < time_sub t u"
  proof (rule ccontr)
    assume "\<not> 0 < time_sub t u"
    then have "dur_to_seconds (time_sub t u) \<le> 0" by (intro dur_to_seconds_nonpos) simp
    with assms show False by (cases "dur_to_seconds (time_sub t u)") (auto simp: f64_ops)
  qed
  then show ?thesis by (rule dur_to_seconds_pos [OF _ time_sub_max]) (rule that)
qed

definition network_rates_ok :: "NetworkMetrics \<Rightarrow> bool" where
  "network_rates_ok m \<longleftrightarrow> f64_finite (nm_RxBytesPerSec m) \<and> f64_finite (nm_TxBytesPerSec m)
     \<and> 0 \<le> nm_RxBytesPerSec m \<and> 0 \<le> nm_TxBytesPerSec m"

lemma network_rates_json: "network_rates_ok m \<Longrightarrow> json_ok (json_NetworkMetrics m)"
  by (simp add: network_rates_ok_def json_NetworkMetrics_def)

lemma set_counters_rates:
  assumes "network_rates_ok m"
  shows "network_rates_ok (set_counters c p (dur_to_seconds (time_sub t u)) m)"
proof (cases "0 < dur_to_seconds (time_sub t u)")
  case True
  then obtain r where r: "dur_to_seconds (time_sub t u) = Fin r" "0 < r" "1 / 2 ^ 30 \<le> r"
    by (rule delta_seconds)
  show ?thesis using assms r counter_rate_finite [OF r(3)] counter_rate_nonneg [OF r(2)]
    by (auto simp: set_counters_def network_rates_ok_def Let_def split: option.splits)
next
  case False
  then show ?thesis using assms
    by (auto simp: set_counters_def network_rates_ok_def Let_def split: option.splits)
qed

lemma network_metric_rates:
  "network_rates_ok (network_metric cm pc (dur_to_seconds (time_sub t u)) i)"
proof -
  have "network_rates_ok (set_addresses (if_Addrs i) (zero_NetworkMetrics
            \<lparr>nm_Interface := if_Name i, nm_MAC := if_HardwareAddr i, nm_MTU := if_MTU i,
             nm_Status := getInterfaceStatus (if_Flags i),
             nm_ConnectionType := getInterfaceType (if_Name i)\<rparr>))"
    by (simp add: network_rates_ok_def zero_NetworkMetrics_def zero_f64_def f64_ops)
  then show ?thesis
    by (auto simp: network_metric_def Let_def set_counters_rates split: option.splits)
qed

text \<open>A run of background collections, and the metrics the last successful one gathered.\<close>

fun network_run :: "network_env list \<Rightarrow> NetworkCollector \<Rightarrow> NetworkCollector" where
  "network_run [] c = c"
| "network_run (e # es) c = network_run es (network_collectAndCache e c)"

fun last_gathered :: "network_env list \<Rightarrow> NetworkCollector \<Rightarrow> NetworkMetrics slice option" where
  "last_gathered [] c = None"
| "last_gathered (e # es) c =
     (case last_gathered es (network_collectAndCache e c) of
        Some ms \<Rightarrow> Some ms
      | None \<Rightarrow> (case collectNetworkMetrics e c of (Inl err, _) \<Rightarrow> None | (Inr ms, _) \<Rightarrow> Some ms))"

lemma collectNetwork_cached:
  "collectNetworkMetrics e c = (r, c') \<Longrightarrow> nk_cachedMetrics c' = nk_cachedMetrics c"
  by (auto simp: collectNetworkMetrics_def Let_def split: sum.splits)

lemma network_run_cached:
  "nk_cachedMetrics (network_run es c)
   = (case last_gathered es c of None \<Rightarrow> nk_cachedMetrics c | Some ms \<Rightarrow> ms)"
proof (induction es arbitrary: c)
  case (Cons e es)
  have "nk_cachedMetrics (network_collectAndCache e c)
      = (case collectNetworkMetrics e c of (Inl err, _) \<Rightarrow> nk_cachedMetrics c | (Inr ms, _) \<Rightarrow> ms)"
    by (auto simp: network_collectAndCache_def collectNetwork_cached split: prod.splits sum.splits)
  with Cons show ?case by (auto split: option.splits prod.splits sum.splits)
qed simp

lemma network_metric_fields:
  "nm_Interface (network_metric cm pc dt i) = if_Name i" "nm_MAC (network_metric cm pc dt i) = if_HardwareAddr i"
  "nm_MTU (network_metric cm pc dt i) = if_MTU i"
  "nm_IPv6 (network_metric cm pc dt i)
     = last_or [] (filter (\<lambda>ip. CHR '':'' \<in> set ip) (map addr_ip (if_Addrs i)))"
  "nm_IPv4 (network_metric cm pc dt i)
     = last_or [] (filter (\<lambda>ip. CHR '':'' \<notin> set ip) (map addr_ip (if_Addrs i)))"
proof -
  have "nm_IPv6 zero_NetworkMetrics = []" "nm_IPv4 zero_NetworkMetrics = []"
    by (simp_all add: zero_NetworkMetrics_def)
  then show "nm_IPv6 (network_metric cm pc dt i)
     = last_or [] (filter (\<lambda>ip. CHR '':'' \<in> set ip) (map addr_ip (if_Addrs i)))"
    "nm_IPv4 (network_metric cm pc dt i)
     = last_or [] (filter (\<lambda>ip. CHR '':'' \<notin> set ip) (map addr_ip (if_Addrs i)))"
    by (simp_all add: network_metric_def Let_def set_addresses_ips has_prefix_colon [abs_def] split: option.splits)
qed (simp_all add: network_metric_def Let_def split: option.splits)

definition sample_network_env :: network_env where
  "sample_network_env = \<lparr>ne_interfaces = Inr
       [\<lparr>if_Name = ''eth0'', if_Flags = [''up'', ''broadcast''], if_HardwareAddr = ''02:00'', if_MTU = 1500,
         if_Addrs = [''10.0.0.2/24'', ''fe80::1/64'']\<rparr>],
     ne_io_counters = Inr [\<lparr>nct_Name = ''eth0'', nct_BytesRecv = 10, nct_BytesSent = 20, nct_PacketsRecv = 1,
       nct_PacketsSent = 1, nct_Errin = 0, nct_Errout = 0, nct_Dropin = 0, nct_Dropout = 0\<rparr>],
     ne_now = 0, ne_store_time = 0\<rparr>"

section \<open>Properties\<close>

text \<open>
  C30. A network collection reports exactly the interfaces that are up and not a loopback, in the
  order they are listed, each with its name, hardware address and MTU and with the last of its
  addresses of each family, the prefix length cut off. Even with none the slice is not nil.
\<close>

theorem network_reports_up:
  assumes "ne_interfaces env = Inr ifaces" "ne_io_counters env = Inr counters"
  shows "\<exists>ms. fst (collectNetworkMetrics env c) = Inr (Some ms) \<and>
    list_all2 (\<lambda>i m. nm_Interface m = if_Name i \<and> nm_MAC m = if_HardwareAddr i \<and> nm_MTU m = if_MTU i
        \<and> nm_IPv6 m = last_or [] (filter (\<lambda>ip. CHR '':'' \<in> set ip) (map addr_ip (if_Addrs i)))
        \<and> nm_IPv4 m = last_or [] (filter (\<lambda>ip. CHR '':'' \<notin> set ip) (map addr_ip (if_Addrs i))))
      (filter (\<lambda>i. ''up'' \<in> set (if_Flags i) \<and> ''loopback'' \<notin> set (if_Flags i)) ifaces) ms"
proof -
  have "filter (\<lambda>i. \<not> network_skipped i) ifaces
      = filter (\<lambda>i. ''up'' \<in> set (if_Flags i) \<and> ''loopback'' \<notin> set (if_Flags i)) ifaces"
    by (rule filter_cong) (auto simp: network_skipped_iff)
  with assms show ?thesis
    by (simp add: collectNetworkMetrics_def Let_def network_loop_eq list_all2_conv_all_nth network_metric_fields)
qed

lemma network_reports_up_witness:
  "\<exists>m. fst (collectNetworkMetrics sample_network_env
       (fst (NewNetworkCollector sample_network_env (cs_Network (cfg_Collectors DefaultConfig))))) = Inr (Some [m])
     \<and> nm_IPv4 m = ''10.0.0.2'' \<and> nm_IPv6 m = ''fe80::1''"
  using network_reports_up [of sample_network_env _ _
      "fst (NewNetworkCollector sample_network_env (cs_Network (cfg_Collectors DefaultConfig)))"]
  by (fastforce simp: sample_network_env_def addr_ip_def last_or_def list_all2_Cons1)

text \<open>
  Network metrics can always be serialised: every rate of every collection is finite and not
  negative, whatever the counters and the clock did.
\<close>

theorem network_metrics_serialisable:
  assumes "collectNetworkMetrics env c = (Inr ms, c')"
  shows "json_marshal (json_slice json_NetworkMetrics ms) = Inr (json_slice json_NetworkMetrics ms)
    \<and> list_all network_rates_ok (slice_list ms)"
  using assms
  by (auto simp: collectNetworkMetrics_def Let_def network_loop_eq json_marshal_def list_all_iff
      network_metric_rates network_rates_json split: sum.splits)

lemma network_metrics_serialisable_witness:
  "\<exists>ms c'. collectNetworkMetrics sample_network_env
       (fst (NewNetworkCollector sample_network_env (cs_Network (cfg_Collectors DefaultConfig)))) = (Inr ms, c')
     \<and> slice_len ms = 1 \<and> json_marshal (json_slice json_NetworkMetrics ms) = Inr (json_slice json_NetworkMetrics ms)"
proof -
  let ?c = "fst (NewNetworkCollector sample_network_env (cs_Network (cfg_Collectors DefaultConfig)))"
  obtain ms c' where c: "collectNetworkMetrics sample_network_env ?c = (Inr ms, c')" "slice_len ms = 1"
    by (simp add: collectNetworkMetrics_def sample_network_env_def Let_def network_skipped_iff slice_len_def)
  with network_metrics_serialisable [OF c(1)] show ?thesis by blast
qed

text \<open>
  \<open>Collect\<close> never collects and never fails: it answers what the last successful background
  collection gathered, the nil slice when none succeeded, however old that is; the configured cache
  duration has no effect.
\<close>

theorem network_collect_latest:
  assumes "nk_cachedMetrics c = None"
  shows "fst (network_Collect (network_run es c))
    = Inr (case last_gathered es c of None \<Rightarrow> None | Some ms \<Rightarrow> ms)"
  using assms by (simp add: network_Collect_def network_run_cached split: option.splits)

lemma network_collect_latest_witness:
  "fst (network_Collect (network_run [sample_network_env\<lparr>ne_interfaces := Inl (ErrExt ''down'')\<rparr>]
     \<lparr>nk_cachedMetrics = None, nk_cachedTime = 0, nk_cacheDuration = 0, nk_updateFrequency = 0,
      nk_backgroundRunning = False, nk_prevCounters = Map.empty, nk_prevTime = 0\<rparr>)) = Inr None"
  using network_collect_latest [of "\<lparr>nk_cachedMetrics = None, nk_cachedTime = 0, nk_cacheDuration = 0,
      nk_updateFrequency = 0, nk_backgroundRunning = False, nk_prevCounters = Map.empty, nk_prevTime = 0\<rparr>"
      "[sample_network_env\<lparr>ne_interfaces := Inl (ErrExt ''down'')\<rparr>]"]
  by (simp add: collectNetworkMetrics_def)

end
