(* ===== verification/Json_Decode.thy ===== *)
theory Json_Decode
  imports Go_Json Go_Strings
begin

text \<open>
  Decoding a JSON value into a Go value by the rules of \<open>encoding/json\<close>: the members of an object
  in order, names compared exactly first and by case folding otherwise, \<open>null\<close> leaves a field
  alone, unknown members are skipped and a value of the wrong type is an error (\<open>None\<close>). A decoder
  takes the value to decode into.
\<close>

section \<open>Decoders\<close>

text \<open>
  Case folding of a member name, as far as an ASCII field name can match it: letters, and the two
  other code points that fold to a letter, U+212A (to k) and U+017F (to s).
\<close>

fun fold_name :: "string \<Rightarrow> string" where
  "fold_name [] = []"
| "fold_name (c # s) =
     (let n = of_char c :: nat
      in if 65 \<le> n \<and> n \<le> 90 then char_of (n + 32) # fold_name s
         else if n = 226 \<and> take 2 s = [char_of (132 :: nat), char_of (170 :: nat)] then CHR ''k'' # fold_name (drop 2 s)
         else if n = 197 \<and> take 1 s = [char_of (191 :: nat)] then CHR ''s'' # fold_name (drop 1 s)
         else c # fold_name s)"

type_synonym 'r decoder = "json \<Rightarrow> 'r \<Rightarrow> 'r option"

definition find_field :: "(string \<times> 'r decoder) list \<Rightarrow> string \<Rightarrow> 'r decoder option" where
  "find_field flds name =
     (case map_of flds name of
        Some d \<Rightarrow> Some d
      | None \<Rightarrow> map_of (map (\<lambda>(n, d). (fold_name n, d)) flds) (fold_name name))"

fun dec_members :: "(string \<times> 'r decoder) list \<Rightarrow> (string \<times> json) list \<Rightarrow> 'r \<Rightarrow> 'r option" where
  "dec_members flds [] r = Some r"
| "dec_members flds ((name, j) # ms) r =
     (case find_field flds name of
        None \<Rightarrow> dec_members flds ms r
      | Some d \<Rightarrow> (case d j r of None \<Rightarrow> None | Some r' \<Rightarrow> dec_members flds ms r'))"

fun dec_object :: "(string \<times> 'r decoder) list \<Rightarrow> 'r decoder" where
  "dec_object flds JNull r = Some r"
| "dec_object flds (JObj ms) r = dec_members flds ms r"
| "dec_object flds _ r = None"

fun dec_int :: "(int64 \<Rightarrow> 'r \<Rightarrow> 'r) \<Rightarrow> 'r decoder" where
  "dec_int upd JNull r = Some r"
| "dec_int upd (JInt n) r = (if int64_range n then Some (upd n r) else None)"
| "dec_int upd _ r = None"

fun dec_str :: "(string \<Rightarrow> 'r \<Rightarrow> 'r) \<Rightarrow> 'r decoder" where
  "dec_str upd JNull r = Some r"
| "dec_str upd (JStr s) r = Some (upd s r)"
| "dec_str upd _ r = None"

text \<open>A nested struct: decode into the field's current value.\<close>

definition dec_nested :: "('r \<Rightarrow> 'f) \<Rightarrow> ('f \<Rightarrow> 'r \<Rightarrow> 'r) \<Rightarrow> 'f decoder \<Rightarrow> 'r decoder" where
  "dec_nested get put d j r = map_option (\<lambda>f. put f r) (d j (get r))"

definition dec_uint :: "('a::len word \<Rightarrow> 'r \<Rightarrow> 'r) \<Rightarrow> 'r decoder" where
  "dec_uint upd j r =
     (case j of
        JNull \<Rightarrow> Some r
      | JInt n \<Rightarrow> if 0 \<le> n \<and> n < 2 ^ LENGTH('a) then Some (upd (of_int n) r) else None
      | _ \<Rightarrow> None)"

text \<open>A slice of values, each decoded into a zero value; \<open>null\<close> makes the slice nil.\<close>

fun dec_elems :: "'a decoder \<Rightarrow> 'a \<Rightarrow> json list \<Rightarrow> 'a list option" where
  "dec_elems d z [] = Some []"
| "dec_elems d z (j # js) =
     (case (d j z, dec_elems d z js) of (Some x, Some xs) \<Rightarrow> Some (x # xs) | _ \<Rightarrow> None)"

definition dec_slice :: "('a slice \<Rightarrow> 'r \<Rightarrow> 'r) \<Rightarrow> 'a decoder \<Rightarrow> 'a \<Rightarrow> 'r decoder" where
  "dec_slice upd d z j r =
     (case j of
        JNull \<Rightarrow> Some (upd None r)
      | JArr js \<Rightarrow> map_option (\<lambda>xs. upd (Some xs) r) (dec_elems d z js)
      | _ \<Rightarrow> None)"

text \<open>A map with string keys, as its entries; a member adds its entry or replaces the one of its name.\<close>

fun put_entry :: "string \<Rightarrow> 'a \<Rightarrow> (string \<times> 'a) list \<Rightarrow> (string \<times> 'a) list" where
  "put_entry k v [] = [(k, v)]"
| "put_entry k v ((k', v') # es) = (if k = k' then (k, v) # es else (k', v') # put_entry k v es)"

fun dec_entries :: "'a decoder \<Rightarrow> 'a \<Rightarrow> (string \<times> json) list \<Rightarrow> (string \<times> 'a) list \<Rightarrow> (string \<times> 'a) list option" where
  "dec_entries d z [] es = Some es"
| "dec_entries d z ((k, j) # ms) es =
     (case d j z of None \<Rightarrow> None | Some v \<Rightarrow> dec_entries d z ms (put_entry k v es))"

definition dec_map ::
  "('r \<Rightarrow> (string \<times> 'a) list option) \<Rightarrow> ((string \<times> 'a) list option \<Rightarrow> 'r \<Rightarrow> 'r) \<Rightarrow> 'a decoder \<Rightarrow> 'a \<Rightarrow> 'r decoder"
where
  "dec_map get put d z j r =
     (case j of
        JNull \<Rightarrow> Some (put None r)
      | JObj ms \<Rightarrow>
          map_option (\<lambda>es. put (Some es) r)
            (dec_entries d z ms (case get r of None \<Rightarrow> [] | Some es \<Rightarrow> es))
      | _ \<Rightarrow> None)"

section \<open>Lemmas\<close>

text \<open>Members written in field order come back field by field.\<close>

lemma dec_members_step:
  "find_field flds name = Some d \<Longrightarrow> d j r = Some r' \<Longrightarrow>
   dec_members flds ((name, j) # ms) r = dec_members flds ms r'"
  by simp

lemma find_field_exact: "map_of flds name = Some d \<Longrightarrow> find_field flds name = Some d"
  by (simp add: find_field_def)

text \<open>A decoder keeps a property when its fields do.\<close>

definition dec_keeps :: "('r \<Rightarrow> bool) \<Rightarrow> 'r decoder \<Rightarrow> bool" where
  "dec_keeps P d \<longleftrightarrow> (\<forall>j x y. d j x = Some y \<longrightarrow> P x \<longrightarrow> P y)"

lemma dec_keepsD: "dec_keeps P d \<Longrightarrow> d j x = Some y \<Longrightarrow> P x \<Longrightarrow> P y"
  unfolding dec_keeps_def by blast

lemma find_field_in: "find_field flds name = Some d \<Longrightarrow> \<exists>n. (n, d) \<in> set flds"
  by (auto simp: find_field_def split: option.splits dest!: map_of_SomeD)

lemma dec_members_keeps:
  "dec_members flds ms r = Some r' \<Longrightarrow> list_all (\<lambda>f. dec_keeps P (snd f)) flds \<Longrightarrow> P r \<Longrightarrow> P r'"
proof (induction flds ms r rule: dec_members.induct)
  case (2 flds name j ms r)
  show ?case
  proof (cases "find_field flds name")
    case None
    with 2 show ?thesis by simp
  next
    case (Some d)
    with 2(3) obtain r1 where r1: "d j r = Some r1" "dec_members flds ms r1 = Some r'"
      by (auto split: option.splits)
    have "dec_keeps P d" using find_field_in [OF Some] 2(4) by (auto simp: list_all_iff)
    with 2(2,4,5) Some r1 show ?thesis by (auto dest: dec_keepsD)
  qed
qed simp

lemma keeps_object: "list_all (\<lambda>f. dec_keeps P (snd f)) flds \<Longrightarrow> dec_keeps P (dec_object flds)"
  unfolding dec_keeps_def [of P "dec_object flds"]
proof (intro allI impI)
  fix j x y assume "list_all (\<lambda>f. dec_keeps P (snd f)) flds" "dec_object flds j x = Some y" "P x"
  then show "P y" using dec_members_keeps [of flds _ x y P] by (cases j) auto
qed

lemma keeps_int: "(\<And>n x. int64_range n \<Longrightarrow> P x \<Longrightarrow> P (upd n x)) \<Longrightarrow> dec_keeps P (dec_int upd)"
  unfolding dec_keeps_def
proof (intro allI impI)
  fix j x y assume "\<And>n x. int64_range n \<Longrightarrow> P x \<Longrightarrow> P (upd n x)" "dec_int upd j x = Some y" "P x"
  then show "P y" by (cases j) (auto split: if_splits)
qed

lemma keeps_str: "(\<And>s x. P x \<Longrightarrow> P (upd s x)) \<Longrightarrow> dec_keeps P (dec_str upd)"
  unfolding dec_keeps_def
proof (intro allI impI)
  fix j x y assume "\<And>s x. P x \<Longrightarrow> P (upd s x)" "dec_str upd j x = Some y" "P x"
  then show "P y" by (cases j) auto
qed

lemma keeps_nested:
  "(\<And>r. P r \<Longrightarrow> dec_keeps (\<lambda>f. P (put f r)) d) \<Longrightarrow> (\<And>r. put (get r) r = r) \<Longrightarrow>
   dec_keeps P (dec_nested get put d)"
  by (fastforce simp: dec_keeps_def dec_nested_def)

lemma put_entry_keys: "fst ` set (put_entry k v es) = insert k (fst ` set es)"
  by (induction k v es rule: put_entry.induct) auto

lemma put_entry_distinct: "distinct (map fst es) \<Longrightarrow> distinct (map fst (put_entry k v es))"
  by (induction k v es rule: put_entry.induct) (auto simp: put_entry_keys)

lemma dec_entries_distinct:
  "dec_entries d z ms es = Some es' \<Longrightarrow> distinct (map fst es) \<Longrightarrow> distinct (map fst es')"
  by (induction d z ms es rule: dec_entries.induct) (auto split: option.splits simp: put_entry_distinct)

end
