(* ===== verification/Container_Collector.thy ===== *)
theory Container_Collector
  imports Models Json_Decode Collector_Cache Float_Bounds Config_Model "HOL-Library.Multiset"
begin

text \<open>
  The container collector of \<open>internal/collectors/container.go\<close>. The Docker daemon answers through
  \<open>container_env\<close>; the statistics of a container are a JSON value decoded here. One goroutine per
  container computes its metric, and the metrics are listed in the order the goroutines finish,
  which is a parameter of the environment.
\<close>

section \<open>Statistics\<close>

record cpu_usage_stats =
  cus_TotalUsage :: uint64
  cus_PercpuUsage :: "uint64 slice"

record cpu_stats =
  cst_CPUUsage :: cpu_usage_stats
  cst_SystemCPUUsage :: uint64
  cst_OnlineCPUs :: uint32

record precpu_stats =
  pcs_TotalUsage :: uint64
  pcs_SystemCPUUsage :: uint64

record memory_stats =
  mst_Usage :: uint64
  mst_Limit :: uint64

record blkio_entry =
  bio_Op :: string
  bio_Value :: uint64

record net_stats =
  nst_RxBytes :: uint64
  nst_TxBytes :: uint64

record DockerStats =
  ds_ID :: string
  ds_PidsCurrent :: uint64
  ds_CPUStats :: cpu_stats
  ds_PreCPUStats :: precpu_stats
  ds_MemoryStats :: memory_stats
  ds_IoServiceBytesRecursive :: "blkio_entry slice"
  ds_Networks :: "(string \<times> net_stats) list option"

definition zero_DockerStats :: DockerStats where
  "zero_DockerStats =
     \<lparr>ds_ID = [], ds_PidsCurrent = 0,
      ds_CPUStats = \<lparr>cst_CPUUsage = \<lparr>cus_TotalUsage = 0, cus_PercpuUsage = None\<rparr>,
        cst_SystemCPUUsage = 0, cst_OnlineCPUs = 0\<rparr>,
      ds_PreCPUStats = \<lparr>pcs_TotalUsage = 0, pcs_SystemCPUUsage = 0\<rparr>,
      ds_MemoryStats = \<lparr>mst_Usage = 0, mst_Limit = 0\<rparr>,
      ds_IoServiceBytesRecursive = None, ds_Networks = None\<rparr>"

text \<open>
  The decoder of the statistics; \<open>is_time\<close> tells the texts that \<open>time.Time\<close> accepts. The fields of
  the nested anonymous structs \<open>pids_stats\<close>, \<open>blkio_stats\<close> and \<open>precpu_stats.cpu_usage\<close> are decoded
  straight into the record that holds them.
\<close>

fun dec_time :: "(string \<Rightarrow> bool) \<Rightarrow> 'r decoder" where
  "dec_time is_time JNull r = Some r"
| "dec_time is_time (JStr s) r = (if is_time s then Some r else None)"
| "dec_time is_time (JTime t) r = Some r"
| "dec_time is_time _ r = None"

definition dec_cpu_usage :: "cpu_usage_stats decoder" where
  "dec_cpu_usage = dec_object
     [(''total_usage'', dec_uint (\<lambda>n. cus_TotalUsage_update (\<lambda>_. n))),
      (''percpu_usage'', dec_slice (\<lambda>xs. cus_PercpuUsage_update (\<lambda>_. xs)) (dec_uint (\<lambda>n _. n)) 0)]"

definition dec_cpu_stats :: "cpu_stats decoder" where
  "dec_cpu_stats = dec_object
     [(''cpu_usage'', dec_nested cst_CPUUsage (\<lambda>f. cst_CPUUsage_update (\<lambda>_. f)) dec_cpu_usage),
      (''system_cpu_usage'', dec_uint (\<lambda>n. cst_SystemCPUUsage_update (\<lambda>_. n))),
      (''online_cpus'', dec_uint (\<lambda>n. cst_OnlineCPUs_update (\<lambda>_. n)))]"

definition dec_precpu_stats :: "precpu_stats decoder" where
  "dec_precpu_stats = dec_object
     [(''cpu_usage'', dec_object [(''total_usage'', dec_uint (\<lambda>n. pcs_TotalUsage_update (\<lambda>_. n)))]),
      (''system_cpu_usage'', dec_uint (\<lambda>n. pcs_SystemCPUUsage_update (\<lambda>_. n)))]"

definition dec_memory_stats :: "memory_stats decoder" where
  "dec_memory_stats = dec_object
     [(''usage'', dec_uint (\<lambda>n. mst_Usage_update (\<lambda>_. n))), (''limit'', dec_uint (\<lambda>n. mst_Limit_update (\<lambda>_. n)))]"

definition dec_blkio_entry :: "blkio_entry decoder" where
  "dec_blkio_entry = dec_object
     [(''op'', dec_str (\<lambda>s. bio_Op_update (\<lambda>_. s))), (''value'', dec_uint (\<lambda>n. bio_Value_update (\<lambda>_. n)))]"

definition dec_net_stats :: "net_stats decoder" where
  "dec_net_stats = dec_object
     [(''rx_bytes'', dec_uint (\<lambda>n. nst_RxBytes_update (\<lambda>_. n))), (''tx_bytes'', dec_uint (\<lambda>n. nst_TxBytes_update (\<lambda>_. n)))]"

definition dec_DockerStats :: "(string \<Rightarrow> bool) \<Rightarrow> DockerStats decoder" where
  "dec_DockerStats is_time = dec_object
     [(''read'', dec_time is_time),
      (''id'', dec_str (\<lambda>s. ds_ID_update (\<lambda>_. s))),
      (''pids_stats'', dec_object [(''current'', dec_uint (\<lambda>n. ds_PidsCurrent_update (\<lambda>_. n)))]),
      (''cpu_stats'', dec_nested ds_CPUStats (\<lambda>f. ds_CPUStats_update (\<lambda>_. f)) dec_cpu_stats),
      (''precpu_stats'', dec_nested ds_PreCPUStats (\<lambda>f. ds_PreCPUStats_update (\<lambda>_. f)) dec_precpu_stats),
      (''memory_stats'', dec_nested ds_MemoryStats (\<lambda>f. ds_MemoryStats_update (\<lambda>_. f)) dec_memory_stats),
      (''blkio_stats'', dec_object [(''io_service_bytes_recursive'',
         dec_slice (\<lambda>xs. ds_IoServiceBytesRecursive_update (\<lambda>_. xs)) dec_blkio_entry \<lparr>bio_Op = [], bio_Value = 0\<rparr>)]),
      (''networks'', dec_map ds_Networks (\<lambda>es. ds_Networks_update (\<lambda>_. es)) dec_net_stats
         \<lparr>nst_RxBytes = 0, nst_TxBytes = 0\<rparr>)]"

section \<open>Figures\<close>

definition f64_of_word :: "'a::len word \<Rightarrow> f64" where
  "f64_of_word w = f64_of_int (uint w)"

definition calculateCPUUsage :: "DockerStats \<Rightarrow> f64" where
  "calculateCPUUsage current =
     (let cpuDelta = f64_of_word (cus_TotalUsage (cst_CPUUsage (ds_CPUStats current)))
            - f64_of_word (pcs_TotalUsage (ds_PreCPUStats current));
          systemDelta = f64_of_word (cst_SystemCPUUsage (ds_CPUStats current))
            - f64_of_word (pcs_SystemCPUUsage (ds_PreCPUStats current));
          onlineCPUs = f64_of_word (cst_OnlineCPUs (ds_CPUStats current));
          onlineCPUs = (if f64_eq onlineCPUs 0
            then f64_of_int (slice_len (cus_PercpuUsage (cst_CPUUsage (ds_CPUStats current)))) else onlineCPUs)
      in if 0 < systemDelta \<and> 0 < cpuDelta then (cpuDelta / systemDelta) * onlineCPUs * Fin 100 else 0)"

definition calculateMemoryUsage :: "DockerStats \<Rightarrow> int64 \<times> int64 \<times> f64" where
  "calculateMemoryUsage current =
     (let usage = int64_of_uint64 (mst_Usage (ds_MemoryStats current));
          limit = int64_of_uint64 (mst_Limit (ds_MemoryStats current))
      in (usage, limit, if 0 < limit then f64_of_int usage / f64_of_int limit * Fin 100 else 0))"

fun sum_networks :: "(string \<times> net_stats) list \<Rightarrow> int64 \<times> int64 \<Rightarrow> int64 \<times> int64" where
  "sum_networks [] acc = acc"
| "sum_networks ((name, network) # ns) (rx, tx) =
     sum_networks ns (s64 (rx + int64_of_uint64 (nst_RxBytes network)), s64 (tx + int64_of_uint64 (nst_TxBytes network)))"

definition calculateNetworkIO :: "DockerStats \<Rightarrow> int64 \<times> int64" where
  "calculateNetworkIO current =
     sum_networks (case ds_Networks current of None \<Rightarrow> [] | Some ns \<Rightarrow> ns) (0, 0)"

fun sum_blkio :: "blkio_entry list \<Rightarrow> int64 \<times> int64 \<Rightarrow> int64 \<times> int64" where
  "sum_blkio [] acc = acc"
| "sum_blkio (b # bs) (rd, wr) =
     sum_blkio bs
       (if bio_Op b = ''Read'' then (s64 (rd + int64_of_uint64 (bio_Value b)), wr)
        else if bio_Op b = ''Write'' then (rd, s64 (wr + int64_of_uint64 (bio_Value b)))
        else (rd, wr))"

definition calculateBlockIO :: "DockerStats \<Rightarrow> int64 \<times> int64" where
  "calculateBlockIO current = sum_blkio (slice_list (ds_IoServiceBytesRecursive current)) (0, 0)"

section \<open>Conversions\<close>

text \<open>A Go map is its entries, in the order of the one loop that ranges over it.\<close>

definition convertLabels :: "(string \<times> string) list option \<Rightarrow> ContainerLabel slice" where
  "convertLabels m = map_option (map (\<lambda>(k, v). \<lparr>cl_Key = k, cl_Value = v\<rparr>)) m"

text \<open>The health of an inspected container; its log holds pointers to the check results.\<close>

record docker_health =
  dh_Status :: string
  dh_FailingStreak :: int64
  dh_LogOutputs :: "string option list"

definition convertHealth :: "docker_health option \<Rightarrow> ContainerHealth outcome" where
  "convertHealth h =
     (case h of
        None \<Rightarrow> Return (zero_ContainerHealth\<lparr>ch_Status := ''unknown''\<rparr>)
      | Some h \<Rightarrow>
          obind (if dh_LogOutputs h = [] then Return []
                 else (case last (dh_LogOutputs h) of None \<Rightarrow> Panic NilDereference | Some out \<Rightarrow> Return out))
            (\<lambda>out. Return
              \<lparr>ch_Status = (if dh_Status h = [] then ''unknown'' else dh_Status h),
               ch_FailingStreak = dh_FailingStreak h, ch_LastCheckOutput = out\<rparr>))"

text \<open>
  A published port: the number and the protocol that the library reads from its key, and the host
  ports of its bindings (\<open>None\<close> for nil).
\<close>

definition convertPorts :: "((string \<times> string) \<times> string list option) list option \<Rightarrow> ContainerPort slice" where
  "convertPorts p =
     map_option (\<lambda>ps. concat (map (\<lambda>((port, proto), hostBindings).
       case hostBindings of
         None \<Rightarrow> []
       | Some hostPorts \<Rightarrow> map (\<lambda>hp. \<lparr>cp_ContainerPort = port, cp_HostPort = hp, cp_Protocol = proto\<rparr>) hostPorts) ps)) p"

record endpoint =
  ep_IPAddress :: string
  ep_MacAddress :: string

fun convert_endpoints :: "net_stats \<Rightarrow> (string \<times> endpoint option) list \<Rightarrow> ContainerNetwork list outcome" where
  "convert_endpoints s [] = Return []"
| "convert_endpoints s ((name, settings) # ns) =
     (case settings of
        None \<Rightarrow> Panic NilDereference
      | Some e \<Rightarrow> obind (convert_endpoints s ns) (\<lambda>networks. Return
          (\<lparr>cn_Name = name, cn_IP = ep_IPAddress e, cn_MAC = ep_MacAddress e,
            cn_RxBytes = nst_RxBytes s, cn_TxBytes = nst_TxBytes s\<rparr> # networks)))"

definition convertNetworks ::
  "(string \<times> endpoint option) list option \<Rightarrow> DockerStats \<Rightarrow> ContainerNetwork slice outcome" where
  "convertNetworks n stats =
     (case n of
        None \<Rightarrow> Return None
      | Some ns \<Rightarrow>
          let s = (case ds_Networks stats of
                     Some [(ifname, singleNetStats)] \<Rightarrow> singleNetStats
                   | _ \<Rightarrow> \<lparr>nst_RxBytes = 0, nst_TxBytes = 0\<rparr>)
          in obind (convert_endpoints s ns) (\<lambda>networks. Return (Some networks)))"

record mount_point =
  mp_Source :: string
  mp_Destination :: string
  mp_Mode :: string
  mp_Type :: string

definition convertVolumes :: "mount_point list option \<Rightarrow> ContainerVolume slice" where
  "convertVolumes m = map_option (map (\<lambda>mount.
     \<lparr>cv_Source = mp_Source mount, cv_Destination = mp_Destination mount, cv_Mode = mp_Mode mount,
      cv_Type = mp_Type mount\<rparr>)) m"

definition convert_env_var :: "string \<Rightarrow> ContainerEnv" where
  "convert_env_var envVar =
     (let parts = split_on2 (CHR ''='') envVar
      in \<lparr>ce_Key = hd parts, ce_Value = (if 1 < length parts then parts ! 1 else [])\<rparr>)"

definition convertEnv :: "string list option \<Rightarrow> ContainerEnv slice" where
  "convertEnv e = map_option (map convert_env_var) e"

section \<open>Collection\<close>

record docker_container =
  ct_ID :: string
  ct_Names :: "string list"
  ct_Image :: string
  ct_Status :: string

text \<open>An inspected container: what the library holds behind a pointer is an option here.\<close>

record docker_base =
  db_Created :: string
  db_RestartCount :: int64
  db_State :: "docker_health option option"

record docker_config =
  dcf_Labels :: "(string \<times> string) list option"
  dcf_Env :: "string list option"

record docker_network_settings =
  dn_Ports :: "((string \<times> string) \<times> string list option) list option"
  dn_Networks :: "(string \<times> endpoint option) list option"

record docker_details =
  dd_Base :: "docker_base option"
  dd_Mounts :: "mount_point list option"
  dd_Config :: "docker_config option"
  dd_NetworkSettings :: "docker_network_settings option"

text \<open>
  What one collection sees: the answers to \<open>ContainerList\<close>, \<open>ContainerInspect\<close>, \<open>ContainerStats\<close>
  and the reading of its body (the JSON value it holds, \<open>None\<close> when it is not JSON), the order in
  which the goroutines send their metrics, and the clock readings of the cache.
\<close>

record container_env =
  ke_check_time :: instant
  ke_list :: "go_error + docker_container list"
  ke_inspect :: "string \<Rightarrow> go_error + docker_details"
  ke_stats :: "string \<Rightarrow> go_error option"
  ke_body :: "string \<Rightarrow> go_error + json option"
  ke_is_time :: "string \<Rightarrow> bool"
  ke_arrival :: "DockerContainer list \<Rightarrow> DockerContainer list"
  ke_store_time :: instant

definition deref :: "'a option \<Rightarrow> 'a outcome" where
  "deref p = (case p of None \<Rightarrow> Panic NilDereference | Some x \<Rightarrow> Return x)"

text \<open>A skipped container is logged under the first twelve characters of its ID.\<close>

definition warn_and_skip :: "docker_container \<Rightarrow> DockerContainer option outcome" where
  "warn_and_skip cont = obind (go_slice_to (ct_ID cont) 12) (\<lambda>_. Return None)"

definition parse_stats :: "container_env \<Rightarrow> json option \<Rightarrow> DockerStats option" where
  "parse_stats env body =
     (case body of None \<Rightarrow> None | Some j \<Rightarrow> dec_DockerStats (ke_is_time env) j zero_DockerStats)"

definition convert_container ::
  "docker_container \<Rightarrow> docker_details \<Rightarrow> DockerStats \<Rightarrow> DockerContainer outcome" where
  "convert_container cont details currentStats =
     (let cpuUsage = calculateCPUUsage currentStats;
          (memUsage, memLimit, memPercent) = calculateMemoryUsage currentStats;
          (netRx, netTx) = calculateNetworkIO currentStats;
          (blkRead, blkWrite) = calculateBlockIO currentStats
      in obind (go_index (ct_Names cont) 0) (\<lambda>name.
         obind (deref (dd_Base details)) (\<lambda>base.
         obind (deref (dd_Config details)) (\<lambda>cfg.
         obind (deref (db_State base)) (\<lambda>state.
         obind (convertHealth state) (\<lambda>health.
         obind (deref (dd_NetworkSettings details)) (\<lambda>net.
         obind (convertNetworks (dn_Networks net) currentStats) (\<lambda>networks. Return
           \<lparr>dc_ID = ct_ID cont,
            dc_Name = trim_prefix ''/'' name,
            dc_Image = ct_Image cont,
            dc_Status = ct_Status cont,
            dc_Created = db_Created base,
            dc_CPUUsage = cpuUsage,
            dc_MemoryUsage = memUsage,
            dc_MemoryLimit = memLimit,
            dc_MemoryPercent = memPercent,
            dc_NetworkRxBytes = netRx,
            dc_NetworkTxBytes = netTx,
            dc_BlockRead = blkRead,
            dc_BlockWrite = blkWrite,
            dc_PIDs = int64_of_uint64 (ds_PidsCurrent currentStats),
            dc_Restarts = db_RestartCount base,
            dc_Labels = convertLabels (dcf_Labels cfg),
            dc_Health = health,
            dc_Ports = convertPorts (dn_Ports net),
            dc_Networks = networks,
            dc_Volumes = convertVolumes (dd_Mounts details),
            dc_Env = convertEnv (dcf_Env cfg)\<rparr>))))))))"

text \<open>The goroutine of one container: the metric it sends, or none when it skips the container.\<close>

definition container_goroutine :: "container_env \<Rightarrow> docker_container \<Rightarrow> DockerContainer option outcome" where
  "container_goroutine env cont =
     (case ke_inspect env (ct_ID cont) of
        Inl err \<Rightarrow> warn_and_skip cont
      | Inr details \<Rightarrow>
          (case ke_stats env (ct_ID cont) of
             Some err \<Rightarrow> warn_and_skip cont
           | None \<Rightarrow>
               (case ke_body env (ct_ID cont) of
                  Inl err \<Rightarrow> warn_and_skip cont
                | Inr body \<Rightarrow>
                    (case parse_stats env body of
                       None \<Rightarrow> warn_and_skip cont
                     | Some currentStats \<Rightarrow>
                         obind (convert_container cont details currentStats) (\<lambda>m. Return (Some m))))))"

text \<open>A panic in any of the goroutines ends the program, so no collection returns then.\<close>

fun container_goroutines ::
  "(docker_container \<Rightarrow> DockerContainer option outcome) \<Rightarrow> docker_container list \<Rightarrow> DockerContainer list outcome" where
  "container_goroutines body [] = Return []"
| "container_goroutines body (cont # conts) =
     obind (body cont) (\<lambda>m. obind (container_goroutines body conts) (\<lambda>ms.
       Return (case m of None \<Rightarrow> ms | Some x \<Rightarrow> x # ms)))"

record ContainerCollector =
  kk_dockerClient :: bool
  kk_cachedMetrics :: "DockerContainer slice"
  kk_cachedTime :: instant
  kk_cacheDuration :: duration
  kk_updateFrequency :: duration
  kk_backgroundRunning :: bool

definition collectContainerMetrics ::
  "container_env \<Rightarrow> ContainerCollector \<Rightarrow> ((go_error + DockerContainer slice) \<times> ContainerCollector) outcome" where
  "collectContainerMetrics env c =
     (if \<not> kk_dockerClient c then Panic NilDereference
      else (case ke_list env of
              Inl err \<Rightarrow> Return (Inl err, c)
            | Inr containers \<Rightarrow>
                obind (container_goroutines (container_goroutine env) containers) (\<lambda>metrics.
                  Return (Inr (slice_of_appends (ke_arrival env metrics)), c))))"

section \<open>Cache and background collection\<close>

definition container_store :: "instant \<Rightarrow> DockerContainer slice \<Rightarrow> ContainerCollector \<Rightarrow> ContainerCollector" where
  "container_store t metrics c = c\<lparr>kk_cachedMetrics := metrics, kk_cachedTime := t\<rparr>"

definition container_collectAndCache :: "container_env \<Rightarrow> ContainerCollector \<Rightarrow> ContainerCollector outcome" where
  "container_collectAndCache env c =
     obind (collectContainerMetrics env c)
       (\<lambda>(r, c'). Return (case r of Inr metrics \<Rightarrow> container_store (ke_store_time env) metrics c' | Inl err \<Rightarrow> c'))"

definition container_isCacheValid :: "instant \<Rightarrow> ContainerCollector \<Rightarrow> bool" where
  "container_isCacheValid now c \<longleftrightarrow>
     time_sub now (kk_cachedTime c) < kk_cacheDuration c \<and> kk_cachedMetrics c \<noteq> None"

definition container_Collect ::
  "container_env \<Rightarrow> ContainerCollector \<Rightarrow> ((go_error + DockerContainer slice) \<times> ContainerCollector) outcome" where
  "container_Collect env c =
     (if \<not> kk_dockerClient c then Return (Inr (Some []), c)
      else if container_isCacheValid (ke_check_time env) c then Return (Inr (kk_cachedMetrics c), c)
      else obind (collectContainerMetrics env c)
        (\<lambda>(r, c'). Return (case r of Inl err \<Rightarrow> (Inl err, c') | Inr metrics \<Rightarrow> (Inr metrics, c'))))"

definition container_startBackgroundCollection :: "ContainerCollector \<Rightarrow> ContainerCollector \<times> bool" where
  "container_startBackgroundCollection c =
     (if kk_backgroundRunning c \<or> \<not> kk_dockerClient c then (c, False)
      else (c\<lparr>kk_backgroundRunning := True\<rparr>, True))"

definition container_background :: "container_env \<Rightarrow> ContainerCollector \<Rightarrow> ContainerCollector outcome" where
  "container_background env c =
     obind (container_collectAndCache env c)
       (\<lambda>c'. obind (new_ticker (kk_updateFrequency c')) (\<lambda>_. Return c'))"

text \<open>\<open>cli\<close> is the error of the client's creation, if it fails.\<close>

definition NewContainerCollector ::
  "go_error option \<Rightarrow> DockerCollectorSettings \<Rightarrow> ContainerCollector \<times> bool" where
  "NewContainerCollector cli cfg =
     (let c = \<lparr>kk_dockerClient = False, kk_cachedMetrics = None, kk_cachedTime = zero_time,
          kk_cacheDuration = dur_seconds (docker_CacheDurationSeconds cfg),
          kk_updateFrequency = dur_seconds (docker_UpdateFrequencySeconds cfg),
          kk_backgroundRunning = False\<rparr>
      in (case cli of
            Some err \<Rightarrow> (c, False)
          | None \<Rightarrow> container_startBackgroundCollection (c\<lparr>kk_dockerClient := True\<rparr>)))"

section \<open>Lemmas\<close>

lemma container_goroutines_eq:
  assumes "\<And>cont. cont \<in> set conts \<Longrightarrow> body cont = Return (f cont)"
  shows "container_goroutines body conts = Return (List.map_filter f conts)"
  using assms by (induction conts) (auto simp: List.map_filter_simps split: option.splits)

lemma container_goroutines_Return:
  "container_goroutines body conts = Return ms \<Longrightarrow> x \<in> set ms \<Longrightarrow>
   \<exists>cont \<in> set conts. body cont = Return (Some x)"
  by (induction conts arbitrary: ms) (auto split: option.splits)

definition container_inv :: "ContainerCollector \<Rightarrow> bool" where
  "container_inv c \<longleftrightarrow> kk_dockerClient c \<and> int64_range (kk_cacheDuration c)"

lemma collectContainer_frame:
  "collectContainerMetrics env c = Return (r, c') \<Longrightarrow> c' = c \<and> kk_dockerClient c"
  by (auto simp: collectContainerMetrics_def split: if_splits sum.splits)

lemma container_Collect_client:
  "kk_dockerClient c \<Longrightarrow> container_Collect env c =
     (if container_isCacheValid (ke_check_time env) c then Return (Inr (kk_cachedMetrics c), c)
      else collectContainerMetrics env c)"
  by (auto simp: container_Collect_def collectContainerMetrics_def obind_assoc
      split: sum.splits intro!: arg_cong [of _ _ "obind _"])

interpretation docker_cache: metric_cache container_isCacheValid kk_cachedMetrics kk_cachedTime
  kk_cacheDuration collectContainerMetrics container_store container_Collect container_collectAndCache
  ke_check_time ke_store_time container_inv
proof unfold_locales
  fix s s2 e
  assume "container_collectAndCache e s = Return s2"
  then show "\<exists>r s1. collectContainerMetrics e s = Return (r, s1)
      \<and> s2 = (case r of Inl err \<Rightarrow> s1 | Inr m \<Rightarrow> container_store (ke_store_time e) m s1)"
    unfolding container_collectAndCache_def by (intro refresh_result)
qed (auto simp: container_isCacheValid_def container_inv_def container_store_def container_Collect_client
    dest!: collectContainer_frame)

text \<open>The totals wrap once, whatever the order of the entries.\<close>

lemma int64_of_uint64_s64: "int64_of_uint64 w = s64 (uint w)"
proof -
  have w: "0 \<le> uint w" "uint w < 2 ^ 64" using uint_lt2p [of w] by simp_all
  have "(uint w + 2 ^ 63) mod 2 ^ 64 = (if uint w < 2 ^ 63 then uint w + 2 ^ 63 else uint w + 2 ^ 63 - 2 ^ 64)"
    using w mod_pos_pos_trivial [of "uint w + 2 ^ 63" "2 ^ 64"]
      mod_pos_pos_trivial [of "uint w + 2 ^ 63 - 2 ^ 64" "2 ^ 64"] minus_mod_self2 [of "uint w + 2 ^ 63" "2 ^ 64"]
    by (cases "uint w < 2 ^ 63") simp_all
  then show ?thesis by (simp add: int64_of_uint64_eq s64_def)
qed

lemma s64_add_uint: "s64 (x + int64_of_uint64 w) = s64 (x + uint w)"
  by (simp add: int64_of_uint64_s64 s64_add_right)

lemma sum_networks_eq:
  "sum_networks ns (s64 a, s64 b) =
     (s64 (a + (\<Sum>n \<leftarrow> ns. uint (nst_RxBytes (snd n)))), s64 (b + (\<Sum>n \<leftarrow> ns. uint (nst_TxBytes (snd n)))))"
  by (induction ns arbitrary: a b) (auto simp: s64_add_uint s64_add_left add.assoc)

definition blkio_total :: "string \<Rightarrow> blkio_entry list \<Rightarrow> int" where
  "blkio_total opn bs = (\<Sum>b \<leftarrow> filter (\<lambda>b. bio_Op b = opn) bs. uint (bio_Value b))"

lemma sum_blkio_eq:
  "sum_blkio bs (s64 a, s64 b) = (s64 (a + blkio_total ''Read'' bs), s64 (b + blkio_total ''Write'' bs))"
  by (induction bs arbitrary: a b) (auto simp: s64_add_uint s64_add_left add.assoc blkio_total_def)

text \<open>The figures of a container are numbers.\<close>

lemma uint_le_powi: "of_int (uint (w :: uint64)) \<le> (2 :: rat) powi 64"
proof -
  have "uint w \<le> 2 ^ 64" using uint_lt2p [of w] by simp
  then have "of_int (uint w) \<le> (of_int (2 ^ 64) :: rat)" by (simp only: of_int_le_iff)
  then show ?thesis by simp
qed

lemma abs_uint_le_powi: "\<bar>of_int (uint (w :: uint64))\<bar> \<le> (2 :: rat) powi 64"
proof -
  have "0 \<le> (of_int (uint w) :: rat)" by (simp only: of_int_0_le_iff uint_ge_0)
  then have "\<bar>of_int (uint w)\<bar> = (of_int (uint w) :: rat)" by (rule abs_of_nonneg)
  then show ?thesis using uint_le_powi [of w] by (simp only:)
qed

lemma word_within: "f64_within 64 (f64_of_word (w :: uint64))"
  unfolding f64_of_word_def by (rule within_of_int [OF abs_uint_le_powi]) simp_all

lemma calculateCPUUsage_bounds:
  assumes "slice_len (cus_PercpuUsage (cst_CPUUsage (ds_CPUStats s))) < 2 ^ 63"
  shows "0 \<le> calculateCPUUsage s \<and> f64_finite (calculateCPUUsage s)"
proof -
  let ?u = "cus_TotalUsage (cst_CPUUsage (ds_CPUStats s))" and ?pu = "pcs_TotalUsage (ds_PreCPUStats s)"
  let ?y = "cst_SystemCPUUsage (ds_CPUStats s)" and ?py = "pcs_SystemCPUUsage (ds_PreCPUStats s)"
  define cd where "cd = f64_of_word ?u - f64_of_word ?pu"
  define sd where "sd = f64_of_word ?y - f64_of_word ?py"
  define k where "k = (if f64_eq (f64_of_word (cst_OnlineCPUs (ds_CPUStats s))) 0
      then slice_len (cus_PercpuUsage (cst_CPUUsage (ds_CPUStats s))) else uint (cst_OnlineCPUs (ds_CPUStats s)))"
  have e: "calculateCPUUsage s = (if 0 < sd \<and> 0 < cd then cd / sd * f64_of_int k * Fin 100 else 0)"
    by (simp add: calculateCPUUsage_def Let_def cd_def sd_def k_def f64_of_word_def)
  have k: "0 \<le> k" "k \<le> 2 ^ 63"
    using assms uint_lt2p [of "cst_OnlineCPUs (ds_CPUStats s)"] by (auto simp: k_def slice_len_def)
  show ?thesis
  proof (cases "0 < sd \<and> 0 < cd")
    case False
    show ?thesis unfolding e if_not_P [OF False] using f64_zero_le_zero by (simp add: zero_f64_def)
  next
    case True
    have cw: "f64_within 65 cd"
      using within_minus [OF word_within [of ?u] word_within [of ?pu]] by (simp add: cd_def)
    obtain r where r: "sd = Fin r" "1 \<le> r"
      using f64_counter_diff [OF _ abs_uint_le_powi abs_uint_le_powi, of ?y ?py] True
      unfolding sd_def f64_of_word_def by metis
    have q: "f64_within 65 (cd / sd)" using within_divide [OF cw r(1), of 0] r(2) by simp
    have q0: "0 \<le> cd / sd" using True r by (cases cd) (auto simp: f64_ops intro!: f64_round_nonneg [unfolded f64_ops])
    have "of_int k \<le> (of_int (2 ^ 63) :: rat)" using k(2) by (simp only: of_int_le_iff)
    then have kw: "f64_within 63 (f64_of_int k)" using k(1) by (intro within_of_int) simp_all
    have t: "f64_within 128 (cd / sd * f64_of_int k)" using within_times [OF q kw] by simp
    have "f64_within 7 (Fin 100)" by (simp add: within_Fin)
    from within_times [OF t this] have "f64_within 135 (cd / sd * f64_of_int k * Fin 100)" by simp
    moreover have "0 \<le> cd / sd * f64_of_int k" using q0 f64_of_int_nonneg [OF k(1)] within_finite [OF q] within_finite [OF kw]
      by (cases "cd / sd"; cases "f64_of_int k") (auto simp: f64_ops intro!: f64_round_nonneg [unfolded f64_ops])
    then have "0 \<le> cd / sd * f64_of_int k * Fin 100"
      using f64_times_nonneg [of "cd / sd * f64_of_int k" "Fin 100"] by (simp add: f64_ops)
    ultimately show ?thesis using True by (auto simp: e)
  qed
qed

lemma memory_percent_bounds:
  assumes "calculateMemoryUsage s = (usage, limit, percent)"
  shows "f64_finite percent \<and> (0 \<le> usage \<longrightarrow> usage \<le> limit \<longrightarrow> 0 \<le> percent \<and> percent \<le> Fin 100)"
proof -
  have u: "int64_range usage" "int64_range limit"
    and p: "percent = (if 0 < limit then f64_of_int usage / f64_of_int limit * Fin 100 else 0)"
    using assms by (auto simp: calculateMemoryUsage_def Let_def)
  show ?thesis
  proof (cases "0 < limit")
    case False
    then show ?thesis using p by (simp add: zero_f64_def f64_ops)
  next
    case True
    have l: "limit \<le> 2 ^ 64" using u(2) by (simp add: int64_range_def)
    obtain r where r: "f64_of_int limit = Fin r" "1 \<le> r" using f64_of_int_pos [OF True l] by blast
    have "\<bar>usage\<bar> \<le> 2 ^ 63" using u(1) unfolding int64_range_def by linarith
    then have "of_int \<bar>usage\<bar> \<le> (of_int (2 ^ 63) :: rat)" by (simp only: of_int_le_iff)
    then have "f64_within 63 (f64_of_int usage)" by (intro within_of_int) simp_all
    from within_divide [OF this r(1), of 0] r(2) have "f64_within 63 (f64_of_int usage / f64_of_int limit)" by simp
    from within_times [OF this, of 7 "Fin 100"] have "f64_within 70 percent"
      using True by (simp add: p within_Fin)
    moreover have "0 \<le> usage \<Longrightarrow> usage \<le> limit \<Longrightarrow> 0 \<le> percent \<and> percent \<le> Fin 100"
      using f64_percent_bounds [of usage limit] True l by (simp add: p)
    ultimately show ?thesis by auto
  qed
qed

text \<open>What a listed container that the daemon answers for looks like, and what its metric says of it.\<close>

definition container_answers :: "container_env \<Rightarrow> docker_container \<Rightarrow> bool" where
  "container_answers env cont \<longleftrightarrow>
     \<not> isl (ke_inspect env (ct_ID cont)) \<and> ke_stats env (ct_ID cont) = None
     \<and> (\<exists>body s. ke_body env (ct_ID cont) = Inr body \<and> parse_stats env body = Some s)"

definition details_complete :: "docker_details \<Rightarrow> bool" where
  "details_complete d \<longleftrightarrow> dd_Config d \<noteq> None
     \<and> (\<exists>b st. dd_Base d = Some b \<and> db_State b = Some st \<and> (\<forall>h. st = Some h \<longrightarrow> None \<notin> set (dh_LogOutputs h)))
     \<and> (\<exists>n. dd_NetworkSettings d = Some n \<and> (\<forall>ns. dn_Networks n = Some ns \<longrightarrow> None \<notin> snd ` set ns))"

definition container_wf :: "container_env \<Rightarrow> docker_container \<Rightarrow> bool" where
  "container_wf env cont \<longleftrightarrow> 12 \<le> length (ct_ID cont) \<and> ct_Names cont \<noteq> []
     \<and> (\<forall>d. ke_inspect env (ct_ID cont) = Inr d \<longrightarrow> details_complete d)"

definition env_matches :: "string \<Rightarrow> ContainerEnv \<Rightarrow> bool" where
  "env_matches envVar e \<longleftrightarrow>
     CHR ''='' \<notin> set (ce_Key e) \<and>
     (envVar = ce_Key e @ CHR ''='' # ce_Value e \<or> envVar = ce_Key e \<and> ce_Value e = [])"

definition container_matches :: "container_env \<Rightarrow> docker_container \<Rightarrow> DockerContainer \<Rightarrow> bool" where
  "container_matches env cont m \<longleftrightarrow>
     dc_ID m = ct_ID cont \<and> dc_Image m = ct_Image cont \<and> dc_Status m = ct_Status cont
     \<and> (\<exists>name. ct_Names cont ! 0 = name \<and> (name = CHR ''/'' # dc_Name m \<or> \<not> has_prefix ''/'' name \<and> name = dc_Name m))
     \<and> (\<exists>d cfg. ke_inspect env (ct_ID cont) = Inr d \<and> dd_Config d = Some cfg
          \<and> map (\<lambda>l. (cl_Key l, cl_Value l)) (slice_list (dc_Labels m)) = slice_list (dcf_Labels cfg)
          \<and> list_all2 env_matches (slice_list (dcf_Env cfg)) (slice_list (dc_Env m))
          \<and> map cv_Source (slice_list (dc_Volumes m)) = map mp_Source (slice_list (dd_Mounts d)))"

lemma convertEnv_matches: "list_all2 env_matches (slice_list e) (slice_list (convertEnv e))"
proof -
  have "env_matches v (convert_env_var v)" for v
    using split_on2_cases [of "CHR ''=''" v] by (auto simp: env_matches_def convert_env_var_def Let_def)
  then show ?thesis
    by (cases e) (simp_all add: convertEnv_def list_all2_map2 list.rel_refl)
qed

lemma convertLabels_entries:
  "map (\<lambda>l. (cl_Key l, cl_Value l)) (slice_list (convertLabels ls)) = slice_list ls"
  by (cases ls) (simp_all add: convertLabels_def map_idI case_prod_beta)

lemma convertVolumes_sources:
  "map cv_Source (slice_list (convertVolumes ms)) = map mp_Source (slice_list ms)"
  by (cases ms) (simp_all add: convertVolumes_def)

lemma trim_slash:
  "name = CHR ''/'' # trim_prefix ''/'' name \<or> \<not> has_prefix ''/'' name \<and> name = trim_prefix ''/'' name"
  by (auto simp: has_prefix_iff trim_prefix_def)

lemma convert_endpoints_Return:
  "None \<notin> snd ` set ns \<Longrightarrow> \<exists>networks. convert_endpoints s ns = Return networks"
  by (induction s ns rule: convert_endpoints.induct) (auto split: option.splits)

lemma convertHealth_Return:
  assumes "\<And>h. st = Some h \<Longrightarrow> None \<notin> set (dh_LogOutputs h)" shows "\<exists>h. convertHealth st = Return h"
proof (cases st)
  case (Some h)
  then have "dh_LogOutputs h \<noteq> [] \<Longrightarrow> last (dh_LogOutputs h) \<noteq> None"
    using assms by (metis last_in_set)
  then show ?thesis using Some by (auto simp: convertHealth_def)
qed (simp add: convertHealth_def)

lemma convert_container_Return:
  assumes "details_complete d" "ct_Names cont \<noteq> []" "ke_inspect env (ct_ID cont) = Inr d"
  shows "\<exists>m. convert_container cont d s = Return m \<and> container_matches env cont m"
proof -
  obtain b st cfg n where d: "dd_Base d = Some b" "db_State b = Some st" "dd_Config d = Some cfg"
    "dd_NetworkSettings d = Some n" "\<And>h. st = Some h \<Longrightarrow> None \<notin> set (dh_LogOutputs h)"
    "\<And>ns. dn_Networks n = Some ns \<Longrightarrow> None \<notin> snd ` set ns"
    using assms(1) unfolding details_complete_def by blast
  obtain h where h: "convertHealth st = Return h" using convertHealth_Return d(5) by metis
  have "\<exists>networks. convertNetworks (dn_Networks n) s = Return networks"
    using d(6) convert_endpoints_Return by (fastforce simp: convertNetworks_def Let_def split: option.splits)
  then obtain networks where n: "convertNetworks (dn_Networks n) s = Return networks" ..
  have name: "go_index (ct_Names cont) 0 = Return (ct_Names cont ! 0)" using assms(2) by (simp add: go_index_def)
  have "\<exists>m. convert_container cont d s = Return m"
    by (simp add: convert_container_def Let_def deref_def d(1-4) h n name case_prod_beta)
  then obtain m where m: "convert_container cont d s = Return m" ..
  then have f: "dc_Name m = trim_prefix ''/'' (ct_Names cont ! 0)" "dc_ID m = ct_ID cont"
    "dc_Image m = ct_Image cont" "dc_Status m = ct_Status cont" "dc_Labels m = convertLabels (dcf_Labels cfg)"
    "dc_Env m = convertEnv (dcf_Env cfg)" "dc_Volumes m = convertVolumes (dd_Mounts d)"
    by (auto simp: convert_container_def Let_def deref_def d(1-4) h n name split: prod.splits)
  have "container_matches env cont m"
    unfolding container_matches_def f convertLabels_entries convertVolumes_sources
    using assms(3) d(3) convertEnv_matches trim_slash [of "ct_Names cont ! 0"] by blast
  with m show ?thesis by blast
qed

lemma container_goroutine_result:
  assumes "container_wf env cont"
  shows "\<exists>r. container_goroutine env cont = Return r \<and>
    (case r of None \<Rightarrow> \<not> container_answers env cont
     | Some m \<Rightarrow> container_answers env cont \<and> container_matches env cont m)"
proof -
  have skip: "warn_and_skip cont = Return None"
    using assms by (simp add: warn_and_skip_def container_wf_def go_slice_to_def)
  show ?thesis
  proof (cases "container_answers env cont")
    case False
    then show ?thesis
      by (auto simp: container_goroutine_def container_answers_def skip split: sum.split option.split)
  next
    case True
    then obtain d body s where a: "ke_inspect env (ct_ID cont) = Inr d" "ke_stats env (ct_ID cont) = None"
      "ke_body env (ct_ID cont) = Inr body" "parse_stats env body = Some s"
      by (cases "ke_inspect env (ct_ID cont)") (auto simp: container_answers_def)
    from convert_container_Return [of d cont env s] assms a(1) obtain m
      where "convert_container cont d s = Return m" "container_matches env cont m"
      by (auto simp: container_wf_def)
    then show ?thesis using a True by (auto simp: container_goroutine_def)
  qed
qed

lemma container_goroutines_result:
  "list_all (container_wf env) conts \<Longrightarrow>
   \<exists>ms. container_goroutines (container_goroutine env) conts = Return ms
     \<and> list_all2 (container_matches env) (filter (container_answers env) conts) ms"
proof (induction conts)
  case (Cons cont conts)
  then obtain ms where ms: "container_goroutines (container_goroutine env) conts = Return ms"
    "list_all2 (container_matches env) (filter (container_answers env) conts) ms" by auto
  obtain r where "container_goroutine env cont = Return r"
    "case r of None \<Rightarrow> \<not> container_answers env cont
     | Some m \<Rightarrow> container_answers env cont \<and> container_matches env cont m"
    using container_goroutine_result Cons.prems by auto
  with ms show ?case by (cases r) auto
qed simp

lemma container_goroutine_figures:
  assumes "container_goroutine env cont = Return (Some m)"
  obtains body s where "ke_body env (ct_ID cont) = Inr body" "parse_stats env body = Some s"
    "dc_CPUUsage m = calculateCPUUsage s" "calculateMemoryUsage s = (dc_MemoryUsage m, dc_MemoryLimit m, dc_MemoryPercent m)"
proof -
  have skip: "warn_and_skip cont \<noteq> Return (Some m)"
    by (auto simp: warn_and_skip_def go_slice_to_def split: if_splits)
  obtain d body s where a: "ke_inspect env (ct_ID cont) = Inr d" "ke_body env (ct_ID cont) = Inr body"
    "parse_stats env body = Some s" "convert_container cont d s = Return m"
    using assms skip by (auto simp: container_goroutine_def split: sum.splits option.splits)
  from a(4) have "dc_CPUUsage m = calculateCPUUsage s"
    "calculateMemoryUsage s = (dc_MemoryUsage m, dc_MemoryLimit m, dc_MemoryPercent m)"
    by (auto simp: convert_container_def Let_def split: prod.splits)
  with a that show ?thesis by blast
qed

definition sample_stats_body :: json where
  "sample_stats_body = JObj
     [(''cpu_stats'', JObj [(''cpu_usage'', JObj [(''total_usage'', JInt 300)]), (''system_cpu_usage'', JInt 1000),
        (''online_cpus'', JInt 2)]),
      (''precpu_stats'', JObj [(''cpu_usage'', JObj [(''total_usage'', JInt 100)]), (''system_cpu_usage'', JInt 500)]),
      (''memory_stats'', JObj [(''usage'', JInt 1024), (''limit'', JInt 4096)])]"

definition sample_container :: "string \<Rightarrow> docker_container" where
  "sample_container i = \<lparr>ct_ID = i, ct_Names = [''/web''], ct_Image = ''nginx'', ct_Status = ''Up''\<rparr>"

definition sample_container_env :: "docker_container list \<Rightarrow> container_env" where
  "sample_container_env conts = \<lparr>ke_check_time = 0, ke_list = Inr conts,
     ke_inspect = (\<lambda>i. Inr \<lparr>dd_Base = Some \<lparr>db_Created = [], db_RestartCount = 0, db_State = Some None\<rparr>, dd_Mounts = None,
        dd_Config = Some \<lparr>dcf_Labels = None, dcf_Env = Some [''A=1'']\<rparr>,
        dd_NetworkSettings = Some \<lparr>dn_Ports = None, dn_Networks = None\<rparr>\<rparr>),
     ke_stats = (\<lambda>i. None),
     ke_body = (\<lambda>i. if i = ''bbbbbbbbbbbb'' then Inl (ErrExt ''eof'') else Inr (Some sample_stats_body)),
     ke_is_time = (\<lambda>s. False), ke_arrival = rev, ke_store_time = 0\<rparr>"

definition sample_container_collector :: ContainerCollector where
  "sample_container_collector = fst (NewContainerCollector None (cs_Docker (cfg_Collectors DefaultConfig)))"

definition sample_stats :: DockerStats where
  "sample_stats = zero_DockerStats
     \<lparr>ds_CPUStats := \<lparr>cst_CPUUsage = \<lparr>cus_TotalUsage = 300, cus_PercpuUsage = None\<rparr>,
        cst_SystemCPUUsage = 1000, cst_OnlineCPUs = 2\<rparr>,
      ds_PreCPUStats := \<lparr>pcs_TotalUsage = 100, pcs_SystemCPUUsage = 500\<rparr>,
      ds_MemoryStats := \<lparr>mst_Usage = 1024, mst_Limit = 4096\<rparr>\<rparr>"

lemma sample_parse: "parse_stats (sample_container_env conts) (Some sample_stats_body) = Some sample_stats"
  by (simp add: parse_stats_def sample_stats_body_def dec_DockerStats_def find_field_def dec_nested_def
      dec_cpu_stats_def dec_cpu_usage_def dec_precpu_stats_def dec_memory_stats_def dec_uint_def
      zero_DockerStats_def sample_stats_def)

section \<open>Properties\<close>

text \<open>
  C27. A container collection reports every listed container whose inspection, statistics and body all
  came through, and no other, whatever order the goroutines finish in; one failing container costs
  only itself. Each metric carries its container's identity, its name without the leading slash, its
  labels, its volumes and its environment split at the first equals sign. A request that collects
  answers this without touching the cache.
\<close>

theorem container_collect_reports:
  assumes "kk_dockerClient c" "\<not> container_isCacheValid (ke_check_time env) c" "ke_list env = Inr conts"
    and "list_all (container_wf env) conts" "\<And>ms. mset (ke_arrival env ms) = mset ms"
  shows "\<exists>ms ms'. container_Collect env c = Return (Inr (slice_of_appends ms), c)
    \<and> mset ms = mset ms'
    \<and> list_all2 (container_matches env) (filter (container_answers env) conts) ms'"
proof -
  obtain ms where "container_goroutines (container_goroutine env) conts = Return ms"
    and m: "list_all2 (container_matches env) (filter (container_answers env) conts) ms"
    using container_goroutines_result [OF assms(4)] by blast
  then have "container_Collect env c = Return (Inr (slice_of_appends (ke_arrival env ms)), c)"
    using assms(1-3) by (simp add: container_Collect_client collectContainerMetrics_def)
  then show ?thesis using assms(5) m by blast
qed

lemma container_collect_reports_witness:
  "\<exists>m. container_Collect (sample_container_env (map sample_container [''aaaaaaaaaaaa'', ''bbbbbbbbbbbb'']))
      sample_container_collector = Return (Inr (Some [m]), sample_container_collector)
    \<and> dc_Name m = ''web''"
proof -
  let ?cs = "map sample_container [''aaaaaaaaaaaa'', ''bbbbbbbbbbbb'']" and ?c = sample_container_collector
  let ?e = "sample_container_env ?cs"
  have c: "kk_dockerClient ?c" "\<not> container_isCacheValid (ke_check_time ?e) ?c"
    by (simp_all add: sample_container_collector_def NewContainerCollector_def Let_def
        container_startBackgroundCollection_def container_isCacheValid_def)
  have wf: "list_all (container_wf ?e) ?cs"
    by (auto simp: container_wf_def sample_container_def sample_container_env_def details_complete_def)
  have a: "filter (container_answers ?e) ?cs = [sample_container ''aaaaaaaaaaaa'']"
    by (simp add: container_answers_def sample_container_env_def sample_container_def
        sample_parse [unfolded sample_container_env_def])
  have "ke_list ?e = Inr ?cs" "\<And>ms. mset (ke_arrival ?e ms) = mset ms"
    by (simp_all add: sample_container_env_def)
  from container_collect_reports [OF c this(1) wf this(2)] obtain ms ms' where
    "container_Collect ?e ?c = Return (Inr (slice_of_appends ms), ?c)" "mset ms = mset ms'"
    "list_all2 (container_matches ?e) [sample_container ''aaaaaaaaaaaa''] ms'"
    unfolding a by blast
  then show ?thesis
    by (auto simp: list_all2_Cons1 container_matches_def sample_container_def slice_of_appends_def has_prefix_def)
qed

lemma container_goroutine_json:
  assumes "container_goroutine env cont = Return (Some m)"
    and "\<And>body s. ke_body env (ct_ID cont) = Inr body \<Longrightarrow> parse_stats env body = Some s \<Longrightarrow>
      slice_len (cus_PercpuUsage (cst_CPUUsage (ds_CPUStats s))) < 2 ^ 63"
  shows "json_ok (json_DockerContainer m)"
proof -
  obtain body s where s: "ke_body env (ct_ID cont) = Inr body" "parse_stats env body = Some s"
    "dc_CPUUsage m = calculateCPUUsage s" "calculateMemoryUsage s = (dc_MemoryUsage m, dc_MemoryLimit m, dc_MemoryPercent m)"
    by (rule container_goroutine_figures [OF assms(1)])
  show ?thesis
    using calculateCPUUsage_bounds [OF assms(2) [OF s(1,2)]] memory_percent_bounds [OF s(4)] s(3)
    by (auto simp: json_DockerContainer_def json_ContainerLabel_def json_ContainerHealth_def json_ContainerPort_def
        json_ContainerNetwork_def json_ContainerVolume_def json_ContainerEnv_def list_all_iff)
qed

text \<open>
  C28. The figures of a container are numbers that JSON can carry: the CPU usage is never negative,
  infinite or a NaN, whatever counters the daemon reports (counters that went backwards give zero),
  and the memory percentage is finite, and between 0 and 100 when the usage is within the limit.
\<close>

theorem container_figures_bounded:
  assumes "container_goroutine env cont = Return (Some m)"
    and "\<And>body s. ke_body env (ct_ID cont) = Inr body \<Longrightarrow> parse_stats env body = Some s \<Longrightarrow>
      slice_len (cus_PercpuUsage (cst_CPUUsage (ds_CPUStats s))) < 2 ^ 63"
  shows "0 \<le> dc_CPUUsage m \<and> f64_finite (dc_CPUUsage m) \<and> json_ok (json_DockerContainer m)
    \<and> (0 \<le> dc_MemoryUsage m \<and> dc_MemoryUsage m \<le> dc_MemoryLimit m \<longrightarrow>
         0 \<le> dc_MemoryPercent m \<and> dc_MemoryPercent m \<le> Fin 100)"
proof -
  obtain body s where s: "ke_body env (ct_ID cont) = Inr body" "parse_stats env body = Some s"
    "dc_CPUUsage m = calculateCPUUsage s" "calculateMemoryUsage s = (dc_MemoryUsage m, dc_MemoryLimit m, dc_MemoryPercent m)"
    by (rule container_goroutine_figures [OF assms(1)])
  show ?thesis
    using calculateCPUUsage_bounds [OF assms(2) [OF s(1,2)]] memory_percent_bounds [OF s(4)] s(3)
      container_goroutine_json [OF assms]
    by simp
qed

lemma container_figures_bounded_witness:
  "\<exists>m. container_goroutine (sample_container_env []) (sample_container ''aaaaaaaaaaaa'') = Return (Some m)
     \<and> 0 \<le> dc_CPUUsage m \<and> 0 \<le> dc_MemoryPercent m \<and> dc_MemoryPercent m \<le> Fin 100"
proof -
  let ?e = "sample_container_env []" and ?k = "sample_container ''aaaaaaaaaaaa''"
  have b: "ke_body ?e (ct_ID ?k) = Inr (Some sample_stats_body)"
    by (simp add: sample_container_env_def sample_container_def)
  have "container_wf ?e ?k" "container_answers ?e ?k"
    by (auto simp: container_wf_def sample_container_def sample_container_env_def details_complete_def
        container_answers_def sample_parse [unfolded sample_container_env_def])
  then obtain m where m: "container_goroutine ?e ?k = Return (Some m)"
    using container_goroutine_result [of ?e ?k] by (auto split: option.splits)
  obtain body s where s: "ke_body ?e (ct_ID ?k) = Inr body" "parse_stats ?e body = Some s"
    "calculateMemoryUsage s = (dc_MemoryUsage m, dc_MemoryLimit m, dc_MemoryPercent m)"
    by (rule container_goroutine_figures [OF m])
  then have "s = sample_stats" using b sample_parse by simp
  with s(3) have lim: "dc_MemoryUsage m = 1024 \<and> dc_MemoryLimit m = 4096"
    by (simp add: calculateMemoryUsage_def Let_def sample_stats_def int64_of_uint64_def)
  have "slice_len (cus_PercpuUsage (cst_CPUUsage (ds_CPUStats sample_stats))) < 2 ^ 63"
    by (simp add: sample_stats_def slice_len_def)
  then have "slice_len (cus_PercpuUsage (cst_CPUUsage (ds_CPUStats s))) < 2 ^ 63"
    if "ke_body ?e (ct_ID ?k) = Inr body" "parse_stats ?e body = Some s" for body s
    using that b sample_parse by simp
  from container_figures_bounded [OF m this] show ?thesis
    using m lim by simp
qed

text \<open>
  The traffic totals of a container are the sums of its interfaces' counters, and the block totals
  the sums of the entries named \<open>Read\<close> and \<open>Write\<close>, each wrapped once to 64 bits: they do not depend
  on the order in which Go iterates the map of interfaces.
\<close>

theorem container_io_totals:
  "calculateNetworkIO s =
     (let ns = (case ds_Networks s of None \<Rightarrow> [] | Some ns \<Rightarrow> ns)
      in (s64 (\<Sum>n \<in># mset ns. uint (nst_RxBytes (snd n))), s64 (\<Sum>n \<in># mset ns. uint (nst_TxBytes (snd n)))))
   \<and> calculateBlockIO s =
     (s64 (blkio_total ''Read'' (slice_list (ds_IoServiceBytesRecursive s))),
      s64 (blkio_total ''Write'' (slice_list (ds_IoServiceBytesRecursive s))))"
proof -
  have z: "s64 0 = 0" by (simp add: s64_def)
  show ?thesis
    using sum_networks_eq [of "case ds_Networks s of None \<Rightarrow> [] | Some ns \<Rightarrow> ns" 0 0]
      sum_blkio_eq [of "slice_list (ds_IoServiceBytesRecursive s)" 0 0]
    by (simp add: calculateNetworkIO_def calculateBlockIO_def z Let_def sum_mset_sum_list flip: mset_map)
qed

section \<open>Other facts\<close>

text \<open>A container without a name, which the daemon may list, ends the program when its answers come.\<close>

lemma container_nameless_panics:
  assumes "ct_Names cont = []" "container_answers env cont"
  shows "container_goroutine env cont = Panic IndexOutOfRange"
  using assms
  by (cases "ke_inspect env (ct_ID cont)")
    (auto simp: container_answers_def container_goroutine_def convert_container_def Let_def go_index_def case_prod_beta)

text \<open>Without a positive update frequency the goroutine never gets past its first collection.\<close>

lemma container_background_panics:
  assumes "kk_updateFrequency c \<le> 0" shows "container_background env c \<noteq> Return s"
proof
  assume "container_background env c = Return s"
  then obtain c' where c': "container_collectAndCache env c = Return c'" "0 < kk_updateFrequency c'"
    by (auto simp: container_background_def new_ticker_def split: if_splits)
  from refresh_result [OF c'(1) [unfolded container_collectAndCache_def]] obtain r s1
    where g: "collectContainerMetrics env c = Return (r, s1)"
      and e: "c' = (case r of Inl err \<Rightarrow> s1 | Inr m \<Rightarrow> container_store (ke_store_time env) m s1)" by blast
  show False using collectContainer_frame [OF g] e c'(2) assms by (cases r) (auto simp: container_store_def)
qed

text \<open>A list that is empty is not cached: the next request collects again.\<close>

lemma container_empty_not_cached:
  "\<not> container_isCacheValid now (container_store t (slice_of_appends []) c)"
  by (simp add: container_isCacheValid_def container_store_def slice_of_appends_def)

end
