(* ===== verification/Process_Collector.thy ===== *)
theory Process_Collector
  imports Models Go_Strings Collector_Cache Float_Bounds Config_Model
begin

text \<open>
  The process collector of \<open>internal/collectors/process.go\<close>. One environment holds what gopsutil
  answers about every process during a collection, each query on its own, \<open>None\<close> where it fails.
\<close>

section \<open>Collection\<close>

record ProcStat =
  ps_Pid :: int
  ps_Ppid :: "int option"
  ps_Name :: "string option"
  ps_Cmdline :: "string option"
  ps_Uids :: "int list option"
  ps_Status :: "string list option"
  ps_Times :: "f64 option"
  ps_MemoryInfo :: "(uint64 \<times> uint64) option"
  ps_Nice :: "int option"
  ps_NumThreads :: "int option"
  ps_OpenFiles :: "string list option"
  ps_CreateTime :: "int64 option"
  ps_IOCounters :: "(uint64 \<times> uint64) option"

text \<open>
  \<open>ps_Times\<close> is the total of gopsutil's \<open>TimesStat\<close>, \<open>ps_MemoryInfo\<close> its RSS and VMS,
  \<open>ps_IOCounters\<close> the bytes read and written; the last two are \<open>None\<close> for a nil pointer as well.
\<close>

record process_env =
  pe_check_time :: instant
  pe_processes :: "go_error + ProcStat list"
  pe_logical_cores :: "go_error + int64"
  pe_current_time :: instant
  pe_lookup_id :: "string \<Rightarrow> string option"
  pe_store_time :: instant

record ProcessCollector =
  pk_cachedMetrics :: "ProcessInfo slice"
  pk_cachedTime :: instant
  pk_cacheDuration :: duration
  pk_updateFrequency :: duration
  pk_backgroundRunning :: bool
  pk_prevProcesses :: "int \<rightharpoonup> ProcStat"
  pk_prevCPUTimes :: "int \<rightharpoonup> f64"
  pk_prevTime :: instant

definition getUsernameFromUID :: "(string \<Rightarrow> string option) \<Rightarrow> string \<Rightarrow> string" where
  "getUsernameFromUID lookup uid = (case lookup uid of None \<Rightarrow> uid | Some username \<Rightarrow> username)"

text \<open>The share of all cores a process used since the previous collection, when it is not negative.\<close>

definition process_cpu_usage :: "f64 \<Rightarrow> f64 \<Rightarrow> f64 \<Rightarrow> int64 \<Rightarrow> f64 option" where
  "process_cpu_usage cpuTime prevTime duration logicalCores =
     (let cpuUsagePerCore = (cpuTime - prevTime) / duration * Fin 100;
          cpuUsageTotal = cpuUsagePerCore / f64_of_int logicalCores
      in if 0 \<le> cpuUsageTotal then Some cpuUsageTotal else None)"

definition process_cpu_time :: "ProcStat \<Rightarrow> f64" where
  "process_cpu_time p = (case ps_Times p of None \<Rightarrow> 0 | Some tm \<Rightarrow> tm)"

definition process_info ::
  "(string \<Rightarrow> string option) \<Rightarrow> bool \<Rightarrow> (int \<rightharpoonup> f64) \<Rightarrow> f64 \<Rightarrow> int64 \<Rightarrow> ProcStat \<Rightarrow> ProcessInfo" where
  "process_info lookup isFirstCollection prevCPUTimes duration logicalCores p =
     \<lparr>pr_PID = ps_Pid p,
      pr_PPID = (case ps_Ppid p of None \<Rightarrow> 0 | Some ppid \<Rightarrow> ppid),
      pr_Name = (case ps_Name p of None \<Rightarrow> [] | Some name \<Rightarrow> name),
      pr_Command = (case ps_Cmdline p of None \<Rightarrow> [] | Some cmdline \<Rightarrow> cmdline),
      pr_User = (case ps_Uids p of Some (uid # uids) \<Rightarrow> getUsernameFromUID lookup (format_int uid) | _ \<Rightarrow> []),
      pr_Status = (case ps_Status p of Some (st # sts) \<Rightarrow> st | _ \<Rightarrow> []),
      pr_CPUTime = process_cpu_time p,
      pr_CPUUsage =
        (if isFirstCollection then 0
         else (case prevCPUTimes (ps_Pid p) of
                 None \<Rightarrow> 0
               | Some prevTime \<Rightarrow>
                   (case process_cpu_usage (process_cpu_time p) prevTime duration logicalCores of
                      None \<Rightarrow> 0
                    | Some cpuUsageTotal \<Rightarrow> cpuUsageTotal))),
      pr_MemoryRSS = (case ps_MemoryInfo p of None \<Rightarrow> 0 | Some (rss, vms) \<Rightarrow> int64_of_uint64 rss),
      pr_MemoryVSZ = (case ps_MemoryInfo p of None \<Rightarrow> 0 | Some (rss, vms) \<Rightarrow> int64_of_uint64 vms),
      pr_Nice = (case ps_Nice p of None \<Rightarrow> 0 | Some nice \<Rightarrow> nice),
      pr_Threads = (case ps_NumThreads p of None \<Rightarrow> 0 | Some numThreads \<Rightarrow> numThreads),
      pr_OpenFiles = (case ps_OpenFiles p of None \<Rightarrow> 0 | Some openFiles \<Rightarrow> int (length openFiles)),
      pr_StartTime = (case ps_CreateTime p of None \<Rightarrow> 0 | Some createTime \<Rightarrow> go_quot createTime 1000),
      pr_IOReadBytes = (case ps_IOCounters p of None \<Rightarrow> 0 | Some (rd, wr) \<Rightarrow> int64_of_uint64 rd),
      pr_IOWriteBytes = (case ps_IOCounters p of None \<Rightarrow> 0 | Some (rd, wr) \<Rightarrow> int64_of_uint64 wr)\<rparr>"

fun process_cpu_times :: "ProcStat list \<Rightarrow> (int \<rightharpoonup> f64) \<Rightarrow> (int \<rightharpoonup> f64)" where
  "process_cpu_times [] newCPUTimes = newCPUTimes"
| "process_cpu_times (p # ps) newCPUTimes =
     process_cpu_times ps
       (case ps_Times p of None \<Rightarrow> newCPUTimes | Some tm \<Rightarrow> newCPUTimes(ps_Pid p \<mapsto> tm))"

definition process_duration :: "instant \<Rightarrow> instant \<Rightarrow> f64" where
  "process_duration currentTime prevTime =
     (let duration = (if is_zero_time prevTime then 0 else dur_to_seconds (time_sub currentTime prevTime))
      in if duration \<le> 0 then 1 else duration)"

definition collectProcessMetrics ::
  "process_env \<Rightarrow> ProcessCollector \<Rightarrow> ((go_error + ProcessInfo slice) \<times> ProcessCollector) outcome" where
  "collectProcessMetrics env c =
     (case pe_processes env of
        Inl err \<Rightarrow> Return (Inl err, c)
      | Inr processes \<Rightarrow>
          let logicalCores = (case pe_logical_cores env of Inl err \<Rightarrow> 1 | Inr n \<Rightarrow> n);
              duration = process_duration (pe_current_time env) (pk_prevTime c);
              metrics = map (process_info (pe_lookup_id env) (is_zero_time (pk_prevTime c)) (pk_prevCPUTimes c)
                duration logicalCores) processes
          in Return (Inr (slice_of_appends metrics),
               c\<lparr>pk_prevProcesses := map_of (rev (map (\<lambda>p. (ps_Pid p, p)) processes)),
                 pk_prevCPUTimes := process_cpu_times processes Map.empty,
                 pk_prevTime := pe_current_time env\<rparr>))"

section \<open>Cache and background collection\<close>

definition process_store :: "instant \<Rightarrow> ProcessInfo slice \<Rightarrow> ProcessCollector \<Rightarrow> ProcessCollector" where
  "process_store t metrics c = c\<lparr>pk_cachedMetrics := metrics, pk_cachedTime := t\<rparr>"

definition process_collectAndCache :: "process_env \<Rightarrow> ProcessCollector \<Rightarrow> ProcessCollector outcome" where
  "process_collectAndCache env c =
     obind (collectProcessMetrics env c)
       (\<lambda>(r, c'). Return (case r of Inr metrics \<Rightarrow> process_store (pe_store_time env) metrics c' | Inl err \<Rightarrow> c'))"

definition process_isCacheValid :: "instant \<Rightarrow> ProcessCollector \<Rightarrow> bool" where
  "process_isCacheValid now c \<longleftrightarrow>
     time_sub now (pk_cachedTime c) < pk_cacheDuration c \<and> 0 < slice_len (pk_cachedMetrics c)"

definition process_Collect ::
  "process_env \<Rightarrow> ProcessCollector \<Rightarrow> ((go_error + ProcessInfo slice) \<times> ProcessCollector) outcome" where
  "process_Collect env c =
     (if process_isCacheValid (pe_check_time env) c then Return (Inr (pk_cachedMetrics c), c)
      else obind (collectProcessMetrics env c)
        (\<lambda>(r, c'). Return (case r of
             Inl err \<Rightarrow> (Inl err, c')
           | Inr metrics \<Rightarrow> (Inr metrics, process_store (pe_store_time env) metrics c'))))"

definition process_startBackgroundCollection :: "ProcessCollector \<Rightarrow> ProcessCollector \<times> bool" where
  "process_startBackgroundCollection c =
     (if pk_backgroundRunning c then (c, False) else (c\<lparr>pk_backgroundRunning := True\<rparr>, True))"

definition process_background :: "process_env \<Rightarrow> ProcessCollector \<Rightarrow> ProcessCollector outcome" where
  "process_background env c =
     obind (process_collectAndCache env c)
       (\<lambda>c'. obind (new_ticker (pk_updateFrequency c')) (\<lambda>_. Return c'))"

definition NewProcessCollector :: "ProcessCollectorSettings \<Rightarrow> ProcessCollector \<times> bool" where
  "NewProcessCollector cfg = process_startBackgroundCollection
     \<lparr>pk_cachedMetrics = None, pk_cachedTime = zero_time,
      pk_cacheDuration = dur_seconds (process_CacheDurationSeconds cfg),
      pk_updateFrequency = dur_seconds (process_UpdateFrequencySeconds cfg),
      pk_backgroundRunning = False, pk_prevProcesses = Map.empty, pk_prevCPUTimes = Map.empty,
      pk_prevTime = zero_time\<rparr>"

section \<open>Lemmas\<close>

lemma process_cpu_times_app:
  "process_cpu_times ps m = m ++ process_cpu_times ps Map.empty"
proof (induction ps arbitrary: m)
  case (Cons p ps)
  show ?case
  proof (cases "ps_Times p")
    case None
    show ?thesis unfolding process_cpu_times.simps None option.case by (rule Cons.IH)
  next
    case (Some a)
    have "process_cpu_times ps (m(ps_Pid p \<mapsto> a)) = m(ps_Pid p \<mapsto> a) ++ process_cpu_times ps Map.empty"
      by (rule Cons.IH)
    also have "\<dots> = m ++ ([ps_Pid p \<mapsto> a] ++ process_cpu_times ps Map.empty)" by simp
    also have "[ps_Pid p \<mapsto> a] ++ process_cpu_times ps Map.empty = process_cpu_times ps [ps_Pid p \<mapsto> a]"
      by (rule Cons.IH [symmetric])
    finally show ?thesis unfolding process_cpu_times.simps Some option.case .
  qed
qed simp

lemma process_cpu_times_dom:
  "dom (process_cpu_times ps Map.empty) = ps_Pid ` {p \<in> set ps. ps_Times p \<noteq> None}"
proof (induction ps)
  case (Cons p ps)
  show ?case
  proof (cases "ps_Times p")
    case (Some a)
    then have "process_cpu_times (p # ps) Map.empty = [ps_Pid p \<mapsto> a] ++ process_cpu_times ps Map.empty"
      by (simp only: process_cpu_times.simps option.case) (rule process_cpu_times_app)
    then have "dom (process_cpu_times (p # ps) Map.empty)
        = insert (ps_Pid p) (ps_Pid ` {p \<in> set ps. ps_Times p \<noteq> None})"
      by (simp only: dom_map_add Cons.IH) simp
    then show ?thesis using Some by auto
  next
    case None
    then show ?thesis using Cons.IH by auto
  qed
qed simp

definition process_inv :: "ProcessCollector \<Rightarrow> bool" where
  "process_inv c \<longleftrightarrow> int64_range (pk_cacheDuration c)"

lemma collectProcess_frame:
  assumes "collectProcessMetrics env c = Return (r, c')"
  shows "pk_cachedMetrics c' = pk_cachedMetrics c \<and> pk_cachedTime c' = pk_cachedTime c
    \<and> pk_cacheDuration c' = pk_cacheDuration c \<and> pk_updateFrequency c' = pk_updateFrequency c"
  using assms by (auto simp: collectProcessMetrics_def Let_def split: sum.splits)

lemma collectProcess_total: "\<exists>r c'. collectProcessMetrics env c = Return (r, c')"
  by (simp add: collectProcessMetrics_def Let_def split: sum.split)

text \<open>Without a positive update frequency the goroutine panics after its first collection.\<close>

lemma process_background_panics:
  assumes "pk_updateFrequency c \<le> 0" shows "process_background env c = Panic NonPositiveTicker"
proof -
  obtain r c' where g: "collectProcessMetrics env c = Return (r, c')" using collectProcess_total by blast
  then show ?thesis using collectProcess_frame [OF g] assms
    by (simp add: process_background_def process_collectAndCache_def new_ticker_def process_store_def split: sum.split)
qed

interpretation process: standard_collector process_isCacheValid pk_cachedMetrics pk_cachedTime
  pk_cacheDuration collectProcessMetrics process_store process_Collect process_collectAndCache
  pe_check_time pe_store_time process_inv "\<lambda>m s. 0 < slice_len m"
  by unfold_locales
    (auto simp: process_isCacheValid_def process_inv_def process_store_def process_Collect_def
      process_collectAndCache_def dest!: collectProcess_frame)

text \<open>The usage of a process, its sign and its magnitude.\<close>

lemma process_usage_simps:
  "0 \<le> pr_CPUUsage (process_info l f pc d n p)"
  "f \<or> pc (ps_Pid p) = None \<Longrightarrow> pr_CPUUsage (process_info l f pc d n p) = 0"
  by (auto simp: process_info_def process_cpu_usage_def Let_def split: option.splits)

lemma process_duration_within:
  assumes "f64_within 41 a" shows "f64_within 71 (a / process_duration t u)"
proof (cases "is_zero_time u")
  case True
  then have "process_duration t u = Fin 1" by (simp add: process_duration_def f64_ops)
  then have "f64_within 41 (a / process_duration t u)"
    using within_divide [OF assms, of _ 1 0] by simp
  then show ?thesis by (rule within_mono) simp
next
  case False
  then show ?thesis using guarded_divide [OF assms, of "time_sub t u"]
    by (simp add: process_duration_def Let_def)
qed

lemma process_cpu_usage_within:
  assumes "f64_within 40 a" "f64_within 40 b" "1 \<le> n" "n \<le> 2 ^ 53"
    and "process_cpu_usage a b (process_duration t u) n = Some v"
  shows "f64_within 78 v"
proof -
  have "f64_within 41 (a - b)" using within_minus [OF assms(1,2)] by simp
  then have "f64_within 71 ((a - b) / process_duration t u)" by (rule process_duration_within)
  moreover have "f64_within 7 (Fin 100)" by (simp add: within_Fin)
  ultimately have "f64_within 78 ((a - b) / process_duration t u * Fin 100)"
    using within_times [of 71 _ 7] by fastforce
  moreover have "f64_of_int n = Fin (of_int n)" using assms(3,4) by simp
  moreover have "2 powi 0 \<le> (of_int n :: rat)" using assms(3) by simp
  ultimately have "f64_within 78 ((a - b) / process_duration t u * Fin 100 / f64_of_int n)"
    using within_divide [of 78 _ _ "of_int n" 0] by fastforce
  then show ?thesis using assms(5) by (auto simp: process_cpu_usage_def Let_def split: if_splits)
qed

lemma process_info_json:
  assumes "\<And>a. ps_Times p = Some a \<Longrightarrow> f64_within 40 a" "\<And>q a. pc q = Some a \<Longrightarrow> f64_within 40 a"
    and "1 \<le> n" "n \<le> 2 ^ 53"
  shows "json_ok (json_ProcessInfo (process_info l f pc (process_duration t u) n p))"
proof -
  have c: "f64_within 40 (process_cpu_time p)"
    using assms(1) by (simp add: process_cpu_time_def split: option.splits)
  then have "f64_finite (pr_CPUTime (process_info l f pc (process_duration t u) n p))"
    by (simp add: process_info_def within_finite)
  moreover have "f64_finite (pr_CPUUsage (process_info l f pc (process_duration t u) n p))"
    using within_finite [OF process_cpu_usage_within [OF c assms(2-4)]]
    by (auto simp: process_info_def zero_f64_def split: option.splits)
  ultimately show ?thesis by (simp add: json_ProcessInfo_def)
qed

definition sample_proc :: "int \<Rightarrow> f64 \<Rightarrow> ProcStat" where
  "sample_proc pid t = \<lparr>ps_Pid = pid, ps_Ppid = Some 1, ps_Name = Some ''sh'', ps_Cmdline = None, ps_Uids = Some [0],
     ps_Status = Some [''sleep''], ps_Times = Some t, ps_MemoryInfo = None, ps_Nice = None, ps_NumThreads = None,
     ps_OpenFiles = None, ps_CreateTime = Some 1999, ps_IOCounters = None\<rparr>"

definition sample_process_env :: "instant \<Rightarrow> f64 \<Rightarrow> process_env" where
  "sample_process_env t cpu = \<lparr>pe_check_time = t, pe_processes = Inr [sample_proc 7 cpu], pe_logical_cores = Inr 2,
     pe_current_time = t, pe_lookup_id = (\<lambda>_. None), pe_store_time = t\<rparr>"

definition sample_process_collector :: ProcessCollector where
  "sample_process_collector = fst (NewProcessCollector (cs_Process (cfg_Collectors DefaultConfig)))
     \<lparr>pk_prevCPUTimes := [7 \<mapsto> Fin 1], pk_prevTime := 1000000000\<rparr>"

section \<open>Properties\<close>

text \<open>
  C29. A process collection reports every process, in order. The CPU usage it reports is never
  negative and never a NaN, whatever the clock did; it is zero on the first collection and for a
  process the previous collection had no times of, and the times kept for the next collection are
  exactly those of the processes of this one.
\<close>

theorem process_usage_nonneg:
  assumes "pe_processes env = Inr ps"
  shows "\<exists>is c'. collectProcessMetrics env c = Return (Inr (slice_of_appends is), c')
    \<and> map pr_PID is = map ps_Pid ps
    \<and> list_all (\<lambda>i. 0 \<le> pr_CPUUsage i) is
    \<and> list_all (\<lambda>i. (pk_prevTime c = zero_time \<or> pk_prevCPUTimes c (pr_PID i) = None) \<longrightarrow> pr_CPUUsage i = 0) is
    \<and> dom (pk_prevCPUTimes c') = ps_Pid ` {p \<in> set ps. ps_Times p \<noteq> None}"
proof -
  let ?info = "process_info (pe_lookup_id env) (is_zero_time (pk_prevTime c)) (pk_prevCPUTimes c)
    (process_duration (pe_current_time env) (pk_prevTime c))
    (case pe_logical_cores env of Inl err \<Rightarrow> 1 | Inr n \<Rightarrow> n)"
  have pid: "pr_PID (?info p) = ps_Pid p" for p by (simp add: process_info_def)
  have "\<exists>c'. collectProcessMetrics env c = Return (Inr (slice_of_appends (map ?info ps)), c')
      \<and> dom (pk_prevCPUTimes c') = ps_Pid ` {p \<in> set ps. ps_Times p \<noteq> None}"
    using assms by (simp add: collectProcessMetrics_def Let_def process_cpu_times_dom)
  moreover have "map pr_PID (map ?info ps) = map ps_Pid ps" by (simp add: pid)
  moreover have "list_all (\<lambda>i. 0 \<le> pr_CPUUsage i) (map ?info ps)"
    by (simp add: list_all_iff process_usage_simps(1))
  moreover have "list_all (\<lambda>i. (pk_prevTime c = zero_time \<or> pk_prevCPUTimes c (pr_PID i) = None)
      \<longrightarrow> pr_CPUUsage i = 0) (map ?info ps)"
    unfolding list_all_iff list.set_map using pid
    by (auto intro!: process_usage_simps(2) simp: is_zero_time_def)
  ultimately show ?thesis by blast
qed

lemma process_usage_nonneg_witness:
  "\<exists>i c'. collectProcessMetrics (sample_process_env 5000000000 (Fin 3)) sample_process_collector
     = Return (Inr (Some [i]), c') \<and> pr_PID i = 7 \<and> 0 \<le> pr_CPUUsage i"
proof -
  have "pe_processes (sample_process_env 5000000000 (Fin 3)) = Inr [sample_proc 7 (Fin 3)]"
    by (simp add: sample_process_env_def)
  from process_usage_nonneg [OF this, of sample_process_collector] obtain "is" c' where
    "collectProcessMetrics (sample_process_env 5000000000 (Fin 3)) sample_process_collector
      = Return (Inr (slice_of_appends is), c')" "map pr_PID is = [7]" "list_all (\<lambda>i. 0 \<le> pr_CPUUsage i) is"
    by (auto simp: sample_proc_def)
  then show ?thesis by (auto simp: slice_of_appends_def)
qed

text \<open>
  Process metrics can be serialised: with at least one core and processor times below
  \<open>2 ^ 40\<close> seconds, no figure is infinite or a NaN.
\<close>

theorem process_metrics_serialisable:
  assumes "collectProcessMetrics env c = Return (Inr ms, c')"
    and "\<And>ps p a. pe_processes env = Inr ps \<Longrightarrow> p \<in> set ps \<Longrightarrow> ps_Times p = Some a \<Longrightarrow> f64_within 40 a"
    and "\<And>q a. pk_prevCPUTimes c q = Some a \<Longrightarrow> f64_within 40 a"
    and "\<And>n. pe_logical_cores env = Inr n \<Longrightarrow> 1 \<le> n \<and> n \<le> 2 ^ 53"
  shows "json_marshal (json_slice json_ProcessInfo ms) = Inr (json_slice json_ProcessInfo ms)"
proof -
  let ?n = "case pe_logical_cores env of Inl err \<Rightarrow> 1 | Inr n \<Rightarrow> n"
  obtain ps where ps: "pe_processes env = Inr ps"
    using assms(1) by (auto simp: collectProcessMetrics_def split: sum.splits)
  have n: "1 \<le> ?n" "?n \<le> 2 ^ 53" using assms(4) by (simp_all split: sum.splits)
  have "ms = slice_of_appends (map (process_info (pe_lookup_id env) (is_zero_time (pk_prevTime c))
      (pk_prevCPUTimes c) (process_duration (pe_current_time env) (pk_prevTime c)) ?n) ps)"
    using assms(1) ps by (auto simp: collectProcessMetrics_def Let_def)
  then show ?thesis
    using process_info_json [OF assms(2) [OF ps] assms(3) n] by (simp add: json_marshal_def list_all_iff)
qed

lemma process_metrics_serialisable_witness:
  "\<exists>ms c'. collectProcessMetrics (sample_process_env 5000000000 (Fin 3)) sample_process_collector
       = Return (Inr ms, c')
     \<and> json_marshal (json_slice json_ProcessInfo ms) = Inr (json_slice json_ProcessInfo ms)"
proof -
  obtain ms c' where m: "collectProcessMetrics (sample_process_env 5000000000 (Fin 3)) sample_process_collector
       = Return (Inr ms, c')"
    by (simp add: collectProcessMetrics_def sample_process_env_def Let_def)
  have "json_marshal (json_slice json_ProcessInfo ms) = Inr (json_slice json_ProcessInfo ms)"
    by (rule process_metrics_serialisable [OF m])
      (auto simp: sample_process_env_def sample_proc_def sample_process_collector_def within_Fin split: if_splits)
  with m show ?thesis by blast
qed

text \<open>
  The cache serves the second of two requests: when a request collects a nonempty list of
  processes and the next one comes less than the cache duration after it was stored, the next one
  answers the same list without a collection and without changing the collector.
\<close>

theorem process_second_request_cached:
  assumes "int64_range (pk_cacheDuration c)" "\<not> process_isCacheValid (pe_check_time e) c"
    and "collectProcessMetrics e c = Return (Inr m, c1)" "0 < slice_len m"
    and "time_sub (pe_check_time e') (pe_store_time e) < pk_cacheDuration c"
  shows "\<exists>c2. process_Collect e c = Return (Inr m, c2) \<and> process_Collect e' c2 = Return (Inr m, c2)"
  using process.second_request_hits [OF _ assms(2-5)] assms(1) by (simp add: process_inv_def)

lemma process_second_request_cached_witness:
  "\<exists>m c2. process_Collect (sample_process_env 5000000000 (Fin 3)) sample_process_collector = Return (Inr m, c2)
     \<and> process_Collect (sample_process_env 6000000000 (Fin 4)) c2 = Return (Inr m, c2)"
proof -
  have c: "int64_range (pk_cacheDuration sample_process_collector)"
    "pk_cacheDuration sample_process_collector = 3000000000"
    "\<not> process_isCacheValid (pe_check_time (sample_process_env 5000000000 (Fin 3))) sample_process_collector"
    by (simp_all add: sample_process_collector_def NewProcessCollector_def process_startBackgroundCollection_def
        DefaultConfig_def dur_seconds_def int64_range_def process_isCacheValid_def slice_len_def)
  obtain m c1 where "collectProcessMetrics (sample_process_env 5000000000 (Fin 3)) sample_process_collector
      = Return (Inr m, c1)" "0 < slice_len m"
    by (simp add: collectProcessMetrics_def sample_process_env_def Let_def slice_len_def)
  moreover have "time_sub (pe_check_time (sample_process_env 6000000000 (Fin 4)))
      (pe_store_time (sample_process_env 5000000000 (Fin 3))) < pk_cacheDuration sample_process_collector"
    using c(2) by (simp add: sample_process_env_def time_sub_exact int64_range_def)
  ultimately show ?thesis using process_second_request_cached [OF c(1,3)] by blast
qed

end
