(* ===== verification/Service_Collector.thy ===== *)
theory Service_Collector
  imports Models Go_Strings Collector_Cache Config_Model
begin

text \<open>
  The service collector of \<open>internal/collectors/service.go\<close>, which asks systemd over D-Bus. The
  answers of the bus are one environment per collection; the connection the collector keeps is part
  of its state.
\<close>

section \<open>Collection\<close>

text \<open>The fields of a listed unit that the collector reads.\<close>

record dbus_unit =
  un_Name :: string
  un_LoadState :: string
  un_ActiveState :: string
  un_SubState :: string
  un_Path :: string

record service_env =
  se_check_time :: instant
  se_system_bus :: "go_error option"
  se_list_units :: "go_error + dbus_unit list"
  se_unit_file_state :: "string \<Rightarrow> string option"
  se_memory_current :: "string \<Rightarrow> uint64 option"
  se_store_time :: instant

record ServiceCollector =
  vk_cachedMetrics :: "ServiceInfo slice"
  vk_cachedTime :: instant
  vk_cacheDuration :: duration
  vk_updateFrequency :: duration
  vk_backgroundRunning :: bool
  vk_connected :: bool

definition getDbusConnection :: "service_env \<Rightarrow> ServiceCollector \<Rightarrow> (go_error + unit) \<times> ServiceCollector" where
  "getDbusConnection env c =
     (if vk_connected c then (Inr (), c)
      else (case se_system_bus env of
              Some err \<Rightarrow> (Inl (ErrWrap ''D-Bus connection failed'' err), c)
            | None \<Rightarrow> (Inr (), c\<lparr>vk_connected := True\<rparr>)))"

definition getServiceStatus :: "string \<Rightarrow> string" where
  "getServiceStatus activeState =
     (if activeState = ''active'' then ''running''
      else if activeState = ''inactive'' then ''stopped''
      else if activeState = ''failed'' then ''failed''
      else if activeState = ''activating'' then ''starting''
      else if activeState = ''deactivating'' then ''stopping''
      else ''unknown'')"

definition service_info :: "service_env \<Rightarrow> dbus_unit \<Rightarrow> ServiceInfo" where
  "service_info env u =
     \<lparr>sv_Name = trim_suffix ''.service'' (un_Name u),
      sv_Status = getServiceStatus (un_ActiveState u),
      sv_Enabled = (case se_unit_file_state env (un_Name u) of None \<Rightarrow> False | Some st \<Rightarrow> st = ''enabled''),
      sv_Type = ''systemd'',
      sv_LoadState = un_LoadState u,
      sv_ActiveState = un_ActiveState u,
      sv_SubState = un_SubState u,
      sv_MemoryUsage = (case se_memory_current env (un_Path u) of
          None \<Rightarrow> [] | Some m \<Rightarrow> if 0 < m then format_uint m else []),
      sv_CpuUsage = 0\<rparr>"

fun service_loop :: "(dbus_unit \<Rightarrow> ServiceInfo) \<Rightarrow> dbus_unit list \<Rightarrow> ServiceInfo list" where
  "service_loop body [] = []"
| "service_loop body (u # us) =
     (if \<not> has_suffix ''.service'' (un_Name u) then service_loop body us
      else body u # service_loop body us)"

definition collectServiceMetrics ::
  "service_env \<Rightarrow> ServiceCollector \<Rightarrow> ((go_error + ServiceInfo slice) \<times> ServiceCollector) outcome" where
  "collectServiceMetrics env c =
     (case getDbusConnection env c of
        (Inl err, c') \<Rightarrow> Return (Inl err, c')
      | (Inr _, c') \<Rightarrow>
          (case se_list_units env of
             Inl err \<Rightarrow> Return (Inl (ErrWrap ''listing systemd services failed'' err), c')
           | Inr units \<Rightarrow> Return (Inr (slice_of_appends (service_loop (service_info env) units)), c')))"

section \<open>Cache and background collection\<close>

definition service_store :: "instant \<Rightarrow> ServiceInfo slice \<Rightarrow> ServiceCollector \<Rightarrow> ServiceCollector" where
  "service_store t metrics c = c\<lparr>vk_cachedMetrics := metrics, vk_cachedTime := t\<rparr>"

definition service_collectAndCache :: "service_env \<Rightarrow> ServiceCollector \<Rightarrow> ServiceCollector outcome" where
  "service_collectAndCache env c =
     obind (collectServiceMetrics env c)
       (\<lambda>(r, c'). Return (case r of Inr metrics \<Rightarrow> service_store (se_store_time env) metrics c' | Inl err \<Rightarrow> c'))"

definition service_isCacheValid :: "instant \<Rightarrow> ServiceCollector \<Rightarrow> bool" where
  "service_isCacheValid now c \<longleftrightarrow>
     time_sub now (vk_cachedTime c) < vk_cacheDuration c \<and> 0 < slice_len (vk_cachedMetrics c)"

definition service_Collect ::
  "service_env \<Rightarrow> ServiceCollector \<Rightarrow> ((go_error + ServiceInfo slice) \<times> ServiceCollector) outcome" where
  "service_Collect env c =
     (if service_isCacheValid (se_check_time env) c then Return (Inr (vk_cachedMetrics c), c)
      else obind (collectServiceMetrics env c)
        (\<lambda>(r, c'). Return (case r of
             Inl err \<Rightarrow> (Inl err, c')
           | Inr metrics \<Rightarrow> (Inr metrics, service_store (se_store_time env) metrics c'))))"

definition service_startBackgroundCollection :: "ServiceCollector \<Rightarrow> ServiceCollector \<times> bool" where
  "service_startBackgroundCollection c =
     (if vk_backgroundRunning c then (c, False) else (c\<lparr>vk_backgroundRunning := True\<rparr>, True))"

definition service_background :: "service_env \<Rightarrow> ServiceCollector \<Rightarrow> ServiceCollector outcome" where
  "service_background env c =
     obind (service_collectAndCache env c)
       (\<lambda>c'. obind (new_ticker (vk_updateFrequency c')) (\<lambda>_. Return c'))"

definition NewServiceCollector :: "ServiceCollectorSettings \<Rightarrow> ServiceCollector \<times> bool" where
  "NewServiceCollector cfg = service_startBackgroundCollection
     \<lparr>vk_cachedMetrics = None, vk_cachedTime = zero_time,
      vk_cacheDuration = dur_seconds (service_CacheDurationSeconds cfg),
      vk_updateFrequency = dur_seconds (service_UpdateFrequencySeconds cfg),
      vk_backgroundRunning = False, vk_connected = False\<rparr>"

section \<open>Lemmas\<close>

lemma service_loop_eq:
  "service_loop body us = map body (filter (\<lambda>u. has_suffix ''.service'' (un_Name u)) us)"
  by (induction us) auto

definition service_inv :: "ServiceCollector \<Rightarrow> bool" where
  "service_inv c \<longleftrightarrow> int64_range (vk_cacheDuration c)"

lemma collectService_frame:
  assumes "collectServiceMetrics env c = Return (r, c')"
  shows "vk_cachedMetrics c' = vk_cachedMetrics c \<and> vk_cachedTime c' = vk_cachedTime c
    \<and> vk_cacheDuration c' = vk_cacheDuration c \<and> vk_updateFrequency c' = vk_updateFrequency c"
  using assms
  by (auto simp: collectServiceMetrics_def getDbusConnection_def split: sum.splits prod.splits if_splits option.splits)

lemma collectService_total: "\<exists>r c'. collectServiceMetrics env c = Return (r, c')"
  by (simp add: collectServiceMetrics_def split: prod.split sum.split)

text \<open>Without a positive update frequency the goroutine panics after its first collection.\<close>

lemma service_background_panics:
  assumes "vk_updateFrequency c \<le> 0" shows "service_background env c = Panic NonPositiveTicker"
proof -
  obtain r c' where g: "collectServiceMetrics env c = Return (r, c')" using collectService_total by blast
  then show ?thesis using collectService_frame [OF g] assms
    by (simp add: service_background_def service_collectAndCache_def new_ticker_def service_store_def split: sum.split)
qed

interpretation service: standard_collector service_isCacheValid vk_cachedMetrics vk_cachedTime
  vk_cacheDuration collectServiceMetrics service_store service_Collect service_collectAndCache
  se_check_time se_store_time service_inv "\<lambda>m c. 0 < slice_len m"
  by unfold_locales
    (auto simp: service_isCacheValid_def service_inv_def service_store_def service_Collect_def
      service_collectAndCache_def dest!: collectService_frame)

text \<open>What a reported service says of its unit.\<close>

definition service_matches :: "service_env \<Rightarrow> dbus_unit \<Rightarrow> ServiceInfo \<Rightarrow> bool" where
  "service_matches env u i \<longleftrightarrow> un_Name u = sv_Name i @ ''.service''
     \<and> sv_Status i = getServiceStatus (un_ActiveState u)
     \<and> (sv_Enabled i \<longleftrightarrow> se_unit_file_state env (un_Name u) = Some ''enabled'')
     \<and> (case se_memory_current env (un_Path u) of
          None \<Rightarrow> sv_MemoryUsage i = []
        | Some m \<Rightarrow> if m = 0 then sv_MemoryUsage i = [] else parse_uint (sv_MemoryUsage i) = (m, None))"

lemma service_info_matches:
  assumes "has_suffix ''.service'' (un_Name u)" shows "service_matches env u (service_info env u)"
proof -
  obtain n where "un_Name u = n @ ''.service''" using assms by (auto simp: has_suffix_iff)
  moreover have "trim_suffix ''.service'' (n @ ''.service'') = n" by (rule trim_suffix_append)
  ultimately show ?thesis
    by (simp add: service_matches_def service_info_def parse_format_uint word_gt_0 split: option.splits)
qed

definition sample_service_env :: "go_error option \<Rightarrow> service_env" where
  "sample_service_env bus = \<lparr>se_check_time = 0, se_system_bus = bus,
     se_list_units = Inr [\<lparr>un_Name = ''ssh.service'', un_LoadState = ''loaded'', un_ActiveState = ''active'',
         un_SubState = ''running'', un_Path = ''/ssh''\<rparr>,
       \<lparr>un_Name = ''tmp.mount'', un_LoadState = ''loaded'', un_ActiveState = ''active'',
         un_SubState = ''mounted'', un_Path = ''/tmp''\<rparr>],
     se_unit_file_state = (\<lambda>_. Some ''enabled''), se_memory_current = (\<lambda>_. Some 4096), se_store_time = 0\<rparr>"

definition sample_service_collector :: ServiceCollector where
  "sample_service_collector = fst (NewServiceCollector (cs_Service (cfg_Collectors DefaultConfig)))"

text \<open>A connection, once made, is kept; the bus is then never asked for another.\<close>

lemma collectService_connected:
  "vk_connected c \<Longrightarrow> collectServiceMetrics env c =
     (case se_list_units env of
        Inl err \<Rightarrow> Return (Inl (ErrWrap ''listing systemd services failed'' err), c)
      | Inr units \<Rightarrow> Return (Inr (slice_of_appends (service_loop (service_info env) units)), c))"
  by (simp add: collectServiceMetrics_def getDbusConnection_def)

section \<open>Properties\<close>

text \<open>
  C38. A service collection over an established or obtainable connection reports exactly the units
  whose name ends in \<open>.service\<close>, in order, without that suffix; the reported memory text reads
  back as the number systemd gave, and is empty when it gave none or zero.
\<close>

theorem service_reports:
  assumes "vk_connected c \<or> se_system_bus env = None" "se_list_units env = Inr units"
  shows "\<exists>is. collectServiceMetrics env c = Return (Inr (slice_of_appends is), c\<lparr>vk_connected := True\<rparr>)
    \<and> list_all2 (service_matches env) (filter (\<lambda>u. has_suffix ''.service'' (un_Name u)) units) is"
proof -
  have "collectServiceMetrics env c
      = Return (Inr (slice_of_appends (service_loop (service_info env) units)), c\<lparr>vk_connected := True\<rparr>)"
    using assms by (cases "vk_connected c") (simp_all add: collectServiceMetrics_def getDbusConnection_def)
  then show ?thesis
    by (auto simp: service_loop_eq list_all2_map2 list_all2_same service_info_matches)
qed

lemma service_reports_witness:
  "\<exists>i c'. collectServiceMetrics (sample_service_env None) sample_service_collector = Return (Inr (Some [i]), c')
     \<and> sv_Name i = ''ssh''"
proof -
  have f: "filter (\<lambda>u. has_suffix ''.service'' (un_Name u))
      [\<lparr>un_Name = ''ssh.service'', un_LoadState = ''loaded'', un_ActiveState = ''active'',
         un_SubState = ''running'', un_Path = ''/ssh''\<rparr>,
       \<lparr>un_Name = ''tmp.mount'', un_LoadState = ''loaded'', un_ActiveState = ''active'',
         un_SubState = ''mounted'', un_Path = ''/tmp''\<rparr>]
    = [\<lparr>un_Name = ''ssh.service'', un_LoadState = ''loaded'', un_ActiveState = ''active'',
         un_SubState = ''running'', un_Path = ''/ssh''\<rparr>]"
    by (simp add: has_suffix_def)
  show ?thesis
    using service_reports [of sample_service_collector "sample_service_env None"] f
    by (fastforce simp: sample_service_env_def list_all2_Cons1 service_matches_def slice_of_appends_def)
qed

text \<open>
  A broken D-Bus connection is never replaced: once the collector has a connection, a bus on
  which the unit list fails makes the collection fail and leaves the collector as it was, whether or
  not a new connection could be had, so every later collection uses the same connection.
\<close>

theorem service_never_reconnects:
  assumes "vk_connected c" "se_list_units env = Inl err"
  shows "collectServiceMetrics env c = Return (Inl (ErrWrap ''listing systemd services failed'' err), c)
    \<and> collectServiceMetrics (env\<lparr>se_system_bus := bus\<rparr>) c = collectServiceMetrics env c"
  using assms by (simp add: collectService_connected)

lemma service_never_reconnects_witness:
  "collectServiceMetrics (sample_service_env None\<lparr>se_list_units := Inl (ErrExt ''closed'')\<rparr>)
     (sample_service_collector\<lparr>vk_connected := True\<rparr>)
   = Return (Inl (ErrWrap ''listing systemd services failed'' (ErrExt ''closed'')),
       sample_service_collector\<lparr>vk_connected := True\<rparr>)"
  using service_never_reconnects [of "sample_service_collector\<lparr>vk_connected := True\<rparr>"
      "sample_service_env None\<lparr>se_list_units := Inl (ErrExt ''closed'')\<rparr>"] by simp

end
