(* ===== verification/Metrics_Queue.thy ===== *)
theory Metrics_Queue
  imports Prelude
begin

text \<open>
  The thread-safe queue of \<open>internal/common/queue.go\<close> through which the collecting
  goroutine hands metrics to the sending goroutine. Every operation holds the mutex for its
  whole body, so the sequential operations below are the atomic steps of the component; the
  second half models \<open>Pop\<close>'s wait on the condition variable as a step relation over
  threads.
\<close>

section \<open>Operations\<close>

record 'a ThreadSafeQueue =
  q_items :: "'a list"
  q_size :: int64

text \<open>
  \<open>make([]interface{}, 0, capacity)\<close> panics on a negative capacity and when the 16-byte
  interface values exceed the address space the runtime allocates from (\<open>2 ^ 48\<close> bytes).
\<close>

definition NewQueue :: "int64 \<Rightarrow> 'a ThreadSafeQueue outcome" where
  "NewQueue capacity =
     (if capacity < 0 \<or> 2 ^ 48 < capacity * 16 then Panic MakeSliceRange
      else Return \<lparr>q_items = [], q_size = capacity\<rparr>)"

definition Push :: "'a \<Rightarrow> 'a ThreadSafeQueue \<Rightarrow> 'a ThreadSafeQueue outcome" where
  "Push item q =
     obind (if q_size q \<le> int (length (q_items q)) then go_slice_from (q_items q) 1
            else Return (q_items q))
       (\<lambda>items. Return (q\<lparr>q_items := items @ [item]\<rparr>))"

definition TryPop :: "'a ThreadSafeQueue \<Rightarrow> 'a option \<times> 'a ThreadSafeQueue" where
  "TryPop q =
     (case q_items q of
        [] \<Rightarrow> (None, q)
      | item # rest \<Rightarrow> (Some item, q\<lparr>q_items := rest\<rparr>))"

definition Size :: "'a ThreadSafeQueue \<Rightarrow> int64" where
  "Size q = int (length (q_items q))"

section \<open>The interface: a bounded first-in first-out buffer that drops its oldest item\<close>

datatype 'a queue_op = OpPush 'a | OpTryPop

text \<open>A sequence of calls, and the items its successful \<open>TryPop\<close> calls returned.\<close>

fun run_ops ::
  "('a \<Rightarrow> 'q \<Rightarrow> 'q outcome) \<Rightarrow> ('q \<Rightarrow> 'a option \<times> 'q) \<Rightarrow> 'a queue_op list \<Rightarrow> 'q
   \<Rightarrow> ('a list \<times> 'q) outcome" where
  "run_ops push pop [] q = Return ([], q)"
| "run_ops push pop (OpPush x # ops) q = obind (push x q) (run_ops push pop ops)"
| "run_ops push pop (OpTryPop # ops) q =
     (case pop q of (r, q') \<Rightarrow>
        obind (run_ops push pop ops q')
          (\<lambda>(out, q''). Return (case r of None \<Rightarrow> out | Some x \<Rightarrow> x # out, q'')))"

fun pushes :: "'a queue_op list \<Rightarrow> 'a list" where
  "pushes [] = []"
| "pushes (OpPush x # ops) = x # pushes ops"
| "pushes (OpTryPop # ops) = pushes ops"

text \<open>A sequence of calls that never pushes onto a full queue, from \<open>n\<close> queued items.\<close>

fun no_overflow :: "nat \<Rightarrow> nat \<Rightarrow> 'a queue_op list \<Rightarrow> bool" where
  "no_overflow c n [] = True"
| "no_overflow c n (OpPush x # ops) = (n < c \<and> no_overflow c (Suc n) ops)"
| "no_overflow c n (OpTryPop # ops) = no_overflow c (n - 1) ops"

locale bounded_queue =
  fixes push :: "'a \<Rightarrow> 'q \<Rightarrow> 'q outcome"
    and pop :: "'q \<Rightarrow> 'a option \<times> 'q"
    and content :: "'q \<Rightarrow> 'a list"
    and cap :: "'q \<Rightarrow> nat"
    and inv :: "'q \<Rightarrow> bool"
  assumes push_law: "inv q \<Longrightarrow> \<exists>q'. push x q = Return q' \<and> inv q' \<and> cap q' = cap q \<and>
      content q' = (if length (content q) < cap q then content q else tl (content q)) @ [x]"
    and pop_law: "inv q \<Longrightarrow> pop q = (r, q') \<Longrightarrow> inv q' \<and> cap q' = cap q \<and>
      content q' = tl (content q) \<and> r = (case content q of [] \<Rightarrow> None | x # _ \<Rightarrow> Some x)"
    and bound_law: "inv q \<Longrightarrow> length (content q) \<le> cap q"
begin

lemma run_total:
  "inv q \<Longrightarrow> \<exists>out q'. run_ops push pop ops q = Return (out, q') \<and> inv q' \<and> cap q' = cap q"
proof (induction ops arbitrary: q)
  case (Cons a ops)
  show ?case
  proof (cases a)
    case (OpPush x)
    obtain q1 where "push x q = Return q1" "inv q1" "cap q1 = cap q"
      using push_law [OF Cons.prems] by blast
    with Cons.IH [of q1] OpPush show ?thesis by auto
  next
    case OpTryPop
    obtain r q1 where "pop q = (r, q1)" by (cases "pop q") auto
    with Cons.IH [of q1] pop_law [OF Cons.prems] OpTryPop show ?thesis by fastforce
  qed
qed simp

text \<open>What came out, followed by what is left, is what went in with some items dropped.\<close>

lemma run_order:
  "inv q \<Longrightarrow> run_ops push pop ops q = Return (out, q') \<Longrightarrow>
   subseq (out @ content q') (content q @ pushes ops)"
proof (induction ops arbitrary: q out)
  case (Cons a ops)
  show ?case
  proof (cases a)
    case (OpPush x)
    obtain q1 where q1: "push x q = Return q1" "inv q1"
      and c: "content q1 = (if length (content q) < cap q then content q else tl (content q)) @ [x]"
      using push_law [OF Cons.prems(1)] by blast
    have "subseq (out @ content q') (content q1 @ pushes ops)"
      using Cons.IH [OF q1(2)] Cons.prems(2) OpPush q1(1) by simp
    moreover have "subseq (content q1 @ pushes ops) (content q @ pushes (a # ops))"
    proof -
      have "subseq (tl (content q)) (content q)" by (cases "content q") auto
      then show ?thesis using OpPush c by (auto intro: list_emb_append_mono)
    qed
    ultimately show ?thesis by (rule subseq_order.trans)
  next
    case OpTryPop
    obtain r q1 where p: "pop q = (r, q1)" by (cases "pop q") auto
    note law = pop_law [OF Cons.prems(1) p]
    obtain o1 where o1: "run_ops push pop ops q1 = Return (o1, q')"
        "out = (case r of None \<Rightarrow> o1 | Some x \<Rightarrow> x # o1)"
      using Cons.prems(2) OpTryPop p by (auto split: option.splits)
    have "subseq (o1 @ content q') (content q1 @ pushes ops)"
      using Cons.IH [OF _ o1(1)] law by blast
    then show ?thesis using law o1(2) OpTryPop by (cases "content q") auto
  qed
qed simp

lemma run_lossless:
  "inv q \<Longrightarrow> no_overflow (cap q) (length (content q)) ops \<Longrightarrow>
   run_ops push pop ops q = Return (out, q') \<Longrightarrow> out @ content q' = content q @ pushes ops"
proof (induction ops arbitrary: q out)
  case (Cons a ops)
  show ?case
  proof (cases a)
    case (OpPush x)
    then obtain q1 where q1: "push x q = Return q1" "inv q1" "cap q1 = cap q"
      and c: "content q1 = content q @ [x]"
      using push_law [OF Cons.prems(1), of x] Cons.prems(2) by auto
    then show ?thesis using Cons.IH [OF q1(2)] Cons.prems(2,3) OpPush by simp
  next
    case OpTryPop
    obtain r q1 where p: "pop q = (r, q1)" by (cases "pop q") auto
    note law = pop_law [OF Cons.prems(1) p]
    obtain o1 where o1: "run_ops push pop ops q1 = Return (o1, q')"
        "out = (case r of None \<Rightarrow> o1 | Some x \<Rightarrow> x # o1)"
      using Cons.prems(3) OpTryPop p by (auto split: option.splits)
    have "o1 @ content q' = content q1 @ pushes ops"
      using Cons.IH [OF _ _ o1(1)] law Cons.prems(2) OpTryPop by simp
    then show ?thesis using law o1(2) OpTryPop by (cases "content q") auto
  qed
qed simp

text \<open>The queued items are the most recent pushes: dropping happens at the old end only.\<close>

lemma run_suffix:
  "inv q \<Longrightarrow> run_ops push pop ops q = Return (out, q') \<Longrightarrow>
   suffix (content q') (content q @ pushes ops)"
proof (induction ops arbitrary: q out)
  case (Cons a ops)
  have tl_suffix: "suffix (tl xs @ zs) (xs @ zs)" for xs zs :: "'a list"
    by (cases xs) (auto simp: suffix_def)
  show ?case
  proof (cases a)
    case (OpPush x)
    obtain q1 where q1: "push x q = Return q1" "inv q1"
      and c: "content q1 = (if length (content q) < cap q then content q else tl (content q)) @ [x]"
      using push_law [OF Cons.prems(1)] by blast
    have "suffix (content q') (content q1 @ pushes ops)"
      using Cons.IH [OF q1(2)] Cons.prems(2) OpPush q1(1) by simp
    moreover have "suffix (content q1 @ pushes ops) (content q @ pushes (a # ops))"
      using c OpPush tl_suffix [of "content q"] by auto
    ultimately show ?thesis by (rule suffix_order.trans)
  next
    case OpTryPop
    obtain r q1 where p: "pop q = (r, q1)" by (cases "pop q") auto
    note law = pop_law [OF Cons.prems(1) p]
    obtain o1 where o1: "run_ops push pop ops q1 = Return (o1, q')"
      using Cons.prems(2) OpTryPop p by (auto split: option.splits)
    have "suffix (content q') (content q1 @ pushes ops)"
      using Cons.IH [OF _ o1] law by blast
    moreover have "suffix (content q1 @ pushes ops) (content q @ pushes (a # ops))"
      using law OpTryPop tl_suffix [of "content q"] by auto
    ultimately show ?thesis by (rule suffix_order.trans)
  qed
qed simp

end

text \<open>The program's queue provides the interface as long as its capacity is positive.\<close>

definition queue_ok :: "'a ThreadSafeQueue \<Rightarrow> bool" where
  "queue_ok q \<longleftrightarrow> 0 < q_size q \<and> int (length (q_items q)) \<le> q_size q"

definition queue_cap :: "'a ThreadSafeQueue \<Rightarrow> nat" where
  "queue_cap q = nat (q_size q)"

lemma Push_ok:
  "queue_ok q \<Longrightarrow> Push x q = Return (q\<lparr>q_items :=
     (if length (q_items q) < queue_cap q then q_items q else tl (q_items q)) @ [x]\<rparr>)"
  by (cases "q_items q") (auto simp: Push_def queue_ok_def queue_cap_def go_slice_from_def)

lemma TryPop_eq:
  "TryPop q = (case q_items q of [] \<Rightarrow> None | x # _ \<Rightarrow> Some x, q\<lparr>q_items := tl (q_items q)\<rparr>)"
  by (cases q; cases "q_items q") (auto simp: TryPop_def)

interpretation tsq: bounded_queue Push TryPop q_items queue_cap queue_ok
proof
  fix q :: "'a ThreadSafeQueue" and x
  assume "queue_ok q"
  then show "\<exists>q'. Push x q = Return q' \<and> queue_ok q' \<and> queue_cap q' = queue_cap q \<and>
      q_items q' = (if length (q_items q) < queue_cap q then q_items q else tl (q_items q)) @ [x]"
    by (subst Push_ok) (auto simp: queue_ok_def queue_cap_def)
next
  fix q q' :: "'a ThreadSafeQueue" and r
  assume "queue_ok q" "TryPop q = (r, q')"
  then show "queue_ok q' \<and> queue_cap q' = queue_cap q \<and> q_items q' = tl (q_items q) \<and>
      r = (case q_items q of [] \<Rightarrow> None | x # _ \<Rightarrow> Some x)"
    by (auto simp: TryPop_eq queue_ok_def queue_cap_def)
qed (auto simp: queue_ok_def queue_cap_def)

lemma NewQueue_ok: "0 < c \<Longrightarrow> NewQueue c = Return q \<Longrightarrow> queue_ok q \<and> q_items q = [] \<and> queue_cap q = nat c"
  by (auto simp: NewQueue_def queue_ok_def queue_cap_def split: if_splits)


section \<open>Waiting in \<open>Pop\<close>\<close>

text \<open>
  Threads are numbered. A thread that finds the queue empty releases the mutex and waits on the
  condition variable; \<open>Signal\<close> moves the longest waiting thread to the woken ones, which
  look at the queue again once they have the mutex back. \<open>Pop_attempt\<close> is one round of
  the loop of \<open>Pop\<close>: \<open>None\<close> when it waits.
\<close>

record 'a monitor =
  m_queue :: "'a ThreadSafeQueue"
  m_waiting :: "nat list"
  m_woken :: "nat list"

definition Pop_attempt :: "'a ThreadSafeQueue \<Rightarrow> ('a \<times> 'a ThreadSafeQueue) option" where
  "Pop_attempt q =
     (case q_items q of
        [] \<Rightarrow> None
      | item # rest \<Rightarrow> Some (item, q\<lparr>q_items := rest\<rparr>))"

definition Signal :: "'a monitor \<Rightarrow> 'a monitor" where
  "Signal m =
     (case m_waiting m of
        [] \<Rightarrow> m
      | t # ts \<Rightarrow> m\<lparr>m_waiting := ts, m_woken := t # m_woken m\<rparr>)"

datatype 'a queue_event = EvPush 'a | EvTryPop "'a option" | EvTake nat 'a | EvWait nat

inductive queue_step :: "'a monitor \<Rightarrow> 'a queue_event \<Rightarrow> 'a monitor \<Rightarrow> bool" where
  step_push: "Push x (m_queue m) = Return q \<Longrightarrow> queue_step m (EvPush x) (Signal (m\<lparr>m_queue := q\<rparr>))"
| step_trypop: "TryPop (m_queue m) = (r, q) \<Longrightarrow> queue_step m (EvTryPop r) (m\<lparr>m_queue := q\<rparr>)"
| step_enter_take:
    "t \<notin> set (m_waiting m) \<Longrightarrow> t \<notin> set (m_woken m) \<Longrightarrow> Pop_attempt (m_queue m) = Some (x, q) \<Longrightarrow>
     queue_step m (EvTake t x) (m\<lparr>m_queue := q\<rparr>)"
| step_enter_wait:
    "t \<notin> set (m_waiting m) \<Longrightarrow> t \<notin> set (m_woken m) \<Longrightarrow> Pop_attempt (m_queue m) = None \<Longrightarrow>
     queue_step m (EvWait t) (m\<lparr>m_waiting := m_waiting m @ [t]\<rparr>)"
| step_woken_take:
    "t \<in> set (m_woken m) \<Longrightarrow> Pop_attempt (m_queue m) = Some (x, q) \<Longrightarrow>
     queue_step m (EvTake t x) (m\<lparr>m_queue := q, m_woken := remove1 t (m_woken m)\<rparr>)"
| step_woken_wait:
    "t \<in> set (m_woken m) \<Longrightarrow> Pop_attempt (m_queue m) = None \<Longrightarrow>
     queue_step m (EvWait t)
       (m\<lparr>m_waiting := m_waiting m @ [t], m_woken := remove1 t (m_woken m)\<rparr>)"

inductive queue_steps :: "'a monitor \<Rightarrow> 'a queue_event list \<Rightarrow> 'a monitor \<Rightarrow> bool" where
  steps_nil: "queue_steps m [] m"
| steps_cons: "queue_step m e m' \<Longrightarrow> queue_steps m' es m'' \<Longrightarrow> queue_steps m (e # es) m''"

inductive_cases queue_steps_ConsE: "queue_steps m (e # es) m''"
inductive_cases queue_steps_NilE: "queue_steps m [] m''"

definition monitor_init :: "'a ThreadSafeQueue \<Rightarrow> 'a monitor" where
  "monitor_init q = \<lparr>m_queue = q, m_waiting = [], m_woken = []\<rparr>"

text \<open>
  No wake-up is lost: while a thread waits, there are at least as many woken threads as items.
  A push that evicts keeps the number of items and still signals.
\<close>

definition wakeup_inv :: "'a monitor \<Rightarrow> bool" where
  "wakeup_inv m \<longleftrightarrow> m_waiting m = [] \<or> length (q_items (m_queue m)) \<le> length (m_woken m)"

lemma Pop_attempt_None: "Pop_attempt q = None \<longleftrightarrow> q_items q = []"
  by (simp add: Pop_attempt_def split: list.splits)

lemma Pop_attempt_length:
  "Pop_attempt q = Some (x, q') \<Longrightarrow> length (q_items q) = Suc (length (q_items q'))"
  by (auto simp: Pop_attempt_def split: list.splits)

lemma Push_length: "Push x q = Return q' \<Longrightarrow> length (q_items q') \<le> Suc (length (q_items q))"
  by (auto simp: Push_def go_slice_from_def split: if_splits)

lemma queue_step_wakeup: "queue_step m e m' \<Longrightarrow> wakeup_inv m \<Longrightarrow> wakeup_inv m'"
proof (induction rule: queue_step.induct)
  case (step_push x m q)
  then show ?case using Push_length [of x "m_queue m" q]
    by (auto simp: wakeup_inv_def Signal_def split: list.splits)
next
  case (step_trypop m r q)
  then show ?case by (auto simp: wakeup_inv_def TryPop_eq)
qed (auto simp: wakeup_inv_def Pop_attempt_None length_remove1 dest!: Pop_attempt_length)

lemma queue_steps_wakeup: "queue_steps m es m' \<Longrightarrow> wakeup_inv m \<Longrightarrow> wakeup_inv m'"
  by (induction rule: queue_steps.induct) (auto dest: queue_step_wakeup)

text \<open>Every interleaving is a sequence of atomic operations with the same results.\<close>

fun event_ops :: "'a queue_event list \<Rightarrow> 'a queue_op list" where
  "event_ops [] = []"
| "event_ops (EvPush x # es) = OpPush x # event_ops es"
| "event_ops (EvTryPop r # es) = OpTryPop # event_ops es"
| "event_ops (EvTake t x # es) = OpTryPop # event_ops es"
| "event_ops (EvWait t # es) = event_ops es"

fun delivered :: "'a queue_event list \<Rightarrow> 'a list" where
  "delivered [] = []"
| "delivered (EvTake t x # es) = x # delivered es"
| "delivered (EvTryPop (Some x) # es) = x # delivered es"
| "delivered (e # es) = delivered es"

lemma Signal_queue [simp]: "m_queue (Signal m) = m_queue m"
  by (simp add: Signal_def split: list.splits)

lemma Pop_attempt_TryPop: "Pop_attempt q = Some (x, q') \<Longrightarrow> TryPop q = (Some x, q')"
  by (auto simp: Pop_attempt_def TryPop_def split: list.splits)

lemma queue_steps_linear:
  "queue_steps m es m' \<Longrightarrow>
   run_ops Push TryPop (event_ops es) (m_queue m) = Return (delivered es, m_queue m')"
proof (induction rule: queue_steps.induct)
  case (steps_cons m e m' es m'')
  from steps_cons.hyps(1) show ?case
  proof (cases rule: queue_step.cases)
    case (step_trypop r q)
    then show ?thesis using steps_cons.IH by (cases r) simp_all
  qed (use steps_cons.IH in \<open>auto simp: Pop_attempt_TryPop\<close>)
qed simp

section \<open>Properties\<close>

text \<open>
  C17. A queue created with a positive capacity never panics and never holds more than its
  capacity; what \<open>TryPop\<close> returned followed by what is still queued is, in order, what was
  pushed with only old items dropped, and nothing is dropped unless a push meets a full queue.
\<close>

theorem queue_bounded_fifo:
  assumes "0 < c" "NewQueue c = Return q0"
  shows "\<exists>out q. run_ops Push TryPop ops q0 = Return (out, q) \<and> Size q \<le> c
    \<and> subseq (out @ q_items q) (pushes ops) \<and> suffix (q_items q) (pushes ops)
    \<and> (no_overflow (nat c) 0 ops \<longrightarrow> out @ q_items q = pushes ops)"
proof -
  note q0 = NewQueue_ok [OF assms]
  obtain out q where r: "run_ops Push TryPop ops q0 = Return (out, q)"
    and q: "queue_ok q" "queue_cap q = nat c"
    using tsq.run_total [of q0 ops] q0 by auto
  have "Size q \<le> c" using tsq.bound_law [OF q(1)] q(2) assms(1) by (simp add: Size_def)
  then show ?thesis
    using r tsq.run_order [OF _ r] tsq.run_suffix [OF _ r] tsq.run_lossless [OF _ _ r] q0 by auto
qed

lemma queue_bounded_fifo_witness:
  "\<exists>out q. run_ops Push TryPop [OpPush (1::nat), OpPush 2, OpPush 3, OpTryPop] \<lparr>q_items = [], q_size = 2\<rparr>
     = Return (out, q) \<and> Size q \<le> 2 \<and> suffix (q_items q) [1, 2, 3]"
  using queue_bounded_fifo [of 2 "\<lparr>q_items = [], q_size = 2\<rparr>"
      "[OpPush (1::nat), OpPush 2, OpPush 3, OpTryPop]"]
  by (auto simp: NewQueue_def)

text \<open>
  C18. No wake-up is lost: in every interleaving of pushes, \<open>TryPop\<close> and \<open>Pop\<close> calls,
  while some thread waits in \<open>Pop\<close> every queued item has a woken thread on its way to it.
\<close>

theorem queue_no_lost_wakeup:
  assumes "NewQueue c = Return q0" "queue_steps (monitor_init q0) es m" "m_waiting m \<noteq> []"
  shows "Size (m_queue m) \<le> int (length (m_woken m))"
proof -
  have "wakeup_inv (monitor_init q0)" by (simp add: wakeup_inv_def monitor_init_def)
  from queue_steps_wakeup [OF assms(2) this] assms(3) show ?thesis
    by (simp add: wakeup_inv_def Size_def)
qed

lemma two_waiters:
  "queue_steps (monitor_init \<lparr>q_items = [], q_size = 2\<rparr>) [EvWait 0, EvWait 1, EvPush (7::nat)]
     \<lparr>m_queue = \<lparr>q_items = [7], q_size = 2\<rparr>, m_waiting = [1], m_woken = [0]\<rparr>"
proof -
  let ?q = "\<lparr>q_items = [] :: nat list, q_size = 2\<rparr>"
  let ?m = "\<lambda>w. \<lparr>m_queue = ?q, m_waiting = w, m_woken = []\<rparr>"
  have "queue_step (monitor_init ?q) (EvWait 0) (?m [0])"
    using step_enter_wait [of 0 "monitor_init ?q"] by (simp add: monitor_init_def Pop_attempt_def)
  moreover have "queue_step (?m [0]) (EvWait 1) (?m [0, 1])"
    using step_enter_wait [of 1 "?m [0]"] by (simp add: Pop_attempt_def)
  moreover have "queue_step (?m [0, 1]) (EvPush 7)
      \<lparr>m_queue = \<lparr>q_items = [7], q_size = 2\<rparr>, m_waiting = [1], m_woken = [0]\<rparr>"
    using step_push [of 7 "?m [0, 1]"] by (simp add: Push_def Signal_def)
  ultimately show ?thesis by (blast intro: steps_cons steps_nil)
qed

lemma queue_no_lost_wakeup_witness:
  "Size \<lparr>q_items = [7::nat], q_size = 2\<rparr> \<le> 1"
  using queue_no_lost_wakeup [OF _ two_waiters, of 2] by (simp add: NewQueue_def)

text \<open>
  C4. Concurrent use is linearizable: whatever the interleaving, the items handed to callers of
  \<open>Pop\<close> and \<open>TryPop\<close>, in the order of delivery, followed by the queued ones, are
  pushed items in push order, each delivered at most as often as it was pushed, and the queue
  stays within its capacity.
\<close>

theorem queue_linearizable:
  assumes "0 < c" "NewQueue c = Return q0" "queue_steps (monitor_init q0) es m"
  shows "run_ops Push TryPop (event_ops es) q0 = Return (delivered es, m_queue m)
    \<and> subseq (delivered es @ q_items (m_queue m)) (pushes (event_ops es)) \<and> Size (m_queue m) \<le> c"
proof -
  note q0 = NewQueue_ok [OF assms(1,2)]
  have r: "run_ops Push TryPop (event_ops es) q0 = Return (delivered es, m_queue m)"
    using queue_steps_linear [OF assms(3)] by (simp add: monitor_init_def)
  with tsq.run_total [of q0 "event_ops es"] q0
  have "queue_ok (m_queue m)" "queue_cap (m_queue m) = nat c" by auto
  then have "Size (m_queue m) \<le> c" using tsq.bound_law [of "m_queue m"] assms(1) by (simp add: Size_def)
  with r tsq.run_order [OF _ r] q0 show ?thesis by auto
qed

lemma queue_linearizable_witness:
  "subseq (delivered [EvWait 0, EvWait 1, EvPush (7::nat)] @ [7]) [7]"
  using queue_linearizable [OF _ _ two_waiters, of 2] by (simp add: NewQueue_def)

text \<open>
  \<open>Push\<close> panics exactly on a queue that is empty and was created with no capacity:
  it slices the first item off an empty buffer.
\<close>

theorem push_panics_iff:
  "Push x q = Panic p \<longleftrightarrow> q_items q = [] \<and> q_size q \<le> 0 \<and> p = SliceOutOfRange"
  by (cases "q_items q") (auto simp: Push_def go_slice_from_def)

end
