(* ===== verification/Master_Collector.thy ===== *)
theory Master_Collector
  imports System_Collector Cpu_Collector Memory_Collector Disk_Collector Network_Collector
    Container_Collector Process_Collector Service_Collector Metrics_Queue
begin

text \<open>
  The master collector of \<open>internal/collectors/collector.go\<close>, which asks the eight collectors at
  once, merges their answers into one metric and queues it. The collectors have no state in common,
  so each goroutine is one step on its own collector; the order in which the goroutines reach the
  mutex that guards the metric is a parameter of the environment.
\<close>

section \<open>Collectors\<close>

text \<open>The implementations of the interface \<open>Collector\<close>, and the types its \<open>interface{}\<close> can hold.\<close>

datatype Collector =
    CollSystem SystemCollector
  | CollCPU CPUCollector
  | CollMemory MemoryCollector
  | CollDisk disk_state
  | CollContainer ContainerCollector
  | CollNetwork NetworkCollector
  | CollProcess ProcessCollector
  | CollService ServiceCollector

datatype metric_data =
    DataSystem SystemInfo
  | DataCPU CPUMetrics
  | DataMemory MemoryMetrics
  | DataDisk "DiskMetrics slice"
  | DataContainer "DockerContainer slice"
  | DataNetwork "NetworkMetrics slice"
  | DataProcess "ProcessInfo slice"
  | DataService "ServiceInfo slice"

type_synonym collector_result = "string \<times> (go_error + metric_data)"

record collect_env =
  ae_now :: instant
  ae_system :: system_env
  ae_cpu :: cpu_env
  ae_memory :: memory_env
  ae_disk :: disk_env
  ae_container :: container_env
  ae_process :: process_env
  ae_service :: service_env
  ae_order :: "collector_result list \<Rightarrow> collector_result list"

definition as_Collector ::
  "('m \<Rightarrow> metric_data) \<Rightarrow> ('s \<Rightarrow> Collector) \<Rightarrow> ((go_error + 'm) \<times> 's) outcome
   \<Rightarrow> ((go_error + metric_data) \<times> Collector) outcome" where
  "as_Collector data coll r =
     obind r (\<lambda>(x, s). Return (case x of Inl err \<Rightarrow> Inl err | Inr m \<Rightarrow> Inr (data m), coll s))"

fun Collector_Collect :: "collect_env \<Rightarrow> Collector \<Rightarrow> ((go_error + metric_data) \<times> Collector) outcome" where
  "Collector_Collect env (CollSystem c) = as_Collector DataSystem CollSystem (system_Collect (ae_system env) c)"
| "Collector_Collect env (CollCPU c) = as_Collector DataCPU CollCPU (cpu_Collect (ae_cpu env) c)"
| "Collector_Collect env (CollMemory c) = as_Collector DataMemory CollMemory (memory_Collect (ae_memory env) c)"
| "Collector_Collect env (CollDisk s) = as_Collector DataDisk CollDisk (disk_Collect (ae_disk env) s)"
| "Collector_Collect env (CollContainer c) =
     as_Collector DataContainer CollContainer (container_Collect (ae_container env) c)"
| "Collector_Collect env (CollNetwork c) = as_Collector DataNetwork CollNetwork (Return (network_Collect c))"
| "Collector_Collect env (CollProcess c) = as_Collector DataProcess CollProcess (process_Collect (ae_process env) c)"
| "Collector_Collect env (CollService c) = as_Collector DataService CollService (service_Collect (ae_service env) c)"

section \<open>The master collector\<close>

record MasterCollector =
  mc_collectors :: "(string \<times> Collector) list"
  mc_metricsQueue :: "SystemMetrics ThreadSafeQueue"
  mc_userKey :: string
  mc_localKey :: string
  mc_externalIP :: string

definition AddCollector :: "string \<Rightarrow> Collector \<Rightarrow> MasterCollector \<Rightarrow> MasterCollector" where
  "AddCollector name c mc = mc\<lparr>mc_collectors := put_entry name c (mc_collectors mc)\<rparr>"

text \<open>
  \<open>docker\<close> is the outcome of creating the Docker client, \<open>net\<close> what the network collector's first
  collection sees and \<open>devices\<close> the package's cache of block devices.
\<close>

definition NewMasterCollector ::
  "go_error option \<Rightarrow> network_env \<Rightarrow> device_cache \<Rightarrow> Config \<Rightarrow> MasterCollector outcome" where
  "NewMasterCollector docker net devices cfg =
     (let cs = cfg_Collectors cfg in
      obind (NewQueue 100) (\<lambda>q. Return
        (AddCollector ''service'' (CollService (fst (NewServiceCollector (cs_Service cs))))
        (AddCollector ''process'' (CollProcess (fst (NewProcessCollector (cs_Process cs))))
        (AddCollector ''network'' (CollNetwork (fst (NewNetworkCollector net (cs_Network cs))))
        (AddCollector ''container'' (CollContainer (fst (NewContainerCollector docker (cs_Docker cs))))
        (AddCollector ''disk'' (CollDisk (fst (NewDiskCollector (cs_Disk cs)), devices))
        (AddCollector ''memory'' (CollMemory (fst (NewMemoryCollector (cs_Memory cs))))
        (AddCollector ''cpu'' (CollCPU (fst (NewCPUCollector (cs_CPU cs))))
        (AddCollector ''system'' (CollSystem (fst (NewSystemCollector (cs_System cs))))
          \<lparr>mc_collectors = [], mc_metricsQueue = q, mc_userKey = cfg_UserKey cfg,
           mc_localKey = cfg_LocalKey cfg, mc_externalIP = cfg_ExternalIP cfg\<rparr>))))))))))"

text \<open>The type switch under the mutex: an answer replaces the field of its type.\<close>

fun set_metric :: "metric_data \<Rightarrow> SystemMetrics \<Rightarrow> SystemMetrics" where
  "set_metric (DataSystem v) m = m\<lparr>sm_System := v\<rparr>"
| "set_metric (DataCPU v) m = m\<lparr>sm_CPU := v\<rparr>"
| "set_metric (DataMemory v) m = m\<lparr>sm_Memory := v\<rparr>"
| "set_metric (DataDisk v) m = m\<lparr>sm_Disk := v\<rparr>"
| "set_metric (DataNetwork v) m = m\<lparr>sm_Network := v\<rparr>"
| "set_metric (DataProcess v) m = m\<lparr>sm_Processes := v\<rparr>"
| "set_metric (DataContainer v) m = m\<lparr>sm_Containers := v\<rparr>"
| "set_metric (DataService v) m = m\<lparr>sm_Services := v\<rparr>"

text \<open>An error is collected for the log only.\<close>

definition apply_result :: "collector_result \<Rightarrow> SystemMetrics \<Rightarrow> SystemMetrics" where
  "apply_result r m = (case snd r of Inl err \<Rightarrow> m | Inr data \<Rightarrow> set_metric data m)"

fun collect_goroutines ::
  "collect_env \<Rightarrow> (string \<times> Collector) list \<Rightarrow> (collector_result list \<times> (string \<times> Collector) list) outcome" where
  "collect_goroutines env [] = Return ([], [])"
| "collect_goroutines env ((name, c) # cs) =
     obind (Collector_Collect env c) (\<lambda>(r, c').
       obind (collect_goroutines env cs) (\<lambda>(rs, cs'). Return ((name, r) # rs, (name, c') # cs')))"

definition CollectAll ::
  "collect_env \<Rightarrow> string \<Rightarrow> string \<Rightarrow> string \<Rightarrow> MasterCollector
   \<Rightarrow> ((go_error + SystemMetrics) \<times> MasterCollector) outcome" where
  "CollectAll env userID key externalIP mc =
     obind (collect_goroutines env (mc_collectors mc)) (\<lambda>(rs, cs).
       let metrics = fold apply_result (ae_order env rs)
             (zero_SystemMetrics\<lparr>sm_USER_ID := userID, sm_Key := key, sm_ExternalIP := externalIP,
                sm_Timestamp := ae_now env\<rparr>)
       in Return (Inr metrics, mc\<lparr>mc_collectors := cs\<rparr>))"

text \<open>One tick of the goroutine that \<open>Start\<close> runs, and its run over a sequence of ticks.\<close>

definition master_tick :: "collect_env \<Rightarrow> MasterCollector \<Rightarrow> MasterCollector outcome" where
  "master_tick env mc =
     obind (CollectAll env (mc_userKey mc) (mc_localKey mc) (mc_externalIP mc) mc) (\<lambda>(r, mc').
       case r of
         Inl err \<Rightarrow> Return mc'
       | Inr metrics \<Rightarrow>
           obind (Push metrics (mc_metricsQueue mc')) (\<lambda>q. Return (mc'\<lparr>mc_metricsQueue := q\<rparr>)))"

fun master_ticks :: "collect_env list \<Rightarrow> MasterCollector \<Rightarrow> MasterCollector outcome" where
  "master_ticks [] mc = Return mc"
| "master_ticks (env # envs) mc = obind (master_tick env mc) (master_ticks envs)"

definition Start :: "int64 \<Rightarrow> collect_env list \<Rightarrow> MasterCollector \<Rightarrow> MasterCollector outcome" where
  "Start intervalSeconds envs mc = obind (new_ticker (dur_seconds intervalSeconds)) (\<lambda>_. master_ticks envs mc)"

text \<open>\<open>Stop\<close> only logs; the goroutine goes on.\<close>

definition Stop :: "MasterCollector \<Rightarrow> MasterCollector" where "Stop mc = mc"

definition GetDataQueue :: "MasterCollector \<Rightarrow> SystemMetrics ThreadSafeQueue" where
  "GetDataQueue mc = mc_metricsQueue mc"

section \<open>Lemmas\<close>

text \<open>The category a collector is registered under, which its answers keep.\<close>

fun category :: "Collector \<Rightarrow> string" where
  "category (CollSystem c) = ''system''"
| "category (CollCPU c) = ''cpu''"
| "category (CollMemory c) = ''memory''"
| "category (CollDisk c) = ''disk''"
| "category (CollContainer c) = ''container''"
| "category (CollNetwork c) = ''network''"
| "category (CollProcess c) = ''process''"
| "category (CollService c) = ''service''"

fun data_category :: "metric_data \<Rightarrow> string" where
  "data_category (DataSystem v) = ''system''"
| "data_category (DataCPU v) = ''cpu''"
| "data_category (DataMemory v) = ''memory''"
| "data_category (DataDisk v) = ''disk''"
| "data_category (DataContainer v) = ''container''"
| "data_category (DataNetwork v) = ''network''"
| "data_category (DataProcess v) = ''process''"
| "data_category (DataService v) = ''service''"

definition categories :: "string list" where
  "categories = [''system'', ''cpu'', ''memory'', ''disk'', ''container'', ''network'', ''process'', ''service'']"

definition master_inv :: "MasterCollector \<Rightarrow> bool" where
  "master_inv mc \<longleftrightarrow> map fst (mc_collectors mc) = categories
     \<and> list_all (\<lambda>(name, c). category c = name) (mc_collectors mc)
     \<and> q_size (mc_metricsQueue mc) = 100 \<and> length (q_items (mc_metricsQueue mc)) \<le> 100"

lemma as_Collector_Return:
  assumes "as_Collector data coll q = Return (x, c)"
  shows "\<exists>y s. q = Return (y, s) \<and> c = coll s
    \<and> x = (case y of Inl err \<Rightarrow> Inl err | Inr m \<Rightarrow> Inr (data m))"
  using assms unfolding as_Collector_def by (cases q) auto

lemma as_Collector_category:
  assumes "as_Collector data coll q = Return (x, c)"
  obtains s where "c = coll s" "\<And>d. x = Inr d \<Longrightarrow> \<exists>m. d = data m"
proof -
  obtain y s where ys: "c = coll s" "x = (case y of Inl err \<Rightarrow> Inl err | Inr m \<Rightarrow> Inr (data m))"
    using as_Collector_Return [OF assms] by blast
  then have "\<And>d. x = Inr d \<Longrightarrow> \<exists>m. d = data m" by (cases y) auto
  with ys(1) show ?thesis by (rule that)
qed

lemma Collector_Collect_category:
  "Collector_Collect env c = Return (r, c') \<Longrightarrow>
   category c' = category c \<and> (\<forall>d. r = Inr d \<longrightarrow> data_category d = category c)"
  by (cases c; simp only: Collector_Collect.simps; erule as_Collector_category; auto)

lemma collect_goroutines_categories:
  "collect_goroutines env cs = Return (rs, cs') \<Longrightarrow> list_all (\<lambda>(name, c). category c = name) cs \<Longrightarrow>
   map fst rs = map fst cs \<and> map fst cs' = map fst cs
   \<and> list_all (\<lambda>(name, c). category c = name) cs'
   \<and> list_all (\<lambda>(name, r). \<forall>d. r = Inr d \<longrightarrow> data_category d = name) rs"
proof (induction cs arbitrary: rs cs')
  case (Cons nc cs)
  obtain name c where nc: "nc = (name, c)" by (cases nc)
  from Cons.prems(1) obtain r c1 rs1 cs1 where g: "Collector_Collect env c = Return (r, c1)"
    "collect_goroutines env cs = Return (rs1, cs1)" "rs = (name, r) # rs1" "cs' = (name, c1) # cs1"
    unfolding nc by auto
  show ?case
    using Cons.IH [OF g(2)] Cons.prems(2) Collector_Collect_category [OF g(1)] unfolding g(3,4) nc by simp
qed simp

lemma NewMasterCollector_inv:
  "\<exists>mc. NewMasterCollector docker net devices cfg = Return mc \<and> master_inv mc"
  by (simp add: NewMasterCollector_def NewQueue_def AddCollector_def Let_def master_inv_def categories_def)

text \<open>Answers of different categories touch different fields.\<close>

lemma set_metric_commute:
  "data_category d \<noteq> data_category e \<Longrightarrow> set_metric d (set_metric e m) = set_metric e (set_metric d m)"
  by (cases d; cases e) simp_all

fun carries :: "metric_data \<Rightarrow> SystemMetrics \<Rightarrow> bool" where
  "carries (DataSystem v) m = (sm_System m = v)"
| "carries (DataCPU v) m = (sm_CPU m = v)"
| "carries (DataMemory v) m = (sm_Memory m = v)"
| "carries (DataDisk v) m = (sm_Disk m = v)"
| "carries (DataContainer v) m = (sm_Containers m = v)"
| "carries (DataNetwork v) m = (sm_Network m = v)"
| "carries (DataProcess v) m = (sm_Processes m = v)"
| "carries (DataService v) m = (sm_Services m = v)"

text \<open>The zero answer of a category, which a field keeps when its collector fails.\<close>

definition zero_data :: "string \<Rightarrow> metric_data" where
  "zero_data name =
     (if name = ''system'' then DataSystem zero_SystemInfo
      else if name = ''cpu'' then DataCPU zero_CPUMetrics
      else if name = ''memory'' then DataMemory zero_MemoryMetrics
      else if name = ''disk'' then DataDisk None
      else if name = ''container'' then DataContainer None
      else if name = ''network'' then DataNetwork None
      else if name = ''process'' then DataProcess None
      else DataService None)"

lemma carries_set: "carries d (set_metric d m)"
  by (cases d) simp_all

lemma carries_other:
  "data_category d \<noteq> data_category e \<Longrightarrow> carries d (set_metric e m) = carries d m"
  by (cases d; cases e) simp_all

lemma zero_data_category: "name \<in> set categories \<Longrightarrow> data_category (zero_data name) = name"
  by (auto simp: categories_def zero_data_def)

lemma zero_data_carried:
  "carries (zero_data name) (zero_SystemMetrics\<lparr>sm_USER_ID := u, sm_Key := k, sm_ExternalIP := ip, sm_Timestamp := t\<rparr>)"
  by (simp add: zero_data_def zero_SystemMetrics_def)

definition result_ok :: "collector_result \<Rightarrow> bool" where
  "result_ok r \<longleftrightarrow> (\<forall>d. snd r = Inr d \<longrightarrow> data_category d = fst r)"

lemma fold_apply_other:
  "list_all result_ok rs \<Longrightarrow> data_category d \<notin> fst ` set rs \<Longrightarrow>
   carries d (fold apply_result rs m) = carries d m"
proof (induction rs arbitrary: m)
  case (Cons r rs)
  then have "carries d (apply_result r m) = carries d m"
    by (auto simp: apply_result_def result_ok_def split: sum.split intro!: carries_other)
  with Cons show ?case by simp
qed simp

lemma fold_apply_ids:
  "sm_USER_ID (fold apply_result rs m) = sm_USER_ID m \<and> sm_Key (fold apply_result rs m) = sm_Key m
   \<and> sm_ExternalIP (fold apply_result rs m) = sm_ExternalIP m
   \<and> sm_Timestamp (fold apply_result rs m) = sm_Timestamp m"
proof (induction rs arbitrary: m)
  case (Cons r rs)
  have "sm_USER_ID (set_metric d m) = sm_USER_ID m \<and> sm_Key (set_metric d m) = sm_Key m
    \<and> sm_ExternalIP (set_metric d m) = sm_ExternalIP m \<and> sm_Timestamp (set_metric d m) = sm_Timestamp m" for d m
    by (cases d) simp_all
  with Cons show ?case by (simp add: apply_result_def split: sum.split)
qed simp

lemma fold_apply_carries:
  assumes "list_all result_ok rs" "distinct (map fst rs)" "(name, r) \<in> set rs" "name \<in> set categories"
    and "carries (zero_data name) m"
  shows "carries (case r of Inl err \<Rightarrow> zero_data name | Inr d \<Rightarrow> d) (fold apply_result rs m)"
proof -
  obtain xs ys where rs: "rs = xs @ (name, r) # ys" using split_list [OF assms(3)] by blast
  have n: "name \<notin> fst ` set xs" "name \<notin> fst ` set ys" using assms(2) unfolding rs by auto
  have ok: "list_all result_ok xs" "list_all result_ok ys" "result_ok (name, r)" using assms(1) unfolding rs by auto
  let ?m = "fold apply_result xs m"
  have z: "carries (zero_data name) ?m"
    using fold_apply_other [OF ok(1), of "zero_data name" m] n(1) zero_data_category [OF assms(4)] assms(5) by simp
  let ?d = "case r of Inl err \<Rightarrow> zero_data name | Inr d \<Rightarrow> d"
  have "carries ?d (apply_result (name, r) ?m)" using z by (cases r) (simp_all add: apply_result_def carries_set)
  moreover have "data_category ?d = name"
    using ok(3) zero_data_category [OF assms(4)] by (cases r) (simp_all add: result_ok_def)
  ultimately show ?thesis using fold_apply_other [OF ok(2), of ?d] n(2) by (simp add: rs)
qed

lemma fold_apply_order:
  assumes "list_all result_ok rs" "distinct (map fst rs)" "mset rs' = mset rs"
  shows "fold apply_result rs' m = fold apply_result rs m"
proof -
  have "fold apply_result rs' = fold apply_result rs"
  proof (rule fold_multiset_equiv)
    fix x y assume xy: "x \<in> set rs'" "y \<in> set rs'"
    have ok: "result_ok x" "result_ok y"
      using xy assms(1) mset_eq_setD [OF assms(3)] by (auto simp: list_all_iff)
    show "apply_result x \<circ> apply_result y = apply_result y \<circ> apply_result x"
    proof (cases "x = y")
      case False
      have "inj_on fst (set rs)" using assms(2) by (simp add: distinct_map)
      then have "fst x \<noteq> fst y" using False xy mset_eq_setD [OF assms(3)] by (auto simp: inj_on_def)
      then show ?thesis using ok
        by (auto simp: apply_result_def result_ok_def fun_eq_iff set_metric_commute split: sum.split)
    qed simp
  qed (rule assms(3))
  then show ?thesis by simp
qed

lemma collect_goroutines_order [simp]:
  "collect_goroutines (env\<lparr>ae_order := f\<rparr>) cs = collect_goroutines env cs"
proof (induction cs)
  case (Cons nc cs)
  have "Collector_Collect (env\<lparr>ae_order := f\<rparr>) c = Collector_Collect env c" for c by (cases c) simp_all
  with Cons show ?case by (cases nc) simp
qed simp

lemma master_results:
  assumes "master_inv mc" "collect_goroutines env (mc_collectors mc) = Return (rs, cs)"
  shows "map fst rs = categories \<and> list_all result_ok rs \<and> distinct (map fst rs)
    \<and> master_inv (mc\<lparr>mc_collectors := cs\<rparr>)"
  using collect_goroutines_categories [OF assms(2)] assms(1)
  by (auto simp: master_inv_def list_all_iff result_ok_def categories_def)

text \<open>A queue keeps the last of its items and those pushed.\<close>

definition newest :: "nat \<Rightarrow> 'a list \<Rightarrow> 'a list" where
  "newest n xs = drop (length xs - n) xs"

lemma newest_short: "length xs \<le> n \<Longrightarrow> newest n xs = xs"
  by (simp add: newest_def)

lemma newest_append: "newest n (newest n xs @ ys) = newest n (xs @ ys)"
  by (cases "length xs \<le> n") (auto simp: newest_def add.commute)

lemma Push_newest:
  assumes "length (q_items q) \<le> 100" "q_size q = 100"
  shows "Push x q = Return (q\<lparr>q_items := newest 100 (q_items q @ [x])\<rparr>)"
proof (cases "length (q_items q) = 100")
  case True
  then show ?thesis using assms(2) by (cases "q_items q") (simp_all add: Push_def go_slice_from_def newest_def)
next
  case False
  then show ?thesis using assms by (simp add: Push_def newest_def)
qed

lemma master_tick_result:
  assumes "master_inv mc" "master_tick env mc = Return mc'"
  shows "\<exists>m. q_items (mc_metricsQueue mc') = newest 100 (q_items (mc_metricsQueue mc) @ [m])
    \<and> sm_USER_ID m = mc_userKey mc \<and> sm_Key m = mc_localKey mc \<and> sm_ExternalIP m = mc_externalIP mc
    \<and> master_inv mc' \<and> mc_userKey mc' = mc_userKey mc \<and> mc_localKey mc' = mc_localKey mc
    \<and> mc_externalIP mc' = mc_externalIP mc"
proof -
  have q: "length (q_items (mc_metricsQueue mc)) \<le> 100" "q_size (mc_metricsQueue mc) = 100"
    using assms(1) by (simp_all add: master_inv_def)
  let ?m = "\<lambda>rs. fold apply_result (ae_order env rs)
    (zero_SystemMetrics\<lparr>sm_USER_ID := mc_userKey mc, sm_Key := mc_localKey mc, sm_ExternalIP := mc_externalIP mc,
       sm_Timestamp := ae_now env\<rparr>)"
  obtain rs cs where g: "collect_goroutines env (mc_collectors mc) = Return (rs, cs)"
    and mc': "mc' = mc\<lparr>mc_collectors := cs, mc_metricsQueue :=
      (mc_metricsQueue mc)\<lparr>q_items := newest 100 (q_items (mc_metricsQueue mc) @ [?m rs])\<rparr>\<rparr>"
    using assms(2) by (auto simp: master_tick_def CollectAll_def Let_def Push_newest [OF q])
  have "master_inv mc'" using master_results [OF assms(1) g] by (auto simp: mc' master_inv_def newest_def)
  then show ?thesis using fold_apply_ids [of "ae_order env rs"] by (intro exI [of _ "?m rs"]) (simp add: mc')
qed

definition sample_error :: go_error where "sample_error = ErrExt ''no answer''"

definition sample_collect_env :: collect_env where
  "sample_collect_env = \<lparr>ae_now = 0,
     ae_system = (sample_system_env None)\<lparr>ye_static_host := Inl sample_error\<rparr>,
     ae_cpu = (sample_cpu_env [])\<lparr>cu_info := Inl sample_error\<rparr>,
     ae_memory = (sample_memory_env max_duration)\<lparr>me_static_vm := Inl sample_error\<rparr>,
     ae_disk = (sample_disk_env max_duration)\<lparr>de_partitions := Inl sample_error\<rparr>,
     ae_container = sample_container_env [],
     ae_process = (sample_process_env 0 (Fin 1))\<lparr>pe_processes := Inl sample_error\<rparr>,
     ae_service = sample_service_env None, ae_order = rev\<rparr>"

definition sample_master :: MasterCollector where
  "sample_master =
     (case NewMasterCollector (Some sample_error) sample_network_env Map.empty DefaultConfig of
        Return mc \<Rightarrow> mc
      | Panic p \<Rightarrow> undefined | Diverge \<Rightarrow> undefined)"

lemma sample_master_inv: "master_inv sample_master"
  using NewMasterCollector_inv [of "Some sample_error" sample_network_env Map.empty DefaultConfig]
  by (auto simp: sample_master_def)

lemma sample_answers:
  "\<exists>s. system_Collect (ae_system sample_collect_env) (fst (NewSystemCollector cy)) = Return (Inl sample_error, s)"
  "\<exists>s. cpu_Collect (ae_cpu sample_collect_env) c = Return (Inl sample_error, s)"
  "\<exists>s. memory_Collect (ae_memory sample_collect_env) (fst (NewMemoryCollector cm)) = Return (Inl sample_error, s)"
  "\<exists>s. disk_Collect (ae_disk sample_collect_env) (fst (NewDiskCollector cd), devices) = Return (Inl sample_error, s)"
  "\<exists>s. process_Collect (ae_process sample_collect_env) (fst (NewProcessCollector cp)) = Return (Inl sample_error, s)"
  "\<exists>s x. service_Collect (ae_service sample_collect_env) (fst (NewServiceCollector cv)) = Return (x, s)"
  "container_Collect ec (fst (NewContainerCollector (Some e) cc)) = Return (Inr (Some []), fst (NewContainerCollector (Some e) cc))"
  subgoal
    by (simp add: sample_collect_env_def sample_system_env_def system_Collect_def NewSystemCollector_def
        system_startBackgroundCollection_def system_isCacheValid_def time_sub_zero_time collectSystemInfo_def
        system_collectStaticInfo_def)
  subgoal by (simp add: sample_collect_env_def sample_cpu_env_def cpu_Collect_def Let_def)
  subgoal
    by (simp add: sample_collect_env_def sample_memory_env_def memory_Collect_def NewMemoryCollector_def
        memory_startBackgroundCollection_def memory_isCacheValid_def collectMemoryInfo_def memory_collectStaticOnce_def
        memory_collectStaticInfo_def)
  subgoal
    by (simp add: sample_collect_env_def sample_disk_env_def disk_Collect_def NewDiskCollector_def
        disk_startBackgroundCollection_def disk_isCacheValid_def slice_len_def collectDiskMetrics_def)
  subgoal
    by (simp add: sample_collect_env_def sample_process_env_def process_Collect_def NewProcessCollector_def
        process_startBackgroundCollection_def process_isCacheValid_def slice_len_def collectProcessMetrics_def)
  subgoal
    by (simp add: sample_collect_env_def sample_service_env_def service_Collect_def NewServiceCollector_def
        service_startBackgroundCollection_def service_isCacheValid_def slice_len_def collectServiceMetrics_def
        getDbusConnection_def)
  subgoal by (simp add: container_Collect_def NewContainerCollector_def Let_def)
  done

lemma sample_master_collects:
  "\<exists>rs cs. collect_goroutines sample_collect_env (mc_collectors sample_master) = Return (rs, cs)
     \<and> (''system'', Inl sample_error) \<in> set rs \<and> (''container'', Inr (DataContainer (Some []))) \<in> set rs"
proof -
  let ?s = "cfg_Collectors DefaultConfig"
  obtain s1 s2 s3 s4 s5 s6 x6 where a:
    "system_Collect (ae_system sample_collect_env) (fst (NewSystemCollector (cs_System ?s))) = Return (Inl sample_error, s1)"
    "cpu_Collect (ae_cpu sample_collect_env) (fst (NewCPUCollector (cs_CPU ?s))) = Return (Inl sample_error, s2)"
    "memory_Collect (ae_memory sample_collect_env) (fst (NewMemoryCollector (cs_Memory ?s))) = Return (Inl sample_error, s3)"
    "disk_Collect (ae_disk sample_collect_env) (fst (NewDiskCollector (cs_Disk ?s)), Map.empty) = Return (Inl sample_error, s4)"
    "process_Collect (ae_process sample_collect_env) (fst (NewProcessCollector (cs_Process ?s))) = Return (Inl sample_error, s5)"
    "service_Collect (ae_service sample_collect_env) (fst (NewServiceCollector (cs_Service ?s))) = Return (x6, s6)"
    using sample_answers by meson
  show ?thesis
    by (simp add: sample_master_def NewMasterCollector_def NewQueue_def AddCollector_def Let_def as_Collector_def
        a sample_answers(7) network_Collect_def)
qed

section \<open>Properties\<close>

text \<open>
  C3. The metric that \<open>CollectAll\<close> assembles does not depend on the order in which the eight
  collectors finish.
\<close>

theorem collect_all_order_independent:
  assumes "master_inv mc" "\<And>rs. mset (ae_order env rs) = mset rs" "\<And>rs. mset (order' rs) = mset rs"
  shows "CollectAll (env\<lparr>ae_order := order'\<rparr>) userID key externalIP mc = CollectAll env userID key externalIP mc"
proof (cases "collect_goroutines env (mc_collectors mc)")
  case (Return x)
  obtain rs cs where x: "x = (rs, cs)" by (cases x)
  have ok: "list_all result_ok rs" "distinct (map fst rs)"
    using master_results [OF assms(1) Return [unfolded x]] by blast+
  have "fold apply_result (order' rs) m = fold apply_result (ae_order env rs) m" for m
    using fold_apply_order [OF ok assms(2)] fold_apply_order [OF ok assms(3)] by metis
  then show ?thesis by (simp add: CollectAll_def Return x Let_def)
qed (simp_all add: CollectAll_def)

lemma collect_all_order_independent_witness:
  "CollectAll (sample_collect_env\<lparr>ae_order := id\<rparr>) [] [] [] sample_master = CollectAll sample_collect_env [] [] [] sample_master
   \<and> (\<exists>r. CollectAll sample_collect_env [] [] [] sample_master = Return r)"
proof
  show "CollectAll (sample_collect_env\<lparr>ae_order := id\<rparr>) [] [] [] sample_master
      = CollectAll sample_collect_env [] [] [] sample_master"
    by (rule collect_all_order_independent [OF sample_master_inv]) (simp_all add: sample_collect_env_def)
  show "\<exists>r. CollectAll sample_collect_env [] [] [] sample_master = Return r"
    using sample_master_collects by (auto simp: CollectAll_def Let_def)
qed

text \<open>
  C2. When no collector panics, \<open>CollectAll\<close> succeeds whatever the collectors answered: the metric
  carries the caller's identification, the data of every collector that succeeded under its own
  category, and the zero value for every collector that failed; no failure touches another category.
\<close>

theorem collect_all_partial:
  assumes "master_inv mc" "\<And>rs. mset (ae_order env rs) = mset rs"
    and "collect_goroutines env (mc_collectors mc) = Return (rs, cs)"
  shows "\<exists>m. CollectAll env userID key externalIP mc = Return (Inr m, mc\<lparr>mc_collectors := cs\<rparr>)
    \<and> master_inv (mc\<lparr>mc_collectors := cs\<rparr>)
    \<and> sm_USER_ID m = userID \<and> sm_Key m = key \<and> sm_ExternalIP m = externalIP \<and> sm_Timestamp m = ae_now env
    \<and> map fst rs = categories
    \<and> list_all (\<lambda>(name, r). carries (case r of Inl err \<Rightarrow> zero_data name | Inr d \<Rightarrow> d) m) rs"
proof -
  note r = master_results [OF assms(1,3)]
  let ?z = "zero_SystemMetrics\<lparr>sm_USER_ID := userID, sm_Key := key, sm_ExternalIP := externalIP, sm_Timestamp := ae_now env\<rparr>"
  let ?m = "fold apply_result (ae_order env rs) ?z"
  have ok: "list_all result_ok rs" "distinct (map fst rs)" using r by blast+
  have m: "?m = fold apply_result rs ?z" by (rule fold_apply_order [OF ok assms(2)])
  have "carries (case x of Inl err \<Rightarrow> zero_data name | Inr d \<Rightarrow> d) ?m" if "(name, x) \<in> set rs" for name x
    unfolding m
  proof (rule fold_apply_carries [OF ok that _ zero_data_carried])
    show "name \<in> set categories" using r that by (metis fst_conv in_set_zipE list.set_map image_eqI)
  qed
  then have "list_all (\<lambda>(name, x). carries (case x of Inl err \<Rightarrow> zero_data name | Inr d \<Rightarrow> d) ?m) rs"
    by (auto simp: list_all_iff)
  then show ?thesis using r assms(3) fold_apply_ids [of "ae_order env rs" ?z]
    by (intro exI [of _ ?m]) (simp add: CollectAll_def Let_def)
qed

lemma collect_all_partial_witness:
  "\<exists>m mc'. CollectAll sample_collect_env ''u'' ''k'' ''1.2.3.4'' sample_master = Return (Inr m, mc')
     \<and> sm_USER_ID m = ''u'' \<and> sm_System m = zero_SystemInfo \<and> sm_Containers m = Some []"
proof -
  obtain rs cs where g: "collect_goroutines sample_collect_env (mc_collectors sample_master) = Return (rs, cs)"
    and m: "(''system'', Inl sample_error) \<in> set rs" "(''container'', Inr (DataContainer (Some []))) \<in> set rs"
    using sample_master_collects by blast
  have o: "\<And>rs. mset (ae_order sample_collect_env rs) = mset rs" by (simp add: sample_collect_env_def)
  from collect_all_partial [OF sample_master_inv o g] m show ?thesis
    by (fastforce simp: list_all_iff zero_data_def)
qed

text \<open>
  C16. The collecting goroutine keeps the newest hundred metrics: after any number of ticks that did
  not panic, with nothing popped meanwhile, the queue holds the last hundred of what it held and
  one metric per tick, each under the configured keys.
\<close>

theorem master_keeps_newest:
  assumes "master_inv mc" "Start interval envs mc = Return mc'"
  shows "0 < dur_seconds interval \<and> master_inv mc' \<and>
    (\<exists>ms. length ms = length envs
      \<and> list_all (\<lambda>m. sm_USER_ID m = mc_userKey mc \<and> sm_Key m = mc_localKey mc \<and> sm_ExternalIP m = mc_externalIP mc) ms
      \<and> q_items (GetDataQueue mc') = newest 100 (q_items (GetDataQueue mc) @ ms))"
proof -
  have "master_ticks envs mc = Return mc'" and i: "0 < dur_seconds interval"
    using assms(2) by (auto simp: Start_def new_ticker_def split: if_splits)
  from this(1) assms(1) have "master_inv mc' \<and> (\<exists>ms. length ms = length envs
      \<and> list_all (\<lambda>m. sm_USER_ID m = mc_userKey mc \<and> sm_Key m = mc_localKey mc \<and> sm_ExternalIP m = mc_externalIP mc) ms
      \<and> q_items (mc_metricsQueue mc') = newest 100 (q_items (mc_metricsQueue mc) @ ms))"
  proof (induction envs arbitrary: mc)
    case Nil
    then show ?case by (simp add: master_inv_def newest_short)
  next
    case (Cons env envs)
    then obtain mc1 where t: "master_tick env mc = Return mc1" "master_ticks envs mc1 = Return mc'" by auto
    from master_tick_result [OF Cons.prems(2) t(1)] obtain m where
      m: "q_items (mc_metricsQueue mc1) = newest 100 (q_items (mc_metricsQueue mc) @ [m])"
      "sm_USER_ID m = mc_userKey mc" "sm_Key m = mc_localKey mc" "sm_ExternalIP m = mc_externalIP mc"
      "master_inv mc1" "mc_userKey mc1 = mc_userKey mc" "mc_localKey mc1 = mc_localKey mc"
      "mc_externalIP mc1 = mc_externalIP mc" by blast
    from Cons.IH [OF t(2) m(5)] obtain ms where ms: "master_inv mc'" "length ms = length envs"
      "list_all (\<lambda>m. sm_USER_ID m = mc_userKey mc \<and> sm_Key m = mc_localKey mc \<and> sm_ExternalIP m = mc_externalIP mc) ms"
      "q_items (mc_metricsQueue mc') = newest 100 (q_items (mc_metricsQueue mc1) @ ms)"
      unfolding m(6-8) by blast
    have "q_items (mc_metricsQueue mc') = newest 100 (q_items (mc_metricsQueue mc) @ m # ms)"
      using ms(4) newest_append [of 100 "q_items (mc_metricsQueue mc) @ [m]" ms] by (simp add: m(1))
    then show ?case using ms(1-3) m(2-4) by (intro conjI exI [of _ "m # ms"]) simp_all
  qed
  with i show ?thesis by (simp add: GetDataQueue_def)
qed

lemma master_keeps_newest_witness:
  "\<exists>mc' m. Start 2 [sample_collect_env] sample_master = Return mc' \<and> q_items (GetDataQueue mc') = [m]"
proof -
  have q: "q_items (mc_metricsQueue sample_master) = []" "q_size (mc_metricsQueue sample_master) = 100"
    by (simp_all add: sample_master_def NewMasterCollector_def NewQueue_def AddCollector_def Let_def)
  obtain mc' where s: "Start 2 [sample_collect_env] sample_master = Return mc'"
    using sample_master_collects q
    by (auto simp: Start_def new_ticker_def dur_seconds_def int64_range_def master_tick_def CollectAll_def Let_def
        Push_newest)
  from master_keeps_newest [OF sample_master_inv s] obtain ms where "length ms = 1"
    "q_items (GetDataQueue mc') = newest 100 ms"
    by (auto simp: GetDataQueue_def q)
  then show ?thesis using s by (cases ms) (auto simp: newest_def)
qed

section \<open>Other facts\<close>

lemma Start_panics: "dur_seconds interval \<le> 0 \<Longrightarrow> Start interval envs mc = Panic NonPositiveTicker"
  by (simp add: Start_def new_ticker_def)

end
