(* ===== verification/Collector_Background.thy ===== *)
theory Collector_Background
  imports Master_Collector
begin

text \<open>
  The background goroutines of the eight collectors (\<open>startBackgroundCollection\<close> of
  \<open>internal/collectors/*.go\<close>), each with the point it has reached: the first collection and the loops
  that sleep, the creation of a ticker, the loop over the ticker. What a refresh does to its collector
  is one step.
\<close>

section \<open>Refreshes\<close>

text \<open>One turn of the loop of a collector's goroutine; without a Docker client there is none.\<close>

fun Collector_refresh :: "collect_env \<Rightarrow> network_env \<Rightarrow> Collector \<Rightarrow> Collector outcome" where
  "Collector_refresh env net (CollSystem c) = obind (system_background_turn (ae_system env) c) (\<lambda>c. Return (CollSystem c))"
| "Collector_refresh env net (CollCPU c) = Return (CollCPU (cpu_background_turn (ae_cpu env) c))"
| "Collector_refresh env net (CollMemory c) = obind (memory_background_turn (ae_memory env) c) (\<lambda>c. Return (CollMemory c))"
| "Collector_refresh env net (CollDisk s) = obind (disk_collectAndCache (ae_disk env) s) (\<lambda>s. Return (CollDisk s))"
| "Collector_refresh env net (CollContainer c) =
     (if kk_backgroundRunning c
      then obind (container_collectAndCache (ae_container env) c) (\<lambda>c. Return (CollContainer c))
      else Return (CollContainer c))"
| "Collector_refresh env net (CollNetwork c) = Return (CollNetwork (network_collectAndCache net c))"
| "Collector_refresh env net (CollProcess c) = obind (process_collectAndCache (ae_process env) c) (\<lambda>c. Return (CollProcess c))"
| "Collector_refresh env net (CollService c) = obind (service_collectAndCache (ae_service env) c) (\<lambda>c. Return (CollService c))"

fun refresh_named ::
  "collect_env \<Rightarrow> network_env \<Rightarrow> string \<Rightarrow> (string \<times> Collector) list \<Rightarrow> (string \<times> Collector) list outcome" where
  "refresh_named env net name [] = Return []"
| "refresh_named env net name ((n, c) # cs) =
     (if n = name then obind (Collector_refresh env net c) (\<lambda>c'. Return ((n, c') # cs))
      else obind (refresh_named env net name cs) (\<lambda>cs'. Return ((n, c) # cs')))"

section \<open>The goroutines\<close>

text \<open>
  About to collect, for the first time or after a sleep; about to create the ticker; in the loop over
  its ticks; not running.
\<close>

datatype background_pc = BgCollect | BgTicker | BgTicking | BgEnded

fun background_start :: "Collector \<Rightarrow> background_pc" where
  "background_start (CollNetwork c) = (if nk_backgroundRunning c then BgTicker else BgEnded)"
| "background_start (CollContainer c) = (if kk_backgroundRunning c then BgCollect else BgEnded)"
| "background_start (CollSystem c) = (if yk_backgroundRunning c then BgCollect else BgEnded)"
| "background_start (CollCPU c) = (if ck_backgroundRunning c then BgCollect else BgEnded)"
| "background_start (CollMemory c) = (if mk_backgroundRunning c then BgCollect else BgEnded)"
| "background_start (CollDisk s) = (if dk_backgroundRunning (fst s) then BgCollect else BgEnded)"
| "background_start (CollProcess c) = (if pk_backgroundRunning c then BgCollect else BgEnded)"
| "background_start (CollService c) = (if vk_backgroundRunning c then BgCollect else BgEnded)"

text \<open>The system, CPU and memory collectors sleep between collections; the others create a ticker.\<close>

fun background_next :: "Collector \<Rightarrow> background_pc" where
  "background_next (CollSystem c) = BgCollect"
| "background_next (CollCPU c) = BgCollect"
| "background_next (CollMemory c) = BgCollect"
| "background_next _ = BgTicker"

fun background_ticker :: "bool \<Rightarrow> Collector \<Rightarrow> background_pc outcome option" where
  "background_ticker ticker_panic_is_error (CollDisk s) =
     Some (obind (new_ticker (dk_updateFrequency (fst s))) (\<lambda>_. Return BgTicking))"
| "background_ticker ticker_panic_is_error (CollContainer c) =
     Some (obind (new_ticker (kk_updateFrequency c)) (\<lambda>_. Return BgTicking))"
| "background_ticker ticker_panic_is_error (CollNetwork c) =
     Some (obind (network_background ticker_panic_is_error c)
       (\<lambda>g. Return (case g of Ticking \<Rightarrow> BgTicking | Ended \<Rightarrow> BgEnded)))"
| "background_ticker ticker_panic_is_error (CollProcess c) =
     Some (obind (new_ticker (pk_updateFrequency c)) (\<lambda>_. Return BgTicking))"
| "background_ticker ticker_panic_is_error (CollService c) =
     Some (obind (new_ticker (vk_updateFrequency c)) (\<lambda>_. Return BgTicking))"
| "background_ticker ticker_panic_is_error _ = None"

fun background_step ::
  "collect_env \<Rightarrow> network_env \<Rightarrow> bool \<Rightarrow> background_pc \<Rightarrow> Collector
   \<Rightarrow> (background_pc \<times> Collector) outcome option" where
  "background_step env net err BgCollect c =
     Some (obind (Collector_refresh env net c) (\<lambda>c'. Return (background_next c', c')))"
| "background_step env net err BgTicker c =
     map_option (\<lambda>r. obind r (\<lambda>pc. Return (pc, c))) (background_ticker err c)"
| "background_step env net err BgTicking c =
     Some (obind (Collector_refresh env net c) (\<lambda>c'. Return (BgTicking, c')))"
| "background_step env net err BgEnded c = None"

section \<open>Lemmas\<close>

text \<open>
  Where a panic can come from: a collection panics for the CPU and the container collector only, a
  refresh for the container collector only, and the ticker where its period is not positive.
\<close>

lemma obind_Return_no_Panic: "m \<noteq> Panic p \<Longrightarrow> obind m (\<lambda>x. Return (f x)) \<noteq> Panic p"
  by (cases m) auto

lemma gather_no_Panic:
  "collectSystemInfo ey cy \<noteq> Panic p" "collectMemoryInfo em cm \<noteq> Panic p" "collectDiskMetrics ed sd \<noteq> Panic p"
  "collectProcessMetrics ep cp \<noteq> Panic p" "collectServiceMetrics ev cv \<noteq> Panic p"
  subgoal by (simp add: collectSystemInfo_def split: sum.split)
  subgoal by (simp add: collectMemoryInfo_def split: prod.split option.split sum.split)
  subgoal by (simp add: collectDiskMetrics_def outcome_of_option_def Let_def split: prod.split option.split sum.split)
  subgoal by (simp add: collectProcessMetrics_def Let_def split: sum.split)
  subgoal by (simp add: collectServiceMetrics_def split: prod.split sum.split)
  done

lemma Collect_no_Panic:
  "system_Collect ey cy \<noteq> Panic p" "memory_Collect em cm \<noteq> Panic p" "disk_Collect ed sd \<noteq> Panic p"
  "process_Collect ep cp \<noteq> Panic p" "service_Collect ev cv \<noteq> Panic p"
  using gather_no_Panic
  by (auto simp: system_Collect_def memory_Collect_def disk_Collect_def process_Collect_def service_Collect_def
      obind_eq_Panic)

lemma Collector_Collect_panic:
  assumes "Collector_Collect env c = Panic p" shows "category c \<in> {''cpu'', ''container''}"
  using assms Collect_no_Panic by (cases c) (auto simp: as_Collector_def obind_eq_Panic network_Collect_def)

lemma refresh_no_Panic:
  "system_background_turn ey cy \<noteq> Panic p" "memory_background_turn em cm \<noteq> Panic p"
  "disk_collectAndCache ed sd \<noteq> Panic p" "process_collectAndCache ep cp \<noteq> Panic p"
  "service_collectAndCache ev cv \<noteq> Panic p"
  using gather_no_Panic
  by (auto simp: system_background_turn_def memory_background_turn_def disk_collectAndCache_def
      process_collectAndCache_def service_collectAndCache_def obind_eq_Panic)

lemma Collector_refresh_panic:
  assumes "Collector_refresh env net c = Panic p" shows "category c = ''container''"
  using assms refresh_no_Panic by (cases c) (auto simp: obind_eq_Panic)

lemma Collector_refresh_category: "Collector_refresh env net c = Return c' \<Longrightarrow> category c' = category c"
  by (cases c) (auto split: if_splits)

lemma background_ticker_panic:
  assumes "background_ticker err c = Some (Panic p)"
  shows "p = NonPositiveTicker \<and> category c \<in> {''disk'', ''container'', ''network'', ''process'', ''service''}"
  using assms
  by (cases c) (auto simp: obind_eq_Panic new_ticker_def network_background_def split: if_splits)

lemma background_step_category:
  "background_step env net err pc c = Some (Return (pc', c')) \<Longrightarrow> category c' = category c"
  by (cases pc) (auto dest: Collector_refresh_category split: option.splits)

lemma background_step_panic:
  assumes "background_step env net err pc c = Some (Panic p)"
  shows "pc = BgTicker \<and> p = NonPositiveTicker \<and> category c \<in> {''disk'', ''container'', ''network'', ''process'', ''service''}
    \<or> pc \<noteq> BgTicker \<and> category c = ''container'' \<and> Collector_refresh env net c = Panic p"
  using assms
  by (cases pc) (auto simp: obind_eq_Panic dest: Collector_refresh_panic background_ticker_panic)

text \<open>Putting a collector back under its name.\<close>

lemma map_of_put:
  "map_of cs name = Some c \<Longrightarrow> category c' = category c \<Longrightarrow>
   map fst (put_entry name c' cs) = map fst cs
   \<and> (list_all (\<lambda>(n, c). category c = n) cs \<longrightarrow> list_all (\<lambda>(n, c). category c = n) (put_entry name c' cs))"
  by (induction cs) (auto split: if_splits)

lemma collect_goroutines_panic:
  "collect_goroutines env cs = Panic p \<Longrightarrow> \<exists>c \<in> snd ` set cs. Collector_Collect env c = Panic p"
  by (induction cs) (auto simp: obind_eq_Panic)

end
