(* ===== verification/Data_Sender.thy ===== *)
theory Data_Sender
  imports Models Json_Decode Metrics_Queue
begin

text \<open>
  The data sender of \<open>internal/network/client/data_sender.go\<close>: the operations of the struct, the
  bodies of its two goroutines cut at their accesses to shared state, and the handling of a message.
  The queue is the master collector's own, so it is an argument here and not a field. What the
  WebSocket library answers is an argument too. The theory \<open>System_Client\<close> runs the goroutines
  against each other.
\<close>

section \<open>State and operations\<close>

record ServerInfo =
  srv_Address :: string
  srv_Port :: int64

text \<open>
  \<open>conn\<close> is nil or not; the two channels carry no values and are open or closed.
\<close>

record DataSender =
  ds_serverInfo :: ServerInfo
  ds_userID :: string
  ds_conn :: bool
  ds_isConnected :: bool
  ds_running :: bool
  ds_senderDone :: bool
  ds_clientDone :: bool

definition NewDataSender :: "ServerInfo \<Rightarrow> string \<Rightarrow> DataSender" where
  "NewDataSender serverInfo userID =
     \<lparr>ds_serverInfo = serverInfo, ds_userID = userID, ds_conn = False, ds_isConnected = False,
      ds_running = False, ds_senderDone = False, ds_clientDone = False\<rparr>"

definition go_close :: "bool \<Rightarrow> bool outcome" where
  "go_close ch = (if ch then Panic CloseOfClosedChannel else Return True)"

definition dial_host :: "ServerInfo \<Rightarrow> string" where
  "dial_host s = srv_Address s @ '':'' @ format_int (srv_Port s)"

text \<open>The flag tells whether the receiving goroutine was started; \<open>dial\<close> answers an error or a connection.\<close>

definition sender_Connect :: "(string \<Rightarrow> string \<Rightarrow> go_error option) \<Rightarrow> DataSender \<Rightarrow> bool \<times> DataSender" where
  "sender_Connect dial ds =
     (case dial (dial_host (ds_serverInfo ds)) ''/ws'' of
        Some err \<Rightarrow> (False, ds)
      | None \<Rightarrow> (True, ds\<lparr>ds_conn := True, ds_isConnected := True\<rparr>))"

text \<open>
  The body runs under the mutex, which the receiving goroutine does not take, so what it does is cut
  at its accesses: after the test of the flag it closes the channel, closes the connection, and clears
  the flag. The library's answers to the two calls on the connection are ignored by the code.
\<close>

definition disconnect_signal :: "DataSender \<Rightarrow> DataSender outcome" where
  "disconnect_signal ds = obind (go_close (ds_clientDone ds)) (\<lambda>ch. Return (ds\<lparr>ds_clientDone := ch\<rparr>))"

definition disconnect_close :: "DataSender \<Rightarrow> DataSender" where
  "disconnect_close ds = (if ds_conn ds then ds\<lparr>ds_conn := False\<rparr> else ds)"

definition disconnect_store :: "DataSender \<Rightarrow> DataSender" where
  "disconnect_store ds = ds\<lparr>ds_isConnected := False\<rparr>"

definition sender_Disconnect :: "DataSender \<Rightarrow> DataSender outcome" where
  "sender_Disconnect ds =
     (if ds_isConnected ds then
        obind (disconnect_signal ds) (\<lambda>ds. Return (disconnect_store (disconnect_close ds)))
      else Return ds)"

section \<open>The sending goroutine\<close>

text \<open>
  Before the creation of the ticker; in the select; holding a popped metric; about to take the mutex
  and write; returned.
\<close>

datatype sender_pc = SendStart int64 | SendSelect | SendPopped SystemMetrics | SendWrite json | SendEnded

text \<open>The goroutine that is started, if one is.\<close>

definition StartSending :: "int64 \<Rightarrow> DataSender \<Rightarrow> sender_pc option \<times> DataSender" where
  "StartSending intervalSeconds ds =
     (if ds_running ds then (None, ds) else (Some (SendStart intervalSeconds), ds\<lparr>ds_running := True\<rparr>))"

definition StopSending :: "DataSender \<Rightarrow> DataSender outcome" where
  "StopSending ds =
     (if \<not> ds_running ds then Return ds
      else obind (go_close (ds_senderDone ds)) (\<lambda>ch.
             Return (ds\<lparr>ds_running := False, ds_senderDone := ch\<rparr>)))"

definition sender_IsConnected :: "DataSender \<Rightarrow> bool" where
  "sender_IsConnected ds = ds_isConnected ds"

text \<open>\<open>sendLoop\<close> up to its loop.\<close>

definition sendLoop_start :: "int64 \<Rightarrow> sender_pc outcome" where
  "sendLoop_start intervalSeconds = obind (new_ticker (dur_seconds intervalSeconds)) (\<lambda>_. Return SendSelect)"

text \<open>The clause of a tick: take the next metric from the queue.\<close>

definition sendLoop_tick :: "SystemMetrics ThreadSafeQueue \<Rightarrow> sender_pc \<times> SystemMetrics ThreadSafeQueue" where
  "sendLoop_tick q =
     (case TryPop q of
        (None, q') \<Rightarrow> (SendSelect, q')
      | (Some m, q') \<Rightarrow> (SendPopped m, q'))"

text \<open>\<open>sendMetrics\<close> up to the lock, and under it; \<open>write\<close> is the library's answer.\<close>

definition sendMetrics_check :: "DataSender \<Rightarrow> SystemMetrics \<Rightarrow> sender_pc" where
  "sendMetrics_check ds metrics =
     (if \<not> ds_isConnected ds then SendSelect
      else (case json_marshal (json_SystemMetrics metrics) of
              Inl err \<Rightarrow> SendSelect
            | Inr metricsJson \<Rightarrow> SendWrite metricsJson))"

definition sendMetrics_write :: "go_error option \<Rightarrow> DataSender \<Rightarrow> bool outcome" where
  "sendMetrics_write write ds =
     (if \<not> ds_conn ds then Panic NilDereference
      else Return (case write of None \<Rightarrow> True | Some err \<Rightarrow> False))"

section \<open>The receiving goroutine\<close>

text \<open>
  In the select; at the test for nil; past it; inside \<open>ReadMessage\<close>; with an error of it, about to
  clear the flag; returned.
\<close>

datatype receiver_pc = RecvSelect | RecvTest | RecvDeref | RecvRead | RecvFailed | RecvEnded

definition receive_select :: "DataSender \<Rightarrow> receiver_pc" where
  "receive_select ds = (if ds_clientDone ds then RecvEnded else RecvTest)"

definition receive_test :: "DataSender \<Rightarrow> receiver_pc" where
  "receive_test ds = (if \<not> ds_conn ds then RecvSelect else RecvDeref)"

definition receive_deref :: "DataSender \<Rightarrow> receiver_pc outcome" where
  "receive_deref ds = (if ds_conn ds then Return RecvRead else Panic NilDereference)"

text \<open>A message is decoded into a \<open>map[string]string\<close> and only logged.\<close>

datatype handled =
    ParseError
  | FormatError
  | MetricsResponse string
  | ErrorResponse string
  | UnknownResponse string string

definition handleMessage :: "json option \<Rightarrow> handled" where
  "handleMessage message =
     (case message of
        None \<Rightarrow> ParseError
      | Some j \<Rightarrow>
          (case dec_map (\<lambda>m. m) (\<lambda>m _. m) (dec_str (\<lambda>s _. s)) [] j None of
             None \<Rightarrow> ParseError
           | Some response \<Rightarrow>
               let es = (case response of None \<Rightarrow> [] | Some es \<Rightarrow> es)
               in (case (map_of es ''type'', map_of es ''result'') of
                     (Some typ, Some result) \<Rightarrow>
                       if typ = ''metrics_response'' then MetricsResponse result
                       else if typ = ''error'' then ErrorResponse result
                       else UnknownResponse typ result
                   | _ \<Rightarrow> FormatError)))"

definition receive_message :: "go_error + json option \<Rightarrow> receiver_pc \<times> handled option" where
  "receive_message r =
     (case r of
        Inl err \<Rightarrow> (RecvFailed, None)
      | Inr message \<Rightarrow> (RecvSelect, Some (handleMessage message)))"

definition receive_failed :: "DataSender \<Rightarrow> receiver_pc \<times> DataSender" where
  "receive_failed ds = (RecvEnded, ds\<lparr>ds_isConnected := False\<rparr>)"

section \<open>Lemmas\<close>

lemma sendMetrics_check_eq:
  "sendMetrics_check ds m =
     (if ds_isConnected ds \<and> json_ok (json_SystemMetrics m) then SendWrite (json_SystemMetrics m) else SendSelect)"
  by (simp add: sendMetrics_check_def json_marshal_def)

text \<open>Stopping twice is harmless, but stopping a restarted sender closes its channel again.\<close>

lemma StopSending_result:
  "StopSending ds = Return (if ds_running ds then ds\<lparr>ds_running := False, ds_senderDone := True\<rparr> else ds)
   \<or> StopSending ds = Panic CloseOfClosedChannel \<and> ds_running ds \<and> ds_senderDone ds"
  by (cases "ds_senderDone ds") (simp_all add: StopSending_def go_close_def)

lemma StopSending_twice: "obind (StopSending ds) StopSending = StopSending ds"
  by (cases "ds_senderDone ds") (simp_all add: StopSending_def go_close_def)

lemma restart_panics:
  assumes "ds_running ds" "\<not> ds_senderDone ds"
  shows "obind (StopSending ds) (\<lambda>ds1. StopSending (snd (StartSending interval ds1))) = Panic CloseOfClosedChannel"
  using assms by (simp add: StopSending_def StartSending_def go_close_def)

lemma sender_Disconnect_eq:
  "sender_Disconnect ds =
     (if ds_isConnected ds then
        if ds_clientDone ds then Panic CloseOfClosedChannel
        else Return (ds\<lparr>ds_clientDone := True, ds_conn := False, ds_isConnected := False\<rparr>)
      else Return ds)"
  by (simp add: sender_Disconnect_def disconnect_signal_def disconnect_close_def disconnect_store_def go_close_def)

text \<open>A receive error leaves the connection open for good: \<open>Disconnect\<close> then does nothing.\<close>

lemma disconnect_after_error:
  "receive_failed ds = (pc, ds') \<Longrightarrow> sender_Disconnect ds' = Return ds' \<and> ds_conn ds' = ds_conn ds"
  by (auto simp: receive_failed_def sender_Disconnect_def)

end
