(* ===== verification/Metric_Json.thy ===== *)
theory Metric_Json
  imports Collector_Background Data_Sender
begin

text \<open>
  Why no metric is lost to \<open>json.Marshal\<close>, which refuses infinities and NaN: an invariant of all
  eight collectors, kept by their collections and by their background goroutines, under which
  every answer can be encoded; and the runs of the master collector, where ticks, refreshes and the
  sender's pops come in any order.
\<close>

section \<open>Runs of the master collector\<close>

text \<open>What happens to the master collector: a tick, a refresh of one collector, a pop by the sender.\<close>

datatype monitor_event = MonTick collect_env | MonRefresh string collect_env network_env | MonPop

fun monitor_step :: "monitor_event \<Rightarrow> MasterCollector \<Rightarrow> MasterCollector outcome" where
  "monitor_step (MonTick env) mc = master_tick env mc"
| "monitor_step (MonRefresh name env net) mc =
     obind (refresh_named env net name (mc_collectors mc)) (\<lambda>cs. Return (mc\<lparr>mc_collectors := cs\<rparr>))"
| "monitor_step MonPop mc = Return (mc\<lparr>mc_metricsQueue := snd (TryPop (mc_metricsQueue mc))\<rparr>)"

fun monitor_run :: "monitor_event list \<Rightarrow> MasterCollector \<Rightarrow> MasterCollector outcome" where
  "monitor_run [] mc = Return mc"
| "monitor_run (e # es) mc = obind (monitor_step e mc) (monitor_run es)"

section \<open>Finite figures\<close>

text \<open>
  What is relied on: gopsutil's percentages, clock speed and temperatures are numbers, so are the
  speeds lscpu prints, processor times are below \<open>2 ^ 40\<close> seconds on 1 to \<open>2 ^ 53\<close> cores, Docker lists
  fewer than \<open>2 ^ 63\<close> processors, and the clock is within the years JSON can carry.
\<close>

definition cpu_env_finite :: "cpu_env \<Rightarrow> bool" where
  "cpu_env_finite env \<longleftrightarrow>
     (\<forall>d b ps. cu_percent env d b = Inr ps \<longrightarrow> list_all f64_finite ps)
     \<and> (\<forall>infos. cu_info env = Inr infos \<longrightarrow> list_all (\<lambda>i. f64_finite (cpi_Mhz i)) infos)
     \<and> (\<forall>ts. cu_temperatures env = Inr ts \<longrightarrow> list_all (\<lambda>t. f64_finite (snd t)) ts)
     \<and> (\<forall>key. f64_finite (getFloatValueSafely (getCPUDetailedInfo env) key))"

definition memory_env_finite :: "memory_env \<Rightarrow> bool" where
  "memory_env_finite env \<longleftrightarrow> (\<forall>vm. me_vm env = Inr vm \<longrightarrow> f64_finite (vm_UsedPercent vm))"

definition disk_env_finite :: "disk_env \<Rightarrow> bool" where
  "disk_env_finite env \<longleftrightarrow> (\<forall>m u. de_usage env m = Inr u \<longrightarrow> f64_finite (us_UsedPercent u))"

definition container_env_finite :: "container_env \<Rightarrow> bool" where
  "container_env_finite env \<longleftrightarrow> (\<forall>ms. mset (ke_arrival env ms) = mset ms) \<and>
     (\<forall>k body s. ke_body env k = Inr body \<longrightarrow> parse_stats env body = Some s \<longrightarrow>
        slice_len (cus_PercpuUsage (cst_CPUUsage (ds_CPUStats s))) < 2 ^ 63)"

definition process_env_finite :: "process_env \<Rightarrow> bool" where
  "process_env_finite env \<longleftrightarrow>
     (\<forall>ps p a. pe_processes env = Inr ps \<longrightarrow> p \<in> set ps \<longrightarrow> ps_Times p = Some a \<longrightarrow> f64_within 40 a)
     \<and> (\<forall>n. pe_logical_cores env = Inr n \<longrightarrow> 1 \<le> n \<and> n \<le> 2 ^ 53)"

definition env_finite :: "collect_env \<Rightarrow> bool" where
  "env_finite env \<longleftrightarrow> cpu_env_finite (ae_cpu env) \<and> memory_env_finite (ae_memory env)
     \<and> disk_env_finite (ae_disk env) \<and> container_env_finite (ae_container env)
     \<and> process_env_finite (ae_process env) \<and> json_ok (JTime (ae_now env))"

fun event_finite :: "monitor_event \<Rightarrow> bool" where
  "event_finite (MonTick env) \<longleftrightarrow> env_finite env \<and> (\<forall>rs. mset (ae_order env rs) = mset rs)"
| "event_finite (MonRefresh name env net) = env_finite env"
| "event_finite MonPop = True"

text \<open>The invariant of each collector's state.\<close>

definition cpu_finite :: "CPUCollector \<Rightarrow> bool" where
  "cpu_finite c \<longleftrightarrow> list_all f64_finite (ck_cachedPercent c) \<and> list_all f64_finite (ck_cachedPercents c)"

definition memory_finite :: "MemoryCollector \<Rightarrow> bool" where
  "memory_finite c \<longleftrightarrow> json_ok (json_MemoryMetrics (mk_cachedInfo c))"

definition disk_finite :: "disk_state \<Rightarrow> bool" where
  "disk_finite s \<longleftrightarrow> json_ok (json_slice json_DiskMetrics (dk_cachedMetrics (fst s)))"

definition container_finite :: "ContainerCollector \<Rightarrow> bool" where
  "container_finite c \<longleftrightarrow> json_ok (json_slice json_DockerContainer (kk_cachedMetrics c))"

definition network_finite :: "NetworkCollector \<Rightarrow> bool" where
  "network_finite c \<longleftrightarrow> json_ok (json_slice json_NetworkMetrics (nk_cachedMetrics c))"

definition process_finite :: "ProcessCollector \<Rightarrow> bool" where
  "process_finite c \<longleftrightarrow> json_ok (json_slice json_ProcessInfo (pk_cachedMetrics c))
     \<and> (\<forall>q a. pk_prevCPUTimes c q = Some a \<longrightarrow> f64_within 40 a)"

definition service_finite :: "ServiceCollector \<Rightarrow> bool" where
  "service_finite c \<longleftrightarrow> json_ok (json_slice json_ServiceInfo (vk_cachedMetrics c))"

fun collector_finite :: "Collector \<Rightarrow> bool" where
  "collector_finite (CollSystem c) = True"
| "collector_finite (CollCPU c) = cpu_finite c"
| "collector_finite (CollMemory c) = (memory_inv c \<and> memory_finite c)"
| "collector_finite (CollDisk s) = (disk_inv s \<and> disk_finite s)"
| "collector_finite (CollContainer c) = ((kk_dockerClient c \<longrightarrow> container_inv c) \<and> (kk_backgroundRunning c \<longrightarrow> kk_dockerClient c)
     \<and> container_finite c)"
| "collector_finite (CollNetwork c) = network_finite c"
| "collector_finite (CollProcess c) = (process_inv c \<and> process_finite c)"
| "collector_finite (CollService c) = (service_inv c \<and> service_finite c)"

fun json_data :: "metric_data \<Rightarrow> json" where
  "json_data (DataSystem v) = json_SystemInfo v"
| "json_data (DataCPU v) = json_CPUMetrics v"
| "json_data (DataMemory v) = json_MemoryMetrics v"
| "json_data (DataDisk v) = json_slice json_DiskMetrics v"
| "json_data (DataContainer v) = json_slice json_DockerContainer v"
| "json_data (DataNetwork v) = json_slice json_NetworkMetrics v"
| "json_data (DataProcess v) = json_slice json_ProcessInfo v"
| "json_data (DataService v) = json_slice json_ServiceInfo v"

section \<open>The collectors keep the invariant\<close>

lemma json_SystemInfo_ok [simp]: "json_ok (json_SystemInfo i)"
  by (simp add: json_SystemInfo_def)

subsection \<open>CPU\<close>

text \<open>Setting temperatures keeps the figures of the cores finite.\<close>

definition cores_finite :: "CPUCore list \<Rightarrow> bool" where
  "cores_finite cores \<longleftrightarrow> list_all (\<lambda>k. json_ok (json_CPUCore k)) cores"

lemma json_CPUCore_ok: "json_ok (json_CPUCore k) \<longleftrightarrow> f64_finite (cc_Usage k) \<and> f64_finite (cc_Temperature k)"
  by (simp add: json_CPUCore_def)

lemma set_temperature_finite:
  assumes "set_temperature i t cores = Return cores'" "f64_finite t" "cores_finite cores"
  shows "cores_finite cores'"
proof -
  have i: "0 \<le> i" "i < int (length cores)"
    and c: "cores' = cores[nat i := (cores ! nat i)\<lparr>cc_Temperature := t\<rparr>]"
    using assms(1) by (auto simp: set_temperature_eq split: if_splits)
  have "json_ok (json_CPUCore (cores ! nat i))"
    using assms(3) i by (simp add: cores_finite_def list_all_length)
  then have "json_ok (json_CPUCore ((cores ! nat i)\<lparr>cc_Temperature := t\<rparr>))"
    using assms(2) by (simp add: json_CPUCore_ok)
  then show ?thesis using assms(3) unfolding c cores_finite_def list_all_iff
    by (auto dest: set_update_subset_insert [THEN subsetD])
qed

lemma apply_sensor_finite:
  assumes "apply_sensor ht sensor (cores, pt) = Return (cores', pt')"
    and "f64_finite (snd sensor)" "cores_finite cores" "f64_finite pt"
  shows "cores_finite cores' \<and> f64_finite pt'"
proof -
  obtain key t where s: "sensor = (key, t)" by fastforce
  have t: "f64_finite t" using assms(2) s by simp
  note set = set_temperature_finite [OF _ t]
  show ?thesis
    using assms(1,3,4) t unfolding s apply_sensor_def Let_def
    by (auto split: option.splits if_splits dest: set)
qed

lemma apply_sensors_finite:
  "apply_sensors ht sensors (cores, pt) = Return (cores', pt') \<Longrightarrow> list_all (\<lambda>s. f64_finite (snd s)) sensors \<Longrightarrow>
   cores_finite cores \<Longrightarrow> f64_finite pt \<Longrightarrow> cores_finite cores' \<and> f64_finite pt'"
proof (induction sensors arbitrary: cores pt)
  case (Cons s ss)
  then obtain c1 p1 where a: "apply_sensor ht s (cores, pt) = Return (c1, p1)"
    "apply_sensors ht ss (c1, p1) = Return (cores', pt')" by auto
  with Cons.IH [OF a(2)] apply_sensor_finite [OF a(1)] Cons.prems show ?case by simp
qed simp

lemma fallback_finite:
  "list_all (\<lambda>s. f64_finite (snd s)) sensors \<Longrightarrow> f64_finite pt \<Longrightarrow> f64_finite (fallback_temperature sensors pt)"
  by (induction sensors pt rule: fallback_temperature.induct) auto

lemma cpu_temperatures_finite:
  assumes "cpu_temperatures temps ht cores = Return (cores', pt)" "cores_finite cores"
    and "\<And>ts. temps = Inr ts \<Longrightarrow> list_all (\<lambda>t. f64_finite (snd t)) ts"
  shows "cores_finite cores' \<and> f64_finite pt"
proof (cases temps)
  case (Inr sensors)
  note fin = assms(3) [OF Inr]
  from assms(1) obtain p1 where a: "apply_sensors ht sensors (cores, 0) = Return (cores', p1)"
    and pt: "pt = (if f64_eq p1 0 then fallback_temperature sensors p1 else p1)"
    by (auto simp: cpu_temperatures_def Inr)
  show ?thesis using apply_sensors_finite [OF a fin assms(2)] fallback_finite [OF fin] by (simp add: pt)
qed (use assms in \<open>simp add: cpu_temperatures_def\<close>)

lemma cpu_cores_finite: "list_all f64_finite ps \<Longrightarrow> cores_finite (cpu_cores ps)"
  by (auto simp: cpu_cores_def cores_finite_def list_all_iff json_CPUCore_ok zero_CPUCore_def set_zip)

lemma go_index_in: "go_index xs i = Return x \<Longrightarrow> x \<in> set xs"
  by (auto simp: go_index_def split: if_splits)

lemma cpu_store_finite:
  "list_all f64_finite p \<Longrightarrow> list_all f64_finite ps \<Longrightarrow> cpu_finite (cpu_store t p ps c)"
  by (simp add: cpu_finite_def cpu_store_def)

lemma cpu_percents_finite:
  assumes "cpu_env_finite env" "cpu_finite c" "cpu_percents env c = (r, c')"
  shows "cpu_finite c' \<and> (\<forall>p ps. r = Inr (p, ps) \<longrightarrow> list_all f64_finite p \<and> list_all f64_finite ps)"
  using assms
  by (auto simp: cpu_percents_def cpu_env_finite_def intro: cpu_store_finite
      split: if_splits sum.splits) (auto simp: cpu_finite_def)

lemma cpu_Collect_finite:
  assumes "cpu_env_finite env" "cpu_finite c" "cpu_Collect env c = Return (r, c')"
  shows "cpu_finite c' \<and> (\<forall>m. r = Inr m \<longrightarrow> json_ok (json_CPUMetrics m))"
proof -
  define c1 where "c1 = (if ck_directSampling c \<le> 0 then c\<lparr>ck_directSampling := dur_millis 750\<rparr> else c)"
  have c1: "cpu_finite c1" using assms(2) by (simp add: c1_def cpu_finite_def)
  show ?thesis
  proof (cases r)
    case (Inl err)
    have "c' = c1 \<or> (\<exists>x. cpu_percents env c1 = (x, c'))"
      using assms(3) by (auto simp: cpu_Collect_def Let_def Inl c1_def [symmetric] split: sum.splits prod.splits)
    then show ?thesis using Inl c1 cpu_percents_finite [OF assms(1) c1] by blast
  next
    case (Inr m)
    obtain info ht ph lg percent percents cores pt info0 usage where
      i: "cu_info env = Inr info" "go_index info 0 = Return info0"
      and p: "cpu_percents env c1 = (Inr (percent, percents), c')"
      and t: "cpu_temperatures (cu_temperatures env) ht (cpu_cores percents) = Return (cores, pt)"
      and u: "go_index percent 0 = Return usage"
      and m: "m = cpu_metrics info0 ph lg usage pt cores (getCPUDetailedInfo env)"
      using assms(3) by (auto simp: cpu_Collect_def Let_def Inr c1_def [symmetric] split: sum.splits prod.splits)
    note fin = cpu_percents_finite [OF assms(1) c1 p]
    have cf: "cores_finite cores \<and> f64_finite pt"
      using cpu_temperatures_finite [OF t cpu_cores_finite] fin assms(1) by (simp add: cpu_env_finite_def)
    have "f64_finite usage" using fin go_index_in [OF u] by (auto simp: list_all_iff)
    moreover have "f64_finite (cpi_Mhz info0)"
      using assms(1) i go_index_in [OF i(2)] by (auto simp: cpu_env_finite_def list_all_iff)
    ultimately have "json_ok (json_CPUMetrics m)"
      using cf assms(1) by (simp add: m json_CPUMetrics_def cpu_metrics_def cpu_env_finite_def cores_finite_def)
    with fin Inr show ?thesis by simp
  qed
qed

lemma cpu_turn_finite:
  "cpu_env_finite env \<Longrightarrow> cpu_finite c \<Longrightarrow> cpu_finite (cpu_background_turn env c)"
  by (auto simp: cpu_background_turn_def cpu_env_finite_def intro: cpu_store_finite split: sum.split)

subsection \<open>The collectors with a cache\<close>

lemma memory_gather_finite:
  assumes "memory_env_finite e" "memory_finite c" "collectMemoryInfo e c = Return (r, c1)"
  shows "memory_finite c1 \<and> (\<forall>m. r = Inr m \<longrightarrow> json_ok (json_MemoryMetrics m) \<and> memory_finite (memory_store t m c1))"
  using assms
  by (auto simp: collectMemoryInfo_def memory_collectStaticOnce_def memory_collectDynamicInfo_def memory_finite_def
      memory_env_finite_def memory_store_def json_MemoryMetrics_def Let_def
      split: sum.splits prod.splits if_splits option.splits)

lemma disk_gather_finite:
  assumes "disk_env_finite e" "disk_finite s" "collectDiskMetrics e s = Return (r, s1)"
  shows "disk_finite s1 \<and> (\<forall>m. r = Inr m \<longrightarrow> json_ok (json_slice json_DiskMetrics m) \<and> disk_finite (disk_store t m s1))"
proof -
  have "json_ok (json_slice json_DiskMetrics m)" if "r = Inr m" for m
    using disk_metrics_serialisable [OF assms(3) [unfolded that]] assms(1)
    by (auto simp: disk_env_finite_def json_marshal_def split: if_splits)
  then show ?thesis
    using assms(2) collectDiskMetrics_frame [OF assms(3)] by (auto simp: disk_finite_def disk_store_def split: prod.split)
qed

lemma container_gather_finite:
  assumes "container_env_finite e" "container_finite c" "collectContainerMetrics e c = Return (r, c1)"
  shows "container_finite c1 \<and> (\<forall>m. r = Inr m \<longrightarrow> json_ok (json_slice json_DockerContainer m)
    \<and> container_finite (container_store t m c1))"
proof -
  have "json_ok (json_slice json_DockerContainer m)" if r: "r = Inr m" for m
  proof -
    obtain conts ms where g: "container_goroutines (container_goroutine e) conts = Return ms"
      and m: "m = slice_of_appends (ke_arrival e ms)"
      using assms(3) r by (auto simp: collectContainerMetrics_def split: if_splits sum.splits)
    have "json_ok (json_DockerContainer x)" if "x \<in> set ms" for x
      using container_goroutines_Return [OF g that] assms(1) container_goroutine_json
      by (auto simp: container_env_finite_def)
    moreover have "set (ke_arrival e ms) = set ms"
      using assms(1) by (metis container_env_finite_def set_mset_mset)
    ultimately show ?thesis by (simp add: m list_all_iff)
  qed
  then show ?thesis
    using assms(2) collectContainer_frame [OF assms(3)] by (auto simp: container_finite_def container_store_def)
qed

lemma process_times_within:
  "(\<And>p a. p \<in> set ps \<Longrightarrow> ps_Times p = Some a \<Longrightarrow> f64_within 40 a) \<Longrightarrow> (\<And>q a. m q = Some a \<Longrightarrow> f64_within 40 a) \<Longrightarrow>
   process_cpu_times ps m q = Some a \<Longrightarrow> f64_within 40 a"
proof (induction ps m rule: process_cpu_times.induct)
  case (2 p ps m)
  show ?case
  proof (rule "2.IH" [OF _ _ "2.prems"(3) [unfolded process_cpu_times.simps]])
    show "\<And>p a. p \<in> set ps \<Longrightarrow> ps_Times p = Some a \<Longrightarrow> f64_within 40 a"
      using "2.prems"(1) by (meson list.set_intros(2))
    show "\<And>q a. (case ps_Times p of None \<Rightarrow> m | Some tm \<Rightarrow> m(ps_Pid p \<mapsto> tm)) q = Some a \<Longrightarrow> f64_within 40 a"
      using "2.prems"(1,2) by (auto split: option.splits if_splits)
  qed
qed simp

lemma process_gather_finite:
  assumes "process_env_finite e" "process_finite c" "collectProcessMetrics e c = Return (r, c1)"
  shows "process_finite c1 \<and> (\<forall>m. r = Inr m \<longrightarrow> json_ok (json_slice json_ProcessInfo m) \<and> process_finite (process_store t m c1))"
proof -
  have "json_ok (json_slice json_ProcessInfo m)" if "r = Inr m" for m
    using process_metrics_serialisable [OF assms(3) [unfolded that]] assms(1,2)
    by (auto simp: process_env_finite_def process_finite_def json_marshal_def split: if_splits)
  moreover have "f64_within 40 a" if "pk_prevCPUTimes c1 q = Some a" for q a
  proof (cases "pe_processes e")
    case (Inl err)
    then show ?thesis using assms(2,3) that by (auto simp: collectProcessMetrics_def process_finite_def)
  next
    case (Inr ps)
    then have "process_cpu_times ps Map.empty q = Some a"
      using assms(3) that by (auto simp: collectProcessMetrics_def Let_def)
    then show ?thesis using process_times_within [of ps Map.empty q a] assms(1) Inr
      by (auto simp: process_env_finite_def)
  qed
  ultimately show ?thesis
    using assms(2) collectProcess_frame [OF assms(3)] by (auto simp: process_finite_def process_store_def)
qed

lemma service_gather_finite:
  assumes "service_finite c" "collectServiceMetrics e c = Return (r, c1)"
  shows "service_finite c1 \<and> (\<forall>m. r = Inr m \<longrightarrow> json_ok (json_slice json_ServiceInfo m) \<and> service_finite (service_store t m c1))"
proof -
  have i: "json_ok (json_ServiceInfo (service_info e u))" for u
    by (simp add: json_ServiceInfo_def service_info_def)
  have "json_ok (json_slice json_ServiceInfo m)" if "r = Inr m" for m
    using assms(2) that
    by (auto simp: collectServiceMetrics_def service_loop_eq i list_all_iff split: prod.splits sum.splits)
  then show ?thesis
    using assms(1) collectService_frame [OF assms(2)] by (auto simp: service_finite_def service_store_def)
qed

lemma network_turn_finite:
  "network_finite c \<Longrightarrow> network_finite (network_collectAndCache env c)"
proof (cases "collectNetworkMetrics env c")
  case (Pair r c1)
  assume "network_finite c"
  moreover have "json_ok (json_slice json_NetworkMetrics m)" if "r = Inr m" for m
    using network_metrics_serialisable [OF Pair [unfolded that]] by (auto simp: json_marshal_def split: if_splits)
  ultimately show ?thesis using collectNetwork_cached [OF Pair]
    by (auto simp: network_collectAndCache_def network_finite_def Pair split: sum.split)
qed

subsection \<open>One collector\<close>

text \<open>The contract of the caches carries the invariant through requests and refreshes.\<close>

lemmas cached_finite = memory_finite_def [THEN iffD1] disk_finite_def [THEN iffD1, unfolded json_ok_slice]
  container_finite_def [THEN iffD1, unfolded json_ok_slice]
  process_finite_def [THEN iffD1, THEN conjunct1, unfolded json_ok_slice]
  service_finite_def [THEN iffD1, unfolded json_ok_slice]

lemma memory_Collect_finite:
  assumes "memory_env_finite e" "memory_inv c" "memory_finite c" "memory_Collect e c = Return (r, c')"
  shows "memory_inv c' \<and> memory_finite c' \<and> (\<forall>m. r = Inr m \<longrightarrow> json_ok (json_MemoryMetrics m))"
  using assms
  by (intro memory.collect_keeps) (auto intro: cached_finite dest: memory_gather_finite [OF assms(1)])

lemma memory_refresh_finite:
  assumes "memory_env_finite e" "memory_inv c" "memory_finite c" "memory_background_turn e c = Return c'"
  shows "memory_inv c' \<and> memory_finite c'"
  using assms by (intro memory.refresh_keeps) (auto dest: memory_gather_finite [OF assms(1)])

lemma disk_Collect_finite:
  assumes "disk_env_finite e" "disk_inv c" "disk_finite c" "disk_Collect e c = Return (r, c')"
  shows "disk_inv c' \<and> disk_finite c' \<and> (\<forall>m. r = Inr m \<longrightarrow> json_ok (json_slice json_DiskMetrics m))"
  using assms
  by (intro disk.collect_keeps) (auto intro: cached_finite dest: disk_gather_finite [OF assms(1)])

lemma disk_refresh_finite:
  assumes "disk_env_finite e" "disk_inv c" "disk_finite c" "disk_collectAndCache e c = Return c'"
  shows "disk_inv c' \<and> disk_finite c'"
  using assms by (intro disk.refresh_keeps) (auto dest: disk_gather_finite [OF assms(1)])

lemma container_Collect_finite:
  assumes "container_env_finite e" "container_inv c" "container_finite c" "container_Collect e c = Return (r, c')"
  shows "container_inv c' \<and> container_finite c' \<and> (\<forall>m. r = Inr m \<longrightarrow> json_ok (json_slice json_DockerContainer m))"
  using assms
  by (intro docker_cache.collect_keeps) (auto intro: cached_finite dest: container_gather_finite [OF assms(1)])

lemma container_refresh_finite:
  assumes "container_env_finite e" "container_inv c" "container_finite c" "container_collectAndCache e c = Return c'"
  shows "container_inv c' \<and> container_finite c'"
  using assms by (intro docker_cache.refresh_keeps) (auto dest: container_gather_finite [OF assms(1)])

lemma process_Collect_finite:
  assumes "process_env_finite e" "process_inv c" "process_finite c" "process_Collect e c = Return (r, c')"
  shows "process_inv c' \<and> process_finite c' \<and> (\<forall>m. r = Inr m \<longrightarrow> json_ok (json_slice json_ProcessInfo m))"
  using assms
  by (intro process.collect_keeps) (auto intro: cached_finite dest: process_gather_finite [OF assms(1)])

lemma process_refresh_finite:
  assumes "process_env_finite e" "process_inv c" "process_finite c" "process_collectAndCache e c = Return c'"
  shows "process_inv c' \<and> process_finite c'"
  using assms by (intro process.refresh_keeps) (auto dest: process_gather_finite [OF assms(1)])

lemma service_Collect_finite:
  assumes "service_inv c" "service_finite c" "service_Collect e c = Return (r, c')"
  shows "service_inv c' \<and> service_finite c' \<and> (\<forall>m. r = Inr m \<longrightarrow> json_ok (json_slice json_ServiceInfo m))"
  using assms
  by (intro service.collect_keeps) (auto intro: cached_finite dest: service_gather_finite)

lemma service_refresh_finite:
  assumes "service_inv c" "service_finite c" "service_collectAndCache e c = Return c'"
  shows "service_inv c' \<and> service_finite c'"
  using assms by (intro service.refresh_keeps) (auto dest: service_gather_finite)

lemma as_Collector_finite:
  assumes "as_Collector data coll q = Return (r, c')"
    and "\<And>y s. q = Return (y, s) \<Longrightarrow> collector_finite (coll s) \<and> (\<forall>m. y = Inr m \<longrightarrow> json_ok (json_data (data m)))"
  shows "collector_finite c' \<and> (\<forall>d. r = Inr d \<longrightarrow> json_ok (json_data d))"
  using as_Collector_Return [OF assms(1)] assms(2) by (fastforce split: sum.splits)

lemma container_request_finite:
  assumes "container_env_finite e" "collector_finite (CollContainer c)" "container_Collect e c = Return (r, c')"
  shows "collector_finite (CollContainer c') \<and> (\<forall>m. r = Inr m \<longrightarrow> json_ok (json_slice json_DockerContainer m))"
proof (cases "kk_dockerClient c")
  case True
  with container_Collect_finite [OF assms(1) _ _ assms(3)] assms(2) show ?thesis by (simp add: container_inv_def)
next
  case False
  with assms(2,3) show ?thesis by (auto simp: container_Collect_def)
qed

text \<open>The same in terms of \<open>Collector\<close>, one lemma for each implementation.\<close>

lemma answers_finite:
  "\<And>m. collector_finite (CollSystem s0) \<and> json_ok (json_data (DataSystem m))"
  "cpu_env_finite e1 \<Longrightarrow> collector_finite (CollCPU c1) \<Longrightarrow> cpu_Collect e1 c1 = Return (y1, s1) \<Longrightarrow>
     collector_finite (CollCPU s1) \<and> (\<forall>m. y1 = Inr m \<longrightarrow> json_ok (json_data (DataCPU m)))"
  "memory_env_finite e2 \<Longrightarrow> collector_finite (CollMemory c2) \<Longrightarrow> memory_Collect e2 c2 = Return (y2, s2) \<Longrightarrow>
     collector_finite (CollMemory s2) \<and> (\<forall>m. y2 = Inr m \<longrightarrow> json_ok (json_data (DataMemory m)))"
  "disk_env_finite e3 \<Longrightarrow> collector_finite (CollDisk c3) \<Longrightarrow> disk_Collect e3 c3 = Return (y3, s3) \<Longrightarrow>
     collector_finite (CollDisk s3) \<and> (\<forall>m. y3 = Inr m \<longrightarrow> json_ok (json_data (DataDisk m)))"
  "container_env_finite e4 \<Longrightarrow> collector_finite (CollContainer c4) \<Longrightarrow> container_Collect e4 c4 = Return (y4, s4) \<Longrightarrow>
     collector_finite (CollContainer s4) \<and> (\<forall>m. y4 = Inr m \<longrightarrow> json_ok (json_data (DataContainer m)))"
  "collector_finite (CollNetwork c5) \<Longrightarrow> Return (network_Collect c5) = Return (y5, s5) \<Longrightarrow>
     collector_finite (CollNetwork s5) \<and> (\<forall>m. y5 = Inr m \<longrightarrow> json_ok (json_data (DataNetwork m)))"
  "process_env_finite e6 \<Longrightarrow> collector_finite (CollProcess c6) \<Longrightarrow> process_Collect e6 c6 = Return (y6, s6) \<Longrightarrow>
     collector_finite (CollProcess s6) \<and> (\<forall>m. y6 = Inr m \<longrightarrow> json_ok (json_data (DataProcess m)))"
  "collector_finite (CollService c7) \<Longrightarrow> service_Collect e7 c7 = Return (y7, s7) \<Longrightarrow>
     collector_finite (CollService s7) \<and> (\<forall>m. y7 = Inr m \<longrightarrow> json_ok (json_data (DataService m)))"
  subgoal by simp
  subgoal using cpu_Collect_finite [of e1 c1 y1 s1] by simp
  subgoal using memory_Collect_finite [of e2 c2 y2 s2] by simp
  subgoal using disk_Collect_finite [of e3 c3 y3 s3] by simp
  subgoal unfolding json_data.simps by (rule container_request_finite)
  subgoal by (auto simp: network_Collect_def network_finite_def)
  subgoal using process_Collect_finite [of e6 c6 y6 s6] by simp
  subgoal using service_Collect_finite [of c7 e7 y7 s7] by simp
  done

lemma Collector_Collect_finite:
  assumes "env_finite env" "collector_finite c" "Collector_Collect env c = Return (r, c')"
  shows "collector_finite c' \<and> (\<forall>d. r = Inr d \<longrightarrow> json_ok (json_data d))"
proof -
  have e: "cpu_env_finite (ae_cpu env)" "memory_env_finite (ae_memory env)" "disk_env_finite (ae_disk env)"
    "container_env_finite (ae_container env)" "process_env_finite (ae_process env)"
    using assms(1) by (simp_all add: env_finite_def)
  have sys: "collector_finite (CollSystem s) \<and> (\<forall>m. y = Inr m \<longrightarrow> json_ok (json_data (DataSystem m)))"
    for s and y :: "go_error + SystemInfo" using answers_finite(1) by blast
  note kept = answers_finite(2) [OF e(1)] answers_finite(3) [OF e(2)] answers_finite(4) [OF e(3)]
    answers_finite(5) [OF e(4)] answers_finite(6) answers_finite(7) [OF e(5)] answers_finite(8)
  have "collector_finite c \<Longrightarrow> Collector_Collect env c = Return (r, c') \<Longrightarrow>
      collector_finite c' \<and> (\<forall>d. r = Inr d \<longrightarrow> json_ok (json_data d))"
    by (cases c; hypsubst; unfold Collector_Collect.simps; erule as_Collector_finite; (rule sys | erule kept, assumption))
  then show ?thesis using assms(2,3) by blast
qed

lemma Collector_refresh_finite:
  assumes "env_finite env" "collector_finite c" "Collector_refresh env net c = Return c'"
  shows "collector_finite c' \<and> category c' = category c"
proof -
  have e: "cpu_env_finite (ae_cpu env)" "memory_env_finite (ae_memory env)" "disk_env_finite (ae_disk env)"
    "container_env_finite (ae_container env)" "process_env_finite (ae_process env)"
    using assms(1) by (simp_all add: env_finite_def)
  show ?thesis
  proof (cases c)
    case (CollSystem k)
    then show ?thesis using assms(3) by auto
  next
    case (CollCPU k)
    then show ?thesis using assms(2,3) cpu_turn_finite [OF e(1), of k] by auto
  next
    case (CollMemory k)
    then show ?thesis using assms(2,3) memory_refresh_finite [OF e(2), of k] by auto
  next
    case (CollDisk k)
    then show ?thesis using assms(2,3) disk_refresh_finite [OF e(3), of k] by auto
  next
    case (CollContainer k)
    show ?thesis
    proof (cases "kk_backgroundRunning k")
      case True
      then obtain k' where "container_collectAndCache (ae_container env) k = Return k'" "c' = CollContainer k'"
        using assms(3) CollContainer by auto
      then show ?thesis
        using container_refresh_finite [OF e(4), of k k'] assms(2) True CollContainer by (simp add: container_inv_def)
    qed (use assms(2,3) CollContainer in auto)
  next
    case (CollNetwork k)
    then show ?thesis using assms(2,3) network_turn_finite [of k net] by auto
  next
    case (CollProcess k)
    then show ?thesis using assms(2,3) process_refresh_finite [OF e(5), of k] by auto
  next
    case (CollService k)
    then show ?thesis using assms(2,3) service_refresh_finite [of k] by auto
  qed
qed

section \<open>The master collector keeps it\<close>

definition collectors_finite :: "(string \<times> Collector) list \<Rightarrow> bool" where
  "collectors_finite cs \<longleftrightarrow> list_all (\<lambda>nc. collector_finite (snd nc)) cs"

definition results_finite :: "collector_result list \<Rightarrow> bool" where
  "results_finite rs \<longleftrightarrow> list_all (\<lambda>r. \<forall>d. snd r = Inr d \<longrightarrow> json_ok (json_data d)) rs"

definition master_finite :: "MasterCollector \<Rightarrow> bool" where
  "master_finite mc \<longleftrightarrow> master_inv mc \<and> collectors_finite (mc_collectors mc)
     \<and> list_all (\<lambda>m. json_ok (json_SystemMetrics m)) (q_items (mc_metricsQueue mc))"

lemma collect_goroutines_finite:
  "env_finite env \<Longrightarrow> collect_goroutines env cs = Return (rs, cs') \<Longrightarrow> collectors_finite cs \<Longrightarrow>
   collectors_finite cs' \<and> results_finite rs"
proof (induction cs arbitrary: rs cs')
  case (Cons nc cs)
  obtain name c where nc: "nc = (name, c)" by (cases nc)
  from Cons.prems(2) obtain r c1 rs1 cs1 where g: "Collector_Collect env c = Return (r, c1)"
    "collect_goroutines env cs = Return (rs1, cs1)" "rs = (name, r) # rs1" "cs' = (name, c1) # cs1"
    unfolding nc by auto
  show ?case
    using Cons.IH [OF Cons.prems(1) g(2)] Collector_Collect_finite [OF Cons.prems(1) _ g(1)] Cons.prems(3)
    unfolding g(3,4) nc collectors_finite_def results_finite_def by simp
qed (simp add: collectors_finite_def results_finite_def)

lemma refresh_named_finite:
  "env_finite env \<Longrightarrow> refresh_named env net name cs = Return cs' \<Longrightarrow> collectors_finite cs \<Longrightarrow>
   collectors_finite cs' \<and> map (\<lambda>(n, c). (n, category c)) cs' = map (\<lambda>(n, c). (n, category c)) cs"
proof (induction cs arbitrary: cs')
  case (Cons nc cs)
  obtain n c where nc: "nc = (n, c)" by (cases nc)
  show ?case
  proof (cases "n = name")
    case True
    with Cons.prems(2) obtain c1 where c1: "Collector_refresh env net c = Return c1" "cs' = (n, c1) # cs"
      by (auto simp: nc)
    with Collector_refresh_finite [OF Cons.prems(1) _ c1(1)] Cons.prems(3) show ?thesis
      by (simp add: nc collectors_finite_def)
  next
    case False
    with Cons.prems(2) obtain cs1 where c1: "refresh_named env net name cs = Return cs1" "cs' = (n, c) # cs1"
      by (auto simp: nc)
    with Cons.IH [OF Cons.prems(1) c1(1)] Cons.prems(3) show ?thesis by (simp add: nc collectors_finite_def)
  qed
qed (simp add: collectors_finite_def)

lemma set_metric_json:
  "json_ok (json_data d) \<Longrightarrow> json_ok (json_SystemMetrics m) \<Longrightarrow> json_ok (json_SystemMetrics (set_metric d m))"
  by (cases d) (simp_all add: json_SystemMetrics_def)

lemma fold_apply_json:
  "results_finite rs \<Longrightarrow> json_ok (json_SystemMetrics m) \<Longrightarrow> json_ok (json_SystemMetrics (fold apply_result rs m))"
  by (induction rs arbitrary: m)
    (auto simp: results_finite_def apply_result_def set_metric_json split: sum.split)

lemma zero_metrics_json:
  "json_ok (JTime t) \<Longrightarrow> json_ok (json_SystemMetrics
     (zero_SystemMetrics\<lparr>sm_USER_ID := u, sm_Key := k, sm_ExternalIP := ip, sm_Timestamp := t\<rparr>))"
  by (simp add: json_SystemMetrics_def zero_SystemMetrics_def json_CPUMetrics_def zero_CPUMetrics_def
      json_MemoryMetrics_def zero_MemoryMetrics_def)

text \<open>The metric that a tick queues, and what the tick leaves.\<close>

lemma newest_set: "set (newest n xs) \<subseteq> set xs"
  by (simp add: newest_def set_drop_subset)

lemma master_tick_finite:
  assumes "\<And>rs. mset (ae_order env rs) = mset rs" "env_finite env" "master_finite mc" "master_tick env mc = Return mc'"
  shows "master_finite mc'"
proof -
  have q: "length (q_items (mc_metricsQueue mc)) \<le> 100" "q_size (mc_metricsQueue mc) = 100"
    using assms(3) by (simp_all add: master_finite_def master_inv_def)
  let ?z = "zero_SystemMetrics\<lparr>sm_USER_ID := mc_userKey mc, sm_Key := mc_localKey mc, sm_ExternalIP := mc_externalIP mc,
       sm_Timestamp := ae_now env\<rparr>"
  obtain rs cs where g: "collect_goroutines env (mc_collectors mc) = Return (rs, cs)"
    and mc': "mc' = mc\<lparr>mc_collectors := cs, mc_metricsQueue := (mc_metricsQueue mc)
      \<lparr>q_items := newest 100 (q_items (mc_metricsQueue mc) @ [fold apply_result (ae_order env rs) ?z])\<rparr>\<rparr>"
    using assms(4) by (auto simp: master_tick_def CollectAll_def Let_def Push_newest [OF q])
  have r: "collectors_finite cs" "results_finite rs"
    using collect_goroutines_finite [OF assms(2) g] assms(3) by (simp_all add: master_finite_def)
  have "set (ae_order env rs) = set rs" using mset_eq_setD [OF assms(1)] .
  then have "results_finite (ae_order env rs)" using r(2) by (simp add: results_finite_def list_all_iff)
  then have "json_ok (json_SystemMetrics (fold apply_result (ae_order env rs) ?z))"
    using assms(2) by (intro fold_apply_json zero_metrics_json) (simp_all add: env_finite_def)
  then have "list_all (\<lambda>m. json_ok (json_SystemMetrics m)) (q_items (mc_metricsQueue mc'))"
    using assms(3) newest_set [of 100 "q_items (mc_metricsQueue mc) @ [fold apply_result (ae_order env rs) ?z]"]
    by (auto simp: mc' list_all_iff master_finite_def)
  moreover have "master_inv mc'" using master_tick_result [OF _ assms(4)] assms(3) by (auto simp: master_finite_def)
  ultimately show ?thesis using r(1) by (simp add: master_finite_def mc')
qed

lemma TryPop_items: "set (q_items (snd (TryPop q))) \<subseteq> set (q_items q)" "q_size (snd (TryPop q)) = q_size q"
  "length (q_items (snd (TryPop q))) \<le> length (q_items q)"
  by (cases "q_items q"; auto simp: TryPop_def)+

lemma categories_kept:
  assumes "map (\<lambda>(n, c). (n, category c)) cs' = map (\<lambda>(n, c). (n, category c)) cs"
  shows "map fst cs' = map fst cs"
    and "list_all (\<lambda>(name, c). category c = name) cs' = list_all (\<lambda>(name, c). category c = name) cs"
proof -
  have "map fst (map (\<lambda>(n, c). (n, category c)) cs') = map fst (map (\<lambda>(n, c). (n, category c)) cs)"
    unfolding assms ..
  then show "map fst cs' = map fst cs" by (simp add: comp_def case_prod_beta)
  have "list_all (\<lambda>(n, k). k = n) (map (\<lambda>(n, c). (n, category c)) cs')
      = list_all (\<lambda>(n, k). k = n) (map (\<lambda>(n, c). (n, category c)) cs)"
    unfolding assms ..
  then show "list_all (\<lambda>(name, c). category c = name) cs' = list_all (\<lambda>(name, c). category c = name) cs"
    by (simp add: list.pred_map comp_def split_def)
qed

lemma monitor_step_finite:
  assumes "event_finite e" "master_finite mc" "monitor_step e mc = Return mc'" shows "master_finite mc'"
proof (cases e)
  case (MonTick env)
  then show ?thesis using master_tick_finite [of env mc mc'] assms by simp
next
  case (MonRefresh name env net)
  then obtain cs where cs: "refresh_named env net name (mc_collectors mc) = Return cs" "mc' = mc\<lparr>mc_collectors := cs\<rparr>"
    using assms(3) by auto
  have k: "collectors_finite cs" "map (\<lambda>(n, c). (n, category c)) cs = map (\<lambda>(n, c). (n, category c)) (mc_collectors mc)"
    using refresh_named_finite [OF _ cs(1)] assms(1,2) MonRefresh by (simp_all add: master_finite_def)
  then show ?thesis using assms(2) categories_kept [OF k(2)] by (simp add: cs(2) master_finite_def master_inv_def)
next
  case MonPop
  then show ?thesis using assms(2,3) TryPop_items [of "mc_metricsQueue mc"]
    by (auto simp: master_finite_def master_inv_def list_all_iff)
qed

lemma monitor_run_finite:
  "list_all event_finite es \<Longrightarrow> master_finite mc \<Longrightarrow> monitor_run es mc = Return mc' \<Longrightarrow> master_finite mc'"
  by (induction es arbitrary: mc) (auto dest: monitor_step_finite)

lemma NewMasterCollector_finite:
  assumes "NewMasterCollector docker net devices cfg = Return mc" shows "master_finite mc"
proof -
  have d: "int64_range (dur_seconds n)" for n by (simp add: dur_seconds_def)
  have net: "network_finite (fst (NewNetworkCollector net s))" for s
    by (simp add: NewNetworkCollector_def network_startBackgroundCollection_def)
      (rule network_turn_finite, simp add: network_finite_def)
  have "collectors_finite (mc_collectors mc) \<and> q_items (mc_metricsQueue mc) = []"
    using assms d net
    by (auto simp: NewMasterCollector_def NewQueue_def AddCollector_def Let_def collectors_finite_def
        NewCPUCollector_def cpu_startBackgroundCollection_def cpu_finite_def
        NewMemoryCollector_def memory_startBackgroundCollection_def memory_inv_def memory_finite_def
        json_MemoryMetrics_def zero_MemoryMetrics_def
        NewDiskCollector_def disk_startBackgroundCollection_def disk_inv_def disk_finite_def
        NewContainerCollector_def container_startBackgroundCollection_def container_inv_def container_finite_def
        NewProcessCollector_def process_startBackgroundCollection_def process_inv_def process_finite_def
        NewServiceCollector_def service_startBackgroundCollection_def service_inv_def service_finite_def
        split: option.splits)
  then show ?thesis using assms NewMasterCollector_inv [of docker net devices cfg] by (auto simp: master_finite_def)
qed

section \<open>Property\<close>

text \<open>
  C5. No metric is lost to its encoding. From a new master collector, after any sequence of ticks,
  background refreshes of any collectors and pops, every metric in the queue is one that the
  connected sender goes on to write, provided that what the system reported were finite numbers:
  no rate, percentage or usage that the collectors compute, or keep in a cache, is infinite or a NaN.
\<close>

theorem every_metric_sendable:
  assumes "NewMasterCollector docker net devices cfg = Return mc0"
    and "list_all event_finite es" "monitor_run es mc0 = Return mc" "ds_isConnected ds"
  shows "list_all (\<lambda>m. sendMetrics_check ds m = SendWrite (json_SystemMetrics m)) (q_items (GetDataQueue mc))"
  using monitor_run_finite [OF assms(2) NewMasterCollector_finite [OF assms(1)] assms(3)] assms(4)
  by (simp add: master_finite_def GetDataQueue_def sendMetrics_check_eq list_all_iff)

lemma sample_cpu_floats: "f64_finite (getFloatValueSafely (parse_lscpu ''L2 cache: 1.3 MiB'') key)"
proof -
  have "split_on (char_of (10 :: nat)) ''L2 cache: 1.3 MiB'' = [''L2 cache: 1.3 MiB'']"
    "split_on (CHR '':'') ''L2 cache: 1.3 MiB'' = [''L2 cache'', '' 1.3 MiB'']"
    "trim_space ''L2 cache'' = ''L2 cache''"
    "\<not> str_contains ''Model name'' ''L2 cache''" "\<not> str_contains ''L1d cache'' ''L2 cache''"
    "str_contains ''L2 cache'' ''L2 cache''"
    by code_simp+
  then show ?thesis by (simp add: getFloatValueSafely_def parse_lscpu_def lscpu_line_def Let_def)
qed

lemma sample_env_finite: "env_finite sample_collect_env"
proof -
  have "cpu_env_finite (ae_cpu sample_collect_env)"
    using sample_cpu_floats
    by (auto simp: cpu_env_finite_def sample_collect_env_def sample_cpu_env_def getCPUDetailedInfo_def)
  moreover have "memory_env_finite (ae_memory sample_collect_env)"
    by (auto simp: memory_env_finite_def sample_collect_env_def sample_memory_env_def)
  moreover have "disk_env_finite (ae_disk sample_collect_env)"
    by (auto simp: disk_env_finite_def sample_collect_env_def sample_disk_env_def)
  moreover have "container_env_finite (ae_container sample_collect_env)"
    using sample_parse
    by (auto simp: container_env_finite_def sample_collect_env_def sample_container_env_def sample_stats_def slice_len_def)
  moreover have "process_env_finite (ae_process sample_collect_env)"
    by (auto simp: process_env_finite_def sample_collect_env_def sample_process_env_def)
  ultimately show ?thesis by (simp add: env_finite_def sample_collect_env_def)
qed

lemma every_metric_sendable_witness:
  "\<exists>mc m. monitor_run [MonTick sample_collect_env, MonRefresh ''network'' sample_collect_env sample_network_env] sample_master
       = Return mc \<and> q_items (GetDataQueue mc) = [m]
     \<and> sendMetrics_check ((NewDataSender \<lparr>srv_Address = ''h'', srv_Port = 1\<rparr> ''k'')\<lparr>ds_isConnected := True\<rparr>) m = SendWrite (json_SystemMetrics m)"
proof -
  let ?es = "[MonTick sample_collect_env, MonRefresh ''network'' sample_collect_env sample_network_env]"
  have new: "NewMasterCollector (Some sample_error) sample_network_env Map.empty DefaultConfig = Return sample_master"
    using NewMasterCollector_inv [of "Some sample_error" sample_network_env Map.empty DefaultConfig]
    by (auto simp: sample_master_def)
  have q: "q_items (mc_metricsQueue sample_master) = []" "q_size (mc_metricsQueue sample_master) = 100"
    by (simp_all add: sample_master_def NewMasterCollector_def NewQueue_def AddCollector_def Let_def)
  obtain mc1 where t: "master_tick sample_collect_env sample_master = Return mc1"
    using sample_master_collects q by (auto simp: master_tick_def CollectAll_def Let_def Push_newest)
  obtain m where m: "q_items (mc_metricsQueue mc1) = [m]" "master_inv mc1"
    using master_tick_result [OF sample_master_inv t] by (auto simp: q newest_def)
  obtain cs where "refresh_named sample_collect_env sample_network_env ''network'' (mc_collectors mc1) = Return cs"
    using m(2) by (auto simp: master_inv_def categories_def Cons_eq_map_conv elim!: category.elims)
  then have run: "monitor_run ?es sample_master = Return (mc1\<lparr>mc_collectors := cs\<rparr>)" using t by simp
  have "list_all event_finite ?es" using sample_env_finite by (simp add: sample_collect_env_def)
  from every_metric_sendable [OF new this run, of "(NewDataSender \<lparr>srv_Address = ''h'', srv_Port = 1\<rparr> ''k'')\<lparr>ds_isConnected := True\<rparr>"]
  show ?thesis using run m(1)
    by (intro exI [of _ "mc1\<lparr>mc_collectors := cs\<rparr>"] exI [of _ m]) (simp add: GetDataQueue_def del: monitor_run.simps)
qed

end
