(* ===== verification/System_Client.thy ===== *)
theory System_Client
  imports Metric_Json
begin

text \<open>
  The system client of \<open>internal/network/client/system_client.go\<close>: its operations, and the program
  they set going, in which the main goroutine, the collecting, the sending and the receiving goroutine
  and the collectors' background goroutines interleave at their accesses to shared state.
\<close>

section \<open>Operations\<close>

record SystemClient =
  cl_serverInfo :: ServerInfo
  cl_systemKey :: string
  cl_userID :: string
  cl_collectionInterval :: int64
  cl_sendingInterval :: int64
  cl_collectorManager :: "MasterCollector option"
  cl_dataSender :: "DataSender option"
  cl_isDisconnected :: bool

definition NewSystemClient :: "ServerInfo \<Rightarrow> string \<Rightarrow> int64 \<Rightarrow> int64 \<Rightarrow> string \<Rightarrow> SystemClient" where
  "NewSystemClient serverInfo systemKey collectionInterval sendingInterval userID =
     \<lparr>cl_serverInfo = serverInfo, cl_systemKey = systemKey, cl_userID = userID,
      cl_collectionInterval = collectionInterval, cl_sendingInterval = sendingInterval,
      cl_collectorManager = None, cl_dataSender = None, cl_isDisconnected = False\<rparr>"

text \<open>\<open>cfg\<close> is the configuration, or \<open>None\<close> for a value of another type.\<close>

definition Initialize ::
  "go_error option \<Rightarrow> network_env \<Rightarrow> device_cache \<Rightarrow> Config option \<Rightarrow> SystemClient
   \<Rightarrow> (go_error option \<times> SystemClient) outcome" where
  "Initialize docker net devices cfg c =
     (case cfg of
        None \<Rightarrow> Return (Some (ErrNew ''wrong configuration type''), c)
      | Some configData \<Rightarrow>
          obind (NewMasterCollector docker net devices configData) (\<lambda>mc. Return
            (None, c\<lparr>cl_collectorManager := Some mc,
                     cl_dataSender := Some (NewDataSender (cl_serverInfo c) (cl_userID c))\<rparr>)))"

text \<open>
  The goroutines that \<open>Connect\<close> starts: the collecting one always, with its interval, and those of the
  data sender. A receiver that is nil is a panic.
\<close>

datatype collecting_pc = CollectStart int64 | Collecting

record started =
  go_collecting :: collecting_pc
  go_receiving :: "receiver_pc option"
  go_sending :: "sender_pc option"

definition client_Connect ::
  "(string \<Rightarrow> string \<Rightarrow> go_error option) \<Rightarrow> SystemClient \<Rightarrow> (bool \<times> started \<times> SystemClient) outcome" where
  "client_Connect dial c =
     (case (cl_collectorManager c, cl_dataSender c) of
        (Some mc, Some ds) \<Rightarrow>
          let collecting = CollectStart (cl_collectionInterval c)
          in (case sender_Connect dial ds of
                (True, ds1) \<Rightarrow>
                  (case StartSending (cl_sendingInterval c) ds1 of (sending, ds2) \<Rightarrow>
                     Return (True, \<lparr>go_collecting = collecting, go_receiving = Some RecvSelect, go_sending = sending\<rparr>,
                             c\<lparr>cl_dataSender := Some ds2\<rparr>))
              | (False, ds1) \<Rightarrow>
                  Return (False, \<lparr>go_collecting = collecting, go_receiving = None, go_sending = None\<rparr>, c))
      | _ \<Rightarrow> Panic NilDereference)"

definition client_Disconnect :: "SystemClient \<Rightarrow> SystemClient outcome" where
  "client_Disconnect c =
     (if cl_isDisconnected c then Return c
      else
        let c1 = c\<lparr>cl_isDisconnected := True, cl_collectorManager := map_option Stop (cl_collectorManager c)\<rparr>
        in (case cl_dataSender c of
              None \<Rightarrow> Return c1
            | Some ds \<Rightarrow>
                obind (StopSending ds) (\<lambda>ds1. obind (sender_Disconnect ds1) (\<lambda>ds2.
                  Return (c1\<lparr>cl_dataSender := Some ds2\<rparr>)))))"

definition client_IsConnected :: "SystemClient \<Rightarrow> bool" where
  "client_IsConnected c = (case cl_dataSender c of None \<Rightarrow> False | Some ds \<Rightarrow> sender_IsConnected ds)"

section \<open>The running program\<close>

text \<open>
  The main goroutine runs \<open>Connect\<close> and, on a signal, \<open>Disconnect\<close>. Its calls are separate steps, and
  the body of the sender's \<open>Disconnect\<close>, which the receiving goroutine can run against, is cut as in
  \<open>Data_Sender\<close>; while the main goroutine is inside it, it holds the mutex.
\<close>

datatype main_pc =
    MainNew
  | MainDial
  | MainFailed
  | MainConnected
  | MainServing
  | MainStopped
  | MainSignal
  | MainClose
  | MainStore
  | MainDone

definition holds_mutex :: "main_pc \<Rightarrow> bool" where
  "holds_mutex pc \<longleftrightarrow> pc \<in> {MainSignal, MainClose, MainStore}"

text \<open>
  Every goroutine is at the point its program counter says. The queue is the master collector's.
  \<open>rs_tick\<close> is the pending tick of the sending ticker, whose channel holds one, and \<open>rs_sent\<close> what the
  library took for the server.
\<close>

record running =
  rs_mc :: MasterCollector
  rs_ds :: DataSender
  rs_collectionInterval :: int64
  rs_sendingInterval :: int64
  rs_main :: main_pc
  rs_collector :: "collecting_pc option"
  rs_background :: "string \<Rightarrow> background_pc"
  rs_sender :: "sender_pc option"
  rs_receiver :: "receiver_pc option"
  rs_tick :: bool
  rs_sent :: "json list"

datatype run_event =
    EvStartCollecting
  | EvDial "go_error option"
  | EvStart
  | EvStop
  | EvDisconnect
  | EvSignal
  | EvClose
  | EvStore
  | EvCollectStart
  | EvTick collect_env
  | EvBackground string collect_env network_env bool
  | EvSendStart
  | EvTicker
  | EvSelectDone
  | EvSelectTick
  | EvCheck
  | EvWrite "go_error option"
  | EvRecvSelect
  | EvRecvTest
  | EvRecvDeref
  | EvRecv "go_error + json option"
  | EvRecvFailed

text \<open>What an event does where it can happen; \<open>None\<close> where it cannot.\<close>

fun run_step :: "run_event \<Rightarrow> running \<Rightarrow> running outcome option" where
  "run_step EvStartCollecting s =
     (if rs_main s \<noteq> MainNew then None
      else Some (Return (s\<lparr>rs_collector := Some (CollectStart (rs_collectionInterval s)), rs_main := MainDial\<rparr>)))"
| "run_step (EvDial r) s =
     (if rs_main s \<noteq> MainDial then None
      else (case sender_Connect (\<lambda>h p. r) (rs_ds s) of
              (True, ds) \<Rightarrow> Some (Return (s\<lparr>rs_ds := ds, rs_main := MainConnected, rs_receiver := Some RecvSelect\<rparr>))
            | (False, ds) \<Rightarrow> Some (Return (s\<lparr>rs_ds := ds, rs_main := MainFailed\<rparr>))))"
| "run_step EvStart s =
     (if rs_main s \<noteq> MainConnected then None
      else (case StartSending (rs_sendingInterval s) (rs_ds s) of (started, ds) \<Rightarrow>
              Some (Return (s\<lparr>rs_ds := ds, rs_main := MainServing,
                rs_sender := (case started of None \<Rightarrow> rs_sender s | Some pc \<Rightarrow> Some pc)\<rparr>))))"
| "run_step EvStop s =
     (if rs_main s \<noteq> MainServing then None
      else Some (obind (StopSending (rs_ds s)) (\<lambda>ds. Return
             (s\<lparr>rs_ds := ds, rs_mc := Stop (rs_mc s), rs_main := MainStopped\<rparr>))))"
| "run_step EvDisconnect s =
     (if rs_main s \<noteq> MainStopped then None
      else Some (Return (s\<lparr>rs_main := (if ds_isConnected (rs_ds s) then MainSignal else MainDone)\<rparr>)))"
| "run_step EvSignal s =
     (if rs_main s \<noteq> MainSignal then None
      else Some (obind (disconnect_signal (rs_ds s)) (\<lambda>ds. Return (s\<lparr>rs_ds := ds, rs_main := MainClose\<rparr>))))"
| "run_step EvClose s =
     (if rs_main s \<noteq> MainClose then None
      else Some (Return (s\<lparr>rs_ds := disconnect_close (rs_ds s), rs_main := MainStore\<rparr>)))"
| "run_step EvStore s =
     (if rs_main s \<noteq> MainStore then None
      else Some (Return (s\<lparr>rs_ds := disconnect_store (rs_ds s), rs_main := MainDone\<rparr>)))"
| "run_step EvCollectStart s =
     (case rs_collector s of
        Some (CollectStart n) \<Rightarrow>
          Some (obind (new_ticker (dur_seconds n)) (\<lambda>_. Return (s\<lparr>rs_collector := Some Collecting\<rparr>)))
      | _ \<Rightarrow> None)"
| "run_step (EvTick env) s =
     (if rs_collector s \<noteq> Some Collecting then None
      else Some (obind (master_tick env (rs_mc s)) (\<lambda>mc. Return (s\<lparr>rs_mc := mc\<rparr>))))"
| "run_step (EvBackground name env net ticker_panic_is_error) s =
     (case map_of (mc_collectors (rs_mc s)) name of
        None \<Rightarrow> None
      | Some c \<Rightarrow>
          map_option (\<lambda>r. obind r (\<lambda>(pc, c'). Return
              (s\<lparr>rs_background := (rs_background s)(name := pc),
                 rs_mc := (rs_mc s)\<lparr>mc_collectors := put_entry name c' (mc_collectors (rs_mc s))\<rparr>\<rparr>)))
            (background_step env net ticker_panic_is_error (rs_background s name) c))"
| "run_step EvSendStart s =
     (case rs_sender s of
        Some (SendStart n) \<Rightarrow> Some (obind (sendLoop_start n) (\<lambda>pc. Return (s\<lparr>rs_sender := Some pc\<rparr>)))
      | _ \<Rightarrow> None)"
| "run_step EvTicker s =
     (case rs_sender s of
        None \<Rightarrow> None
      | Some (SendStart n) \<Rightarrow> None
      | Some SendEnded \<Rightarrow> None
      | Some pc \<Rightarrow> Some (Return (s\<lparr>rs_tick := True\<rparr>)))"
| "run_step EvSelectDone s =
     (if rs_sender s = Some SendSelect \<and> ds_senderDone (rs_ds s)
      then Some (Return (s\<lparr>rs_sender := Some SendEnded\<rparr>)) else None)"
| "run_step EvSelectTick s =
     (if rs_sender s = Some SendSelect \<and> rs_tick s then
        (case sendLoop_tick (GetDataQueue (rs_mc s)) of (pc, q) \<Rightarrow>
           Some (Return (s\<lparr>rs_sender := Some pc, rs_mc := (rs_mc s)\<lparr>mc_metricsQueue := q\<rparr>, rs_tick := False\<rparr>)))
      else None)"
| "run_step EvCheck s =
     (case rs_sender s of
        Some (SendPopped m) \<Rightarrow> Some (Return (s\<lparr>rs_sender := Some (sendMetrics_check (rs_ds s) m)\<rparr>))
      | _ \<Rightarrow> None)"
| "run_step (EvWrite r) s =
     (case rs_sender s of
        Some (SendWrite j) \<Rightarrow>
          if holds_mutex (rs_main s) then None
          else Some (obind (sendMetrics_write r (rs_ds s)) (\<lambda>ok. Return
            (s\<lparr>rs_sender := Some SendSelect, rs_sent := (if ok then rs_sent s @ [j] else rs_sent s)\<rparr>)))
      | _ \<Rightarrow> None)"
| "run_step EvRecvSelect s =
     (if rs_receiver s = Some RecvSelect then Some (Return (s\<lparr>rs_receiver := Some (receive_select (rs_ds s))\<rparr>))
      else None)"
| "run_step EvRecvTest s =
     (if rs_receiver s = Some RecvTest then Some (Return (s\<lparr>rs_receiver := Some (receive_test (rs_ds s))\<rparr>))
      else None)"
| "run_step EvRecvDeref s =
     (if rs_receiver s = Some RecvDeref then
        Some (obind (receive_deref (rs_ds s)) (\<lambda>pc. Return (s\<lparr>rs_receiver := Some pc\<rparr>)))
      else None)"
| "run_step (EvRecv r) s =
     (if rs_receiver s = Some RecvRead then
        (case receive_message r of (pc, h) \<Rightarrow> Some (Return (s\<lparr>rs_receiver := Some pc\<rparr>)))
      else None)"
| "run_step EvRecvFailed s =
     (if rs_receiver s = Some RecvFailed then
        (case receive_failed (rs_ds s) of (pc, ds) \<Rightarrow> Some (Return (s\<lparr>rs_receiver := Some pc, rs_ds := ds\<rparr>)))
      else None)"

text \<open>A panic in any goroutine ends the program, so it can only be the last event.\<close>

fun run_program :: "run_event list \<Rightarrow> running \<Rightarrow> running outcome option" where
  "run_program [] s = Some (Return s)"
| "run_program (e # es) s =
     (case run_step e s of
        None \<Rightarrow> None
      | Some (Return s') \<Rightarrow> run_program es s'
      | Some r \<Rightarrow> if es = [] then Some r else None)"

text \<open>
  The program after \<open>Initialize\<close>, where the background goroutines have been started; without a master
  collector or a sender there is no program to run.
\<close>

definition running_of :: "SystemClient \<Rightarrow> running option" where
  "running_of c =
     (case (cl_collectorManager c, cl_dataSender c) of
        (Some mc, Some ds) \<Rightarrow> Some
          \<lparr>rs_mc = mc, rs_ds = ds, rs_collectionInterval = cl_collectionInterval c,
           rs_sendingInterval = cl_sendingInterval c, rs_main = MainNew, rs_collector = None,
           rs_background = (\<lambda>name. case map_of (mc_collectors mc) name of
              None \<Rightarrow> BgEnded | Some k \<Rightarrow> background_start k),
           rs_sender = None, rs_receiver = None, rs_tick = False, rs_sent = []\<rparr>
      | _ \<Rightarrow> None)"

section \<open>Lemmas\<close>

text \<open>A step that returns, by the event.\<close>

lemma run_program_Cons:
  "run_program (e # es) s = Some (Return s'') \<longleftrightarrow>
     (\<exists>s'. run_step e s = Some (Return s') \<and> run_program es s' = Some (Return s''))"
  by (auto split: option.splits outcome.splits if_splits)

lemma run_program_append:
  "run_program (es @ es') s = Some (Return s'') \<longleftrightarrow>
     (\<exists>s'. run_program es s = Some (Return s') \<and> run_program es' s' = Some (Return s''))"
proof (induction es arbitrary: s)
  case (Cons e es)
  then show ?case unfolding append_Cons run_program_Cons by blast
qed simp

lemma run_program_trans:
  "run_program es s = Some (Return s1) \<Longrightarrow> run_program es' s1 = Some (Return s2) \<Longrightarrow>
   run_program (es @ es') s = Some (Return s2)"
  using run_program_append by blast

lemma run_program_invariant:
  assumes "run_program es s = Some (Return s')" "P s"
    and "\<And>e s s'. P s \<Longrightarrow> run_step e s = Some (Return s') \<Longrightarrow> P s'"
  shows "P s'"
  using assms(1,2)
proof (induction es arbitrary: s)
  case (Cons e es)
  then obtain s1 where "run_step e s = Some (Return s1)" "run_program es s1 = Some (Return s')"
    unfolding run_program_Cons by blast
  with Cons assms(3) show ?case by blast
qed simp

lemma run_program_Panic:
  "run_program es s = Some (Panic p) \<Longrightarrow>
   \<exists>es' e s'. es = es' @ [e] \<and> run_program es' s = Some (Return s') \<and> run_step e s' = Some (Panic p)"
proof (induction es arbitrary: s)
  case (Cons e es)
  show ?case
  proof (cases "run_step e s")
    case (Some r)
    show ?thesis
    proof (cases r)
      case (Return s1)
      with Some Cons.prems have "run_program es s1 = Some (Panic p)" by simp
      from Cons.IH [OF this] obtain es' f s2 where "es = es' @ [f]" "run_program es' s1 = Some (Return s2)"
        "run_step f s2 = Some (Panic p)" by blast
      then show ?thesis using Some Return by (intro exI [of _ "e # es'"] exI [of _ f] exI [of _ s2]) simp
    next
      case (Panic p')
      with Some Cons.prems have "es = []" "p' = p" by (auto split: if_splits)
      then show ?thesis using Some Panic by (intro exI [of _ "[]"] exI [of _ e] exI [of _ s]) simp
    qed (use Some Cons.prems in \<open>auto split: if_splits\<close>)
  qed (use Cons.prems in simp)
qed simp

text \<open>What each event requires and what it leads to, when it returns.\<close>

lemma step_start_collecting: "run_step EvStartCollecting s = Some (Return s') \<longleftrightarrow> rs_main s = MainNew \<and>
    s' = s\<lparr>rs_collector := Some (CollectStart (rs_collectionInterval s)), rs_main := MainDial\<rparr>"
  by auto

lemma step_dial: "run_step (EvDial r) s = Some (Return s') \<longleftrightarrow> rs_main s = MainDial \<and>
    s' = (case r of
        Some err \<Rightarrow> s\<lparr>rs_main := MainFailed\<rparr>
      | None \<Rightarrow> s\<lparr>rs_ds := (rs_ds s)\<lparr>ds_conn := True, ds_isConnected := True\<rparr>, rs_main := MainConnected,
                 rs_receiver := Some RecvSelect\<rparr>)"
  by (auto simp: sender_Connect_def split: option.splits)

lemma step_start: "run_step EvStart s = Some (Return s') \<longleftrightarrow> rs_main s = MainConnected \<and>
    s' = (if ds_running (rs_ds s) then s\<lparr>rs_main := MainServing\<rparr>
          else s\<lparr>rs_ds := (rs_ds s)\<lparr>ds_running := True\<rparr>, rs_main := MainServing,
                 rs_sender := Some (SendStart (rs_sendingInterval s))\<rparr>)"
  by (auto simp: StartSending_def)

lemma step_stop: "run_step EvStop s = Some (Return s') \<longleftrightarrow> rs_main s = MainServing \<and>
    \<not> (ds_running (rs_ds s) \<and> ds_senderDone (rs_ds s)) \<and>
    s' = s\<lparr>rs_ds := (if ds_running (rs_ds s) then (rs_ds s)\<lparr>ds_running := False, ds_senderDone := True\<rparr> else rs_ds s),
           rs_main := MainStopped\<rparr>"
  by (cases "ds_senderDone (rs_ds s)") (auto simp: StopSending_def go_close_def Stop_def)

lemma step_disconnect: "run_step EvDisconnect s = Some (Return s') \<longleftrightarrow> rs_main s = MainStopped \<and>
    s' = s\<lparr>rs_main := (if ds_isConnected (rs_ds s) then MainSignal else MainDone)\<rparr>"
  by auto

lemma step_signal: "run_step EvSignal s = Some (Return s') \<longleftrightarrow> rs_main s = MainSignal \<and> \<not> ds_clientDone (rs_ds s) \<and>
    s' = s\<lparr>rs_ds := (rs_ds s)\<lparr>ds_clientDone := True\<rparr>, rs_main := MainClose\<rparr>"
  by (auto simp: disconnect_signal_def go_close_def)

lemma step_close: "run_step EvClose s = Some (Return s') \<longleftrightarrow> rs_main s = MainClose \<and>
    s' = s\<lparr>rs_ds := (rs_ds s)\<lparr>ds_conn := False\<rparr>, rs_main := MainStore\<rparr>"
  by (auto simp: disconnect_close_def)

lemma step_store_flag: "run_step EvStore s = Some (Return s') \<longleftrightarrow> rs_main s = MainStore \<and>
    s' = s\<lparr>rs_ds := (rs_ds s)\<lparr>ds_isConnected := False\<rparr>, rs_main := MainDone\<rparr>"
  by (auto simp: disconnect_store_def)

lemma step_collect_start: "run_step EvCollectStart s = Some (Return s') \<longleftrightarrow>
    (\<exists>n. rs_collector s = Some (CollectStart n) \<and> 0 < dur_seconds n) \<and> s' = s\<lparr>rs_collector := Some Collecting\<rparr>"
  by (auto simp: new_ticker_def split: option.splits collecting_pc.splits if_splits)

lemma step_collect: "run_step (EvTick env) s = Some (Return s') \<longleftrightarrow> rs_collector s = Some Collecting \<and>
    (\<exists>mc. master_tick env (rs_mc s) = Return mc \<and> s' = s\<lparr>rs_mc := mc\<rparr>)"
  by auto

lemma step_background: "run_step (EvBackground name env net err) s = Some (Return s') \<longleftrightarrow>
    (\<exists>c pc c'. map_of (mc_collectors (rs_mc s)) name = Some c
       \<and> background_step env net err (rs_background s name) c = Some (Return (pc, c'))
       \<and> s' = s\<lparr>rs_background := (rs_background s)(name := pc),
                 rs_mc := (rs_mc s)\<lparr>mc_collectors := put_entry name c' (mc_collectors (rs_mc s))\<rparr>\<rparr>)"
  by (auto split: option.splits)

lemma step_send_start: "run_step EvSendStart s = Some (Return s') \<longleftrightarrow>
    (\<exists>n. rs_sender s = Some (SendStart n) \<and> 0 < dur_seconds n) \<and> s' = s\<lparr>rs_sender := Some SendSelect\<rparr>"
  by (auto simp: sendLoop_start_def new_ticker_def split: option.splits sender_pc.splits if_splits)

definition sending :: "running \<Rightarrow> bool" where
  "sending s \<longleftrightarrow> rs_sender s \<noteq> None \<and> rs_sender s \<noteq> Some SendEnded \<and> (\<forall>n. rs_sender s \<noteq> Some (SendStart n))"

lemma step_ticker: "run_step EvTicker s = Some (Return s') \<longleftrightarrow> sending s \<and> s' = s\<lparr>rs_tick := True\<rparr>"
  by (auto simp: sending_def split: option.splits sender_pc.splits)

lemma step_done: "run_step EvSelectDone s = Some (Return s') \<longleftrightarrow>
    rs_sender s = Some SendSelect \<and> ds_senderDone (rs_ds s) \<and> s' = s\<lparr>rs_sender := Some SendEnded\<rparr>"
  by auto

definition pop_queue :: "MasterCollector \<Rightarrow> MasterCollector" where
  "pop_queue mc = mc\<lparr>mc_metricsQueue := (mc_metricsQueue mc)\<lparr>q_items := tl (q_items (mc_metricsQueue mc))\<rparr>\<rparr>"

lemma step_tick: "run_step EvSelectTick s = Some (Return s') \<longleftrightarrow> rs_sender s = Some SendSelect \<and> rs_tick s \<and>
    s' = s\<lparr>rs_sender := Some (case q_items (GetDataQueue (rs_mc s)) of [] \<Rightarrow> SendSelect | m # ms \<Rightarrow> SendPopped m),
           rs_mc := pop_queue (rs_mc s), rs_tick := False\<rparr>"
  by (cases "q_items (mc_metricsQueue (rs_mc s))")
    (auto simp: sendLoop_tick_def TryPop_eq GetDataQueue_def pop_queue_def)

lemma step_check: "run_step EvCheck s = Some (Return s') \<longleftrightarrow> (\<exists>m. rs_sender s = Some (SendPopped m) \<and>
    s' = s\<lparr>rs_sender := Some (if ds_isConnected (rs_ds s) \<and> json_ok (json_SystemMetrics m)
                              then SendWrite (json_SystemMetrics m) else SendSelect)\<rparr>)"
  by (auto simp: sendMetrics_check_eq split: option.splits sender_pc.splits)

lemma step_write: "run_step (EvWrite r) s = Some (Return s') \<longleftrightarrow>
    (\<exists>j. rs_sender s = Some (SendWrite j) \<and> \<not> holds_mutex (rs_main s) \<and> ds_conn (rs_ds s) \<and>
       s' = s\<lparr>rs_sender := Some SendSelect, rs_sent := (if r = None then rs_sent s @ [j] else rs_sent s)\<rparr>)"
  by (auto simp: sendMetrics_write_def split: option.splits sender_pc.splits if_splits)

lemma step_recv_select: "run_step EvRecvSelect s = Some (Return s') \<longleftrightarrow>
    rs_receiver s = Some RecvSelect \<and> s' = s\<lparr>rs_receiver := Some (if ds_clientDone (rs_ds s) then RecvEnded else RecvTest)\<rparr>"
  by (auto simp: receive_select_def)

lemma step_recv_test: "run_step EvRecvTest s = Some (Return s') \<longleftrightarrow>
    rs_receiver s = Some RecvTest \<and> s' = s\<lparr>rs_receiver := Some (if ds_conn (rs_ds s) then RecvDeref else RecvSelect)\<rparr>"
  by (auto simp: receive_test_def)

lemma step_recv_deref: "run_step EvRecvDeref s = Some (Return s') \<longleftrightarrow>
    rs_receiver s = Some RecvDeref \<and> ds_conn (rs_ds s) \<and> s' = s\<lparr>rs_receiver := Some RecvRead\<rparr>"
  by (auto simp: receive_deref_def)

lemma step_recv: "run_step (EvRecv r) s = Some (Return s') \<longleftrightarrow> rs_receiver s = Some RecvRead \<and>
    s' = s\<lparr>rs_receiver := Some (case r of Inl err \<Rightarrow> RecvFailed | Inr msg \<Rightarrow> RecvSelect)\<rparr>"
  by (auto simp: receive_message_def split: sum.splits)

lemma step_recv_failed: "run_step EvRecvFailed s = Some (Return s') \<longleftrightarrow> rs_receiver s = Some RecvFailed \<and>
    s' = s\<lparr>rs_receiver := Some RecvEnded, rs_ds := (rs_ds s)\<lparr>ds_isConnected := False\<rparr>\<rparr>"
  by (auto simp: receive_failed_def)

lemmas main_steps = step_start_collecting step_dial step_start step_stop step_disconnect step_signal step_close
  step_store_flag

lemmas step_returns = main_steps step_collect_start step_collect step_background step_send_start step_ticker
  step_done step_tick step_check step_write step_recv_select step_recv_test step_recv_deref step_recv step_recv_failed

declare run_step.simps [simp del]

text \<open>Where the main goroutine is decides what is open and which goroutines exist.\<close>

fun main_state :: "main_pc \<Rightarrow> running \<Rightarrow> bool" where
  "main_state MainNew s = (\<not> ds_conn (rs_ds s) \<and> \<not> ds_isConnected (rs_ds s) \<and> \<not> ds_running (rs_ds s) \<and> \<not> ds_senderDone (rs_ds s)
     \<and> \<not> ds_clientDone (rs_ds s) \<and> rs_sender s = None \<and> rs_receiver s = None \<and> rs_collector s = None)"
| "main_state MainDial s = (\<not> ds_conn (rs_ds s) \<and> \<not> ds_isConnected (rs_ds s) \<and> \<not> ds_running (rs_ds s) \<and> \<not> ds_senderDone (rs_ds s)
     \<and> \<not> ds_clientDone (rs_ds s) \<and> rs_sender s = None \<and> rs_receiver s = None)"
| "main_state MainFailed s = (\<not> ds_isConnected (rs_ds s) \<and> \<not> ds_senderDone (rs_ds s) \<and> rs_sender s = None \<and> rs_receiver s = None)"
| "main_state MainConnected s = (ds_conn (rs_ds s) \<and> \<not> ds_running (rs_ds s) \<and> \<not> ds_senderDone (rs_ds s)
     \<and> \<not> ds_clientDone (rs_ds s) \<and> rs_sender s = None)"
| "main_state MainServing s = (ds_conn (rs_ds s) \<and> ds_running (rs_ds s) \<and> \<not> ds_senderDone (rs_ds s)
     \<and> \<not> ds_clientDone (rs_ds s))"
| "main_state MainStopped s = (ds_conn (rs_ds s) \<and> \<not> ds_running (rs_ds s) \<and> ds_senderDone (rs_ds s)
     \<and> \<not> ds_clientDone (rs_ds s))"
| "main_state MainSignal s = (ds_conn (rs_ds s) \<and> ds_senderDone (rs_ds s) \<and> \<not> ds_clientDone (rs_ds s))"
| "main_state MainClose s = (ds_conn (rs_ds s) \<and> ds_senderDone (rs_ds s))"
| "main_state MainStore s = ds_senderDone (rs_ds s)"
| "main_state MainDone s = (ds_senderDone (rs_ds s) \<and> \<not> ds_isConnected (rs_ds s))"

definition run_inv :: "running \<Rightarrow> bool" where
  "run_inv s \<longleftrightarrow> main_state (rs_main s) s \<and> master_inv (rs_mc s)
     \<and> (\<forall>n. rs_collector s = Some (CollectStart n) \<longrightarrow> n = rs_collectionInterval s)
     \<and> (\<forall>n. rs_sender s = Some (SendStart n) \<longrightarrow> n = rs_sendingInterval s \<and> \<not> rs_tick s)
     \<and> (rs_sender s = None \<longrightarrow> \<not> rs_tick s)"

lemma pop_queue_inv: "master_inv mc \<Longrightarrow> master_inv (pop_queue mc)"
  by (auto simp: master_inv_def pop_queue_def)

lemma background_inv:
  assumes "master_inv mc" "map_of (mc_collectors mc) name = Some c" "category c' = category c"
  shows "master_inv (mc\<lparr>mc_collectors := put_entry name c' (mc_collectors mc)\<rparr>)"
  using assms(1) map_of_put [OF assms(2,3)] by (simp add: master_inv_def)

lemma run_step_inv:
  assumes "run_inv s" "run_step e s = Some (Return s')" shows "run_inv s'"
proof (cases e)
  case (EvTick env)
  then obtain mc where mc: "master_tick env (rs_mc s) = Return mc" "s' = s\<lparr>rs_mc := mc\<rparr>"
    using assms(2) by (auto simp: step_returns)
  have "master_inv mc" using master_tick_result [OF _ mc(1)] assms(1) by (auto simp: run_inv_def)
  then show ?thesis using assms(1) by (cases "rs_main s") (simp_all add: run_inv_def mc(2))
next
  case (EvBackground name env net err)
  then obtain c pc c' where c: "map_of (mc_collectors (rs_mc s)) name = Some c"
    "background_step env net err (rs_background s name) c = Some (Return (pc, c'))"
    and s': "s' = s\<lparr>rs_background := (rs_background s)(name := pc),
                 rs_mc := (rs_mc s)\<lparr>mc_collectors := put_entry name c' (mc_collectors (rs_mc s))\<rparr>\<rparr>"
    using assms(2) by (auto simp: step_returns)
  have "master_inv ((rs_mc s)\<lparr>mc_collectors := put_entry name c' (mc_collectors (rs_mc s))\<rparr>)"
    using background_inv [OF _ c(1) background_step_category [OF c(2)]] assms(1) by (simp add: run_inv_def)
  then show ?thesis using assms(1) by (cases "rs_main s") (simp_all add: run_inv_def s')
next
  case EvSelectTick
  then show ?thesis using assms pop_queue_inv [of "rs_mc s"]
    by (cases "rs_main s"; cases "q_items (GetDataQueue (rs_mc s))") (auto simp: run_inv_def step_returns)
qed (use assms in \<open>simp only: step_returns; elim conjE exE; hypsubst?; cases "rs_main s";
    auto simp: run_inv_def sending_def split: sum.split option.split if_split\<close>)+

text \<open>The program of an initialised client.\<close>

lemma Initialize_running:
  assumes "Initialize docker net devices cfg c = Return (None, c')" "running_of c' = Some s"
  obtains config where "cfg = Some config" "NewMasterCollector docker net devices config = Return (rs_mc s)"
    "run_inv s" "rs_sent s = []" "rs_sender s = None" "rs_main s = MainNew" "q_items (GetDataQueue (rs_mc s)) = []"
    "rs_collectionInterval s = cl_collectionInterval c" "rs_sendingInterval s = cl_sendingInterval c"
    "rs_ds s = NewDataSender (cl_serverInfo c) (cl_userID c)"
proof -
  obtain config mc where c: "cfg = Some config" "NewMasterCollector docker net devices config = Return mc"
    "c' = c\<lparr>cl_collectorManager := Some mc, cl_dataSender := Some (NewDataSender (cl_serverInfo c) (cl_userID c))\<rparr>"
    using assms(1) by (auto simp: Initialize_def split: option.splits)
  have "master_inv mc" using NewMasterCollector_inv [of docker net devices config] c(2) by auto
  moreover have "q_items (mc_metricsQueue mc) = []"
    using c(2) by (auto simp: NewMasterCollector_def NewQueue_def AddCollector_def Let_def)
  ultimately show ?thesis using assms(2) c
    by (intro that [of config]) (auto simp: running_of_def run_inv_def NewDataSender_def GetDataQueue_def)
qed

lemma run_program_inv:
  assumes "Initialize docker net devices cfg c = Return (None, c')" "running_of c' = Some s0"
    and "run_program es s0 = Some (Return s)"
  shows "run_inv s"
proof -
  have "run_inv s0" by (rule Initialize_running [OF assms(1,2)])
  then show ?thesis by (rule run_program_invariant [where P = run_inv, OF assms(3)]) (rule run_step_inv)
qed

section \<open>What reaches the server\<close>

text \<open>The metrics that the collecting goroutine got from \<open>CollectAll\<close> in a run.\<close>

definition tick_metrics :: "collect_env \<Rightarrow> MasterCollector \<Rightarrow> SystemMetrics list" where
  "tick_metrics env mc =
     (case CollectAll env (mc_userKey mc) (mc_localKey mc) (mc_externalIP mc) mc of
        Return (Inr m, mc') \<Rightarrow> [m]
      | _ \<Rightarrow> [])"

fun event_metrics :: "run_event \<Rightarrow> running \<Rightarrow> SystemMetrics list" where
  "event_metrics (EvTick env) s = tick_metrics env (rs_mc s)"
| "event_metrics _ s = []"

fun collected :: "run_event list \<Rightarrow> running \<Rightarrow> SystemMetrics list" where
  "collected [] s = []"
| "collected (e # es) s = event_metrics e s @
     (case run_step e s of Some (Return s') \<Rightarrow> collected es s' | _ \<Rightarrow> [])"

text \<open>What was written, what the sender holds and what is queued, in order.\<close>

definition in_flight :: "running \<Rightarrow> json list" where
  "in_flight s =
     (case rs_sender s of
        Some (SendPopped m) \<Rightarrow> [json_SystemMetrics m]
      | Some (SendWrite j) \<Rightarrow> [j]
      | _ \<Rightarrow> [])"

definition pipeline :: "running \<Rightarrow> json list" where
  "pipeline s = rs_sent s @ in_flight s @ map json_SystemMetrics (q_items (GetDataQueue (rs_mc s)))"

lemma subseq_drop_mid: "subseq (xs @ zs) (xs @ y # zs)"
  by (induction xs) auto

lemma subseq_newest: "subseq (newest n xs) xs"
  unfolding newest_def by (metis append_take_drop_id list_emb_append2 subseq_order.order_refl)

lemma master_tick_queue:
  assumes "master_inv mc" "master_tick env mc = Return mc'"
  shows "\<exists>m. tick_metrics env mc = [m] \<and> q_items (GetDataQueue mc') = newest 100 (q_items (GetDataQueue mc) @ [m])
    \<and> sm_USER_ID m = mc_userKey mc \<and> sm_Key m = mc_localKey mc \<and> sm_ExternalIP m = mc_externalIP mc
    \<and> mc_userKey mc' = mc_userKey mc \<and> mc_localKey mc' = mc_localKey mc \<and> mc_externalIP mc' = mc_externalIP mc"
proof -
  have q: "length (q_items (mc_metricsQueue mc)) \<le> 100" "q_size (mc_metricsQueue mc) = 100"
    using assms(1) by (simp_all add: master_inv_def)
  obtain rs cs where "collect_goroutines env (mc_collectors mc) = Return (rs, cs)"
    using assms(2) by (auto simp: master_tick_def CollectAll_def)
  then show ?thesis using assms(2)
    by (auto simp: master_tick_def CollectAll_def Let_def Push_newest [OF q] tick_metrics_def GetDataQueue_def fold_apply_ids)
qed

lemma run_step_pipeline:
  assumes "run_inv s" "run_step e s = Some (Return s')"
  shows "subseq (pipeline s') (pipeline s @ map json_SystemMetrics (event_metrics e s))"
proof (cases e)
  case (EvTick env)
  then obtain mc where mc: "master_tick env (rs_mc s) = Return mc" "s' = s\<lparr>rs_mc := mc\<rparr>"
    using assms(2) by (auto simp: step_returns)
  have "master_inv (rs_mc s)" using assms(1) by (simp add: run_inv_def)
  from master_tick_queue [OF this mc(1)] obtain m where m: "tick_metrics env (rs_mc s) = [m]"
    "q_items (GetDataQueue mc) = newest 100 (q_items (GetDataQueue (rs_mc s)) @ [m])" by blast
  have "subseq (map json_SystemMetrics (q_items (GetDataQueue mc)))
      (map json_SystemMetrics (q_items (GetDataQueue (rs_mc s))) @ [json_SystemMetrics m])"
    using subseq_map [OF subseq_newest [of 100 "q_items (GetDataQueue (rs_mc s)) @ [m]"], of json_SystemMetrics]
    by (simp add: m(2))
  then show ?thesis
    by (simp add: EvTick m(1) mc(2) pipeline_def in_flight_def list_emb_append_mono)
next
  case EvSelectTick
  then show ?thesis using assms(2)
    by (cases "q_items (GetDataQueue (rs_mc s))")
      (auto simp: pipeline_def in_flight_def step_returns pop_queue_def GetDataQueue_def)
next
  case EvCheck
  then obtain m where m: "rs_sender s = Some (SendPopped m)" "s' = s\<lparr>rs_sender :=
      Some (if ds_isConnected (rs_ds s) \<and> json_ok (json_SystemMetrics m) then SendWrite (json_SystemMetrics m)
            else SendSelect)\<rparr>"
    using assms(2) by (auto simp: step_check)
  show ?thesis using EvCheck m(1) by (auto simp: m(2) pipeline_def in_flight_def subseq_drop_mid)
next
  case (EvWrite r)
  then obtain j where "rs_sender s = Some (SendWrite j)"
    "s' = s\<lparr>rs_sender := Some SendSelect, rs_sent := (if r = None then rs_sent s @ [j] else rs_sent s)\<rparr>"
    using assms(2) by (auto simp: step_write)
  then show ?thesis using EvWrite by (auto simp: pipeline_def in_flight_def subseq_drop_mid)
next
  case EvStart
  then have "rs_sender s = None" using assms by (auto simp: run_inv_def step_start)
  then show ?thesis using EvStart assms(2) by (auto simp: pipeline_def in_flight_def step_start)
next
  case EvSendStart
  then show ?thesis using assms(2) by (auto simp: pipeline_def in_flight_def step_send_start)
next
  case EvSelectDone
  then show ?thesis using assms(2) by (auto simp: pipeline_def in_flight_def step_done)
next
  case (EvBackground name env net err)
  then show ?thesis using assms(2) by (auto simp: pipeline_def in_flight_def step_background GetDataQueue_def)
next
  case (EvDial r)
  then show ?thesis using assms(2) by (auto simp: pipeline_def in_flight_def step_dial split: option.splits)
qed (use assms(2) in \<open>simp only: step_returns; elim conjE exE; hypsubst?; simp add: pipeline_def in_flight_def\<close>)+

lemma run_program_pipeline:
  "run_program es s = Some (Return s') \<Longrightarrow> run_inv s \<Longrightarrow>
   subseq (pipeline s') (pipeline s @ map json_SystemMetrics (collected es s))"
proof (induction es arbitrary: s)
  case (Cons e es)
  then obtain s1 where e: "run_step e s = Some (Return s1)" "run_program es s1 = Some (Return s')"
    unfolding run_program_Cons by blast
  have "subseq (pipeline s') (pipeline s1 @ map json_SystemMetrics (collected es s1))"
    by (rule Cons.IH [OF e(2) run_step_inv [OF Cons.prems(2) e(1)]])
  also have "subseq \<dots> ((pipeline s @ map json_SystemMetrics (event_metrics e s)) @ map json_SystemMetrics (collected es s1))"
    by (rule list_emb_append_mono [OF run_step_pipeline [OF Cons.prems(2) e(1)]]) simp
  finally show ?case by (simp add: e(1))
qed simp

text \<open>The identification that every metric carries.\<close>

definition identified :: "MasterCollector \<Rightarrow> SystemMetrics \<Rightarrow> bool" where
  "identified mc m \<longleftrightarrow> sm_USER_ID m = mc_userKey mc \<and> sm_Key m = mc_localKey mc \<and> sm_ExternalIP m = mc_externalIP mc"

lemma run_step_identified:
  assumes "run_inv s" "run_step e s = Some (Return s')"
  shows "identified (rs_mc s') = identified (rs_mc s) \<and> list_all (identified (rs_mc s)) (event_metrics e s)"
proof (cases e)
  case (EvTick env)
  then obtain mc where mc: "master_tick env (rs_mc s) = Return mc" "s' = s\<lparr>rs_mc := mc\<rparr>"
    using assms(2) by (auto simp: step_returns)
  have "master_inv (rs_mc s)" using assms(1) by (simp add: run_inv_def)
  from master_tick_queue [OF this mc(1)] show ?thesis by (auto simp: EvTick mc(2) identified_def fun_eq_iff)
next
  case (EvDial r)
  then show ?thesis using assms(2) by (auto simp: step_dial split: option.splits)
next
  case EvStart
  then show ?thesis using assms(2) by (auto simp: step_start)
next
  case (EvBackground name env net err)
  then show ?thesis using assms(2) by (auto simp: step_background identified_def fun_eq_iff)
next
  case EvSelectTick
  then show ?thesis using assms(2) by (auto simp: step_tick pop_queue_def identified_def fun_eq_iff)
next
  case EvStop
  then show ?thesis using assms(2) by (auto simp: step_stop)
qed (use assms(2) in \<open>simp only: step_returns; elim conjE exE; hypsubst?; simp\<close>)+

lemma run_program_identified:
  "run_program es s = Some (Return s') \<Longrightarrow> run_inv s \<Longrightarrow>
   identified (rs_mc s') = identified (rs_mc s) \<and> list_all (identified (rs_mc s)) (collected es s)"
proof (induction es arbitrary: s)
  case (Cons e es)
  then obtain s1 where e: "run_step e s = Some (Return s1)" "run_program es s1 = Some (Return s')"
    unfolding run_program_Cons by blast
  show ?case using Cons.IH [OF e(2) run_step_inv [OF Cons.prems(2) e(1)]] run_step_identified [OF Cons.prems(2) e(1)]
    by (simp add: e(1))
qed simp

section \<open>Panics\<close>

text \<open>
  Where a panic can come from: a ticker with a period that is not positive, a collection of the CPU
  or the container collector, a container refresh, and the nil connection once \<open>Disconnect\<close> has taken
  it away.
\<close>

fun panic_cause :: "run_event \<Rightarrow> running \<Rightarrow> go_panic \<Rightarrow> bool" where
  "panic_cause EvCollectStart s p = (p = NonPositiveTicker \<and> dur_seconds (rs_collectionInterval s) \<le> 0)"
| "panic_cause EvSendStart s p = (p = NonPositiveTicker \<and> dur_seconds (rs_sendingInterval s) \<le> 0)"
| "panic_cause (EvTick env) s p =
     (\<exists>(name, c) \<in> set (mc_collectors (rs_mc s)). name \<in> {''cpu'', ''container''} \<and> Collector_Collect env c = Panic p)"
| "panic_cause (EvBackground name env net err) s p =
     (rs_background s name = BgTicker \<and> p = NonPositiveTicker
        \<and> name \<in> {''disk'', ''container'', ''network'', ''process'', ''service''}
      \<or> name = ''container'' \<and> (\<exists>c. (name, c) \<in> set (mc_collectors (rs_mc s)) \<and> Collector_refresh env net c = Panic p))"
| "panic_cause (EvWrite r) s p = (p = NilDereference \<and> rs_main s = MainDone \<and> \<not> ds_conn (rs_ds s))"
| "panic_cause EvRecvDeref s p = (p = NilDereference \<and> rs_main s \<in> {MainStore, MainDone} \<and> \<not> ds_conn (rs_ds s))"
| "panic_cause e s p = False"

lemma master_tick_panic:
  assumes "master_inv mc" "master_tick env mc = Panic p"
  shows "\<exists>(name, c) \<in> set (mc_collectors mc). name \<in> {''cpu'', ''container''} \<and> Collector_Collect env c = Panic p"
proof -
  have q: "length (q_items (mc_metricsQueue mc)) \<le> 100" "q_size (mc_metricsQueue mc) = 100"
    using assms(1) by (simp_all add: master_inv_def)
  have "collect_goroutines env (mc_collectors mc) = Panic p"
    using assms(2) by (auto simp: master_tick_def CollectAll_def Let_def obind_eq_Panic Push_newest [OF q])
  then obtain name c where c: "(name, c) \<in> set (mc_collectors mc)" "Collector_Collect env c = Panic p"
    using collect_goroutines_panic by fastforce
  moreover have "category c = name" using assms(1) c(1) by (auto simp: master_inv_def list_all_iff)
  ultimately show ?thesis using Collector_Collect_panic [OF c(2)] by blast
qed

lemma run_step_panic:
  assumes "run_inv s" "run_step e s = Some (Panic p)" shows "panic_cause e s p"
proof (cases e)
  case (EvTick env)
  then have "master_tick env (rs_mc s) = Panic p"
    using assms(2) by (auto simp: run_step.simps obind_eq_Panic split: if_splits)
  then show ?thesis using master_tick_panic [of "rs_mc s"] assms(1) EvTick by (simp add: run_inv_def)
next
  case (EvBackground name env net err)
  then obtain c where c: "map_of (mc_collectors (rs_mc s)) name = Some c"
    "background_step env net err (rs_background s name) c = Some (Panic p)"
    using assms(2) by (auto simp: run_step.simps obind_eq_Panic split: option.splits)
  from c(1) have "(name, c) \<in> set (mc_collectors (rs_mc s))" by (rule map_of_SomeD)
  moreover from this have "category c = name" using assms(1) by (auto simp: run_inv_def master_inv_def list_all_iff)
  ultimately show ?thesis using background_step_panic [OF c(2)] EvBackground by auto
next
  case EvCollectStart
  then show ?thesis using assms
    by (auto simp: run_step.simps run_inv_def new_ticker_def split: option.splits collecting_pc.splits if_splits)
next
  case EvSendStart
  then show ?thesis using assms
    by (auto simp: run_step.simps run_inv_def sendLoop_start_def new_ticker_def split: option.splits sender_pc.splits if_splits)
next
  case (EvWrite r)
  then show ?thesis using assms
    by (cases "rs_main s")
      (auto simp: run_inv_def run_step.simps sendMetrics_write_def holds_mutex_def split: option.splits sender_pc.splits if_splits)
next
  case EvRecvDeref
  then show ?thesis using assms
    by (cases "rs_main s") (auto simp: run_inv_def run_step.simps receive_deref_def split: if_splits)
next
  case EvStop
  then show ?thesis using assms
    by (auto simp: run_inv_def run_step.simps StopSending_def go_close_def split: if_splits)
next
  case EvSignal
  then show ?thesis using assms
    by (auto simp: run_inv_def run_step.simps disconnect_signal_def go_close_def split: if_splits)
qed (use assms(2) in \<open>auto simp: run_step.simps sender_Connect_def split: if_splits option.splits sender_pc.splits prod.splits\<close>)

lemma run_step_intervals:
  assumes "run_step e s = Some (Return s')"
  shows "rs_collectionInterval s' = rs_collectionInterval s \<and> rs_sendingInterval s' = rs_sendingInterval s"
  using assms by (cases e) (simp only: step_returns; elim conjE exE; hypsubst?; simp split: option.split)+

lemma run_program_intervals:
  "run_program es s = Some (Return s') \<Longrightarrow>
   rs_collectionInterval s' = rs_collectionInterval s \<and> rs_sendingInterval s' = rs_sendingInterval s"
proof (induction es arbitrary: s)
  case (Cons e es)
  then obtain s1 where e: "run_step e s = Some (Return s1)" "run_program es s1 = Some (Return s')"
    unfolding run_program_Cons by blast
  show ?case using Cons.IH [OF e(2)] run_step_intervals [OF e(1)] by simp
qed simp

section \<open>A lost connection, and the shutdown\<close>

text \<open>A connection that was lost is not used again, and not closed but by a shutdown under way.\<close>

definition lost :: "running \<Rightarrow> bool" where
  "lost s \<longleftrightarrow> \<not> ds_isConnected (rs_ds s) \<and> rs_main s \<notin> {MainNew, MainDial} \<and> rs_receiver s = Some RecvEnded"

definition writes_left :: "running \<Rightarrow> nat" where
  "writes_left s = (case rs_sender s of Some (SendWrite j) \<Rightarrow> 1 | _ \<Rightarrow> 0)"

lemma run_step_lost:
  assumes "lost s" "run_step e s = Some (Return s')"
  shows "lost s' \<and> length (rs_sent s') + writes_left s' \<le> length (rs_sent s) + writes_left s"
  using assms
  by (cases e) (simp only: step_returns; elim conjE exE; hypsubst?;
      auto simp: lost_def writes_left_def split: option.split list.split if_split)+

lemma run_program_lost:
  "run_program es s = Some (Return s') \<Longrightarrow> lost s \<Longrightarrow>
   lost s' \<and> length (rs_sent s') + writes_left s' \<le> length (rs_sent s) + writes_left s"
proof (induction es arbitrary: s)
  case (Cons e es)
  then obtain s1 where e: "run_step e s = Some (Return s1)" "run_program es s1 = Some (Return s')"
    unfolding run_program_Cons by blast
  show ?case using Cons.IH [OF e(2)] run_step_lost [OF Cons.prems(2) e(1)] by auto
qed simp

lemma run_step_unclosed:
  assumes "lost s" "\<not> holds_mutex (rs_main s)" "run_step e s = Some (Return s')"
  shows "\<not> holds_mutex (rs_main s') \<and> ds_conn (rs_ds s') = ds_conn (rs_ds s) \<and> ds_clientDone (rs_ds s') = ds_clientDone (rs_ds s)"
  using assms
  by (cases e) (simp only: step_returns; elim conjE exE; hypsubst?;
      auto simp: lost_def holds_mutex_def split: option.split if_split)+

lemma run_program_unclosed:
  "run_program es s = Some (Return s') \<Longrightarrow> lost s \<Longrightarrow> \<not> holds_mutex (rs_main s) \<Longrightarrow>
   ds_conn (rs_ds s') = ds_conn (rs_ds s) \<and> ds_clientDone (rs_ds s') = ds_clientDone (rs_ds s)"
proof (induction es arbitrary: s)
  case (Cons e es)
  then obtain s1 where e: "run_step e s = Some (Return s1)" "run_program es s1 = Some (Return s')"
    unfolding run_program_Cons by blast
  show ?case
    using Cons.IH [OF e(2)] run_step_lost [OF Cons.prems(2) e(1)] run_step_unclosed [OF Cons.prems(2,3) e(1)] by auto
qed simp

text \<open>How many more steps of its own the sending goroutine can take once told to stop.\<close>

definition sender_rank :: "running \<Rightarrow> nat" where
  "sender_rank s =
     (case rs_sender s of
        None \<Rightarrow> 0
      | Some SendEnded \<Rightarrow> 0
      | Some SendSelect \<Rightarrow> 1
      | Some (SendStart n) \<Rightarrow> 2
      | Some (SendWrite j) \<Rightarrow> 2
      | Some (SendPopped m) \<Rightarrow> 3)
     + (if rs_tick s \<and> sending s then 3 else 0)"

fun sender_event :: "run_event \<Rightarrow> bool" where
  "sender_event EvSendStart = True"
| "sender_event EvSelectDone = True"
| "sender_event EvSelectTick = True"
| "sender_event EvCheck = True"
| "sender_event (EvWrite r) = True"
| "sender_event e = False"

definition stopping :: "running \<Rightarrow> bool" where
  "stopping s \<longleftrightarrow> ds_senderDone (rs_ds s) \<and> rs_main s \<notin> {MainNew, MainDial, MainFailed, MainConnected, MainServing}
     \<and> rs_sender s \<noteq> None \<and> (\<forall>n. rs_sender s = Some (SendStart n) \<longrightarrow> \<not> rs_tick s)"

lemma run_step_stopping:
  assumes "stopping s" "run_step e s = Some (Return s')" "e \<noteq> EvTicker"
  shows "stopping s' \<and> sender_rank s' + (if sender_event e then 1 else 0) \<le> sender_rank s"
  using assms
  by (cases e) (simp only: step_returns; elim conjE exE; hypsubst?;
      auto simp: stopping_def sender_rank_def sending_def split: list.split if_split sum.split option.split sender_pc.split)+

lemma run_program_stopping:
  "run_program es s = Some (Return s') \<Longrightarrow> stopping s \<Longrightarrow> EvTicker \<notin> set es \<Longrightarrow>
   stopping s' \<and> sender_rank s' + length (filter sender_event es) \<le> sender_rank s"
proof (induction es arbitrary: s)
  case (Cons e es)
  then obtain s1 where e: "run_step e s = Some (Return s1)" "run_program es s1 = Some (Return s')"
    unfolding run_program_Cons by blast
  show ?case using Cons.IH [OF e(2)] run_step_stopping [OF Cons.prems(2) e(1)] Cons.prems(3)
    by (auto split: if_splits)
qed simp

text \<open>When what the system reports is finite, every queued metric stays encodable (\<open>Metric_Json\<close>).\<close>

fun run_event_finite :: "run_event \<Rightarrow> bool" where
  "run_event_finite (EvTick env) = event_finite (MonTick env)"
| "run_event_finite (EvBackground name env net err) = event_finite (MonRefresh name env net)"
| "run_event_finite _ = True"

lemma put_entry_finite: "collectors_finite cs \<Longrightarrow> collector_finite c \<Longrightarrow> collectors_finite (put_entry name c cs)"
  by (induction cs) (auto simp: collectors_finite_def)

lemma pop_queue_finite: "master_finite mc \<Longrightarrow> master_finite (pop_queue mc)"
  using pop_queue_inv [of mc]
  by (cases "q_items (mc_metricsQueue mc)") (auto simp: master_finite_def pop_queue_def)

lemma background_step_finite:
  assumes "env_finite env" "collector_finite c" "background_step env net err pc c = Some (Return (pc', c'))"
  shows "collector_finite c'"
  using assms Collector_refresh_finite [OF assms(1,2)] by (cases pc) auto

lemma run_step_finite:
  assumes "run_event_finite e" "master_finite (rs_mc s)" "run_step e s = Some (Return s')"
  shows "master_finite (rs_mc s')"
proof (cases e)
  case (EvTick env)
  then show ?thesis using assms master_tick_finite [of env "rs_mc s"] by (auto simp: step_collect)
next
  case (EvBackground name env net err)
  then obtain c pc c' where c: "map_of (mc_collectors (rs_mc s)) name = Some c"
    "background_step env net err (rs_background s name) c = Some (Return (pc, c'))"
    and s': "rs_mc s' = (rs_mc s)\<lparr>mc_collectors := put_entry name c' (mc_collectors (rs_mc s))\<rparr>"
    using assms(3) by (auto simp: step_background)
  have "collector_finite c"
    using map_of_SomeD [OF c(1)] assms(2) by (auto simp: master_finite_def collectors_finite_def list_all_iff)
  with c(2) have "collector_finite c'" using background_step_finite assms(1) EvBackground by simp
  moreover have "master_inv (rs_mc s')"
    unfolding s' using background_inv [OF _ c(1) background_step_category [OF c(2)]] assms(2)
    by (simp add: master_finite_def)
  ultimately show ?thesis using assms(2) put_entry_finite [of "mc_collectors (rs_mc s)" c' name]
    by (simp add: master_finite_def s')
next
  case EvSelectTick
  then show ?thesis using assms(2,3) pop_queue_finite by (auto simp: step_tick)
next
  case (EvDial r)
  then show ?thesis using assms(2,3) by (auto simp: step_dial split: option.splits)
next
  case EvStart
  then show ?thesis using assms(2,3) by (auto simp: step_start)
qed (use assms(2,3) in \<open>simp only: step_returns; elim conjE exE; hypsubst?; simp\<close>)+

lemma run_program_finite:
  "run_program es s = Some (Return s') \<Longrightarrow> list_all run_event_finite es \<Longrightarrow> master_finite (rs_mc s) \<Longrightarrow>
   master_finite (rs_mc s')"
proof (induction es arbitrary: s)
  case (Cons e es)
  then obtain s1 where e: "run_step e s = Some (Return s1)" "run_program es s1 = Some (Return s')"
    unfolding run_program_Cons by blast
  show ?case using Cons.IH [OF e(2)] run_step_finite [OF _ _ e(1)] Cons.prems by simp
qed simp

section \<open>The operations of the client as steps\<close>

text \<open>With no other goroutine in between, the main goroutine's steps are \<open>Connect\<close> and \<open>Disconnect\<close>.\<close>

lemma client_Connect_run:
  assumes "running_of c = Some s" "client_Connect (\<lambda>h p. r) c = Return (ok, g, c1)"
  shows "\<exists>s'. run_program ([EvStartCollecting, EvDial r] @ (if ok then [EvStart] else [])) s = Some (Return s')
    \<and> rs_collector s' = Some (go_collecting g) \<and> rs_receiver s' = go_receiving g \<and> rs_sender s' = go_sending g
    \<and> cl_dataSender c1 = Some (rs_ds s') \<and> rs_main s' = (if ok then MainServing else MainFailed)"
proof -
  obtain mc ds where c: "cl_collectorManager c = Some mc" "cl_dataSender c = Some ds"
    and s: "rs_main s = MainNew" "rs_ds s = ds" "rs_collectionInterval s = cl_collectionInterval c"
      "rs_sendingInterval s = cl_sendingInterval c" "rs_sender s = None" "rs_receiver s = None"
    using assms(1) by (auto simp: running_of_def split: option.splits)
  show ?thesis
  proof (cases r)
    case None
    let ?ds = "ds\<lparr>ds_conn := True, ds_isConnected := True\<rparr>"
    have ok: "ok" "g = \<lparr>go_collecting = CollectStart (cl_collectionInterval c), go_receiving = Some RecvSelect,
          go_sending = fst (StartSending (cl_sendingInterval c) ?ds)\<rparr>"
      "c1 = c\<lparr>cl_dataSender := Some (snd (StartSending (cl_sendingInterval c) ?ds))\<rparr>"
      using assms(2) by (auto simp: client_Connect_def c None sender_Connect_def Let_def split: prod.splits)
    show ?thesis
      by (simp add: ok s None run_step.simps sender_Connect_def StartSending_def)
  next
    case (Some err)
    have "\<not> ok" "g = \<lparr>go_collecting = CollectStart (cl_collectionInterval c), go_receiving = None, go_sending = None\<rparr>"
      "c1 = c"
      using assms(2) by (auto simp: client_Connect_def c Some sender_Connect_def Let_def)
    then show ?thesis by (simp add: s c Some run_step.simps sender_Connect_def)
  qed
qed

lemma client_Disconnect_run:
  assumes "client_Disconnect c = Return c1" "\<not> cl_isDisconnected c" "cl_dataSender c = Some (rs_ds s)" "rs_main s = MainServing"
  shows "\<exists>s'. run_program ([EvStop, EvDisconnect] @ (if ds_isConnected (rs_ds s) then [EvSignal, EvClose, EvStore] else [])) s
      = Some (Return s') \<and> cl_dataSender c1 = Some (rs_ds s') \<and> rs_main s' = MainDone \<and> cl_isDisconnected c1"
proof -
  obtain ds where ds: "StopSending (rs_ds s) = Return ds"
    using assms(1,2,3) by (auto simp: client_Disconnect_def Let_def)
  then have fields: "ds_isConnected ds = ds_isConnected (rs_ds s)" "ds_clientDone ds = ds_clientDone (rs_ds s)"
    by (cases "ds_senderDone (rs_ds s)"; auto simp: StopSending_def go_close_def split: if_splits)+
  show ?thesis
    using assms(1,2,4)
    by (auto simp: client_Disconnect_def Let_def assms(3) ds sender_Disconnect_def fields run_step.simps)
qed

section \<open>A concrete run\<close>

lemma run_program_panics:
  "run_program es s = Some (Return s') \<Longrightarrow> run_step e s' = Some (Panic p) \<Longrightarrow> run_program (es @ [e]) s = Some (Panic p)"
proof (induction es arbitrary: s)
  case (Cons e1 es)
  then obtain s1 where "run_step e1 s = Some (Return s1)" "run_program es s1 = Some (Return s')"
    unfolding run_program_Cons by blast
  with Cons show ?case by simp
qed simp

text \<open>The start of the program up to the point where the sender is about to write the first metric.\<close>

definition first_write :: "collect_env \<Rightarrow> run_event list" where
  "first_write env = [EvStartCollecting, EvCollectStart, EvTick env, EvDial None, EvStart, EvSendStart, EvTicker,
     EvSelectTick, EvCheck]"

lemma first_write_runs:
  assumes "Initialize docker net devices cfg c = Return (None, c')" "running_of c' = Some s0"
    and "0 < dur_seconds (cl_collectionInterval c)" "0 < dur_seconds (cl_sendingInterval c)"
    and "master_tick env (rs_mc s0) = Return mc" "tick_metrics env (rs_mc s0) = [m]" "json_ok (json_SystemMetrics m)"
  obtains s where "run_program (first_write env) s0 = Some (Return s)" "rs_sender s = Some (SendWrite (json_SystemMetrics m))"
    "rs_main s = MainServing" "ds_conn (rs_ds s)" "ds_isConnected (rs_ds s)" "ds_running (rs_ds s)"
    "\<not> ds_senderDone (rs_ds s)" "\<not> ds_clientDone (rs_ds s)" "rs_receiver s = Some RecvSelect" "rs_sent s = []"
    "rs_collector s = Some Collecting"
proof -
  obtain i: "run_inv s0" and s0: "rs_sent s0 = []" "rs_main s0 = MainNew" "q_items (GetDataQueue (rs_mc s0)) = []"
    "rs_collectionInterval s0 = cl_collectionInterval c" "rs_sendingInterval s0 = cl_sendingInterval c"
    and ds: "rs_ds s0 = NewDataSender (cl_serverInfo c) (cl_userID c)"
    by (rule Initialize_running [OF assms(1,2)])
  have "master_inv (rs_mc s0)" using i by (simp add: run_inv_def)
  from master_tick_queue [OF this assms(5)] have q: "q_items (GetDataQueue mc) = [m]"
    using assms(6) s0(3) by (simp add: newest_def)
  let ?ds = "(rs_ds s0)\<lparr>ds_conn := True, ds_isConnected := True\<rparr>"
  let ?s1 = "s0\<lparr>rs_collector := Some Collecting, rs_mc := mc, rs_main := MainConnected, rs_ds := ?ds,
    rs_receiver := Some RecvSelect\<rparr>"
  have 1: "run_program [EvStartCollecting, EvCollectStart, EvTick env, EvDial None] s0 = Some (Return ?s1)"
    unfolding run_program_Cons using assms(3,5) s0 by (simp add: step_returns)
  let ?s2 = "?s1\<lparr>rs_main := MainServing, rs_ds := ?ds\<lparr>ds_running := True\<rparr>, rs_sender := Some SendSelect, rs_tick := True\<rparr>"
  have 2: "run_program [EvStart, EvSendStart, EvTicker] ?s1 = Some (Return ?s2)"
    unfolding run_program_Cons using assms(4) s0 ds by (simp add: step_returns sending_def NewDataSender_def)
  let ?s3 = "?s2\<lparr>rs_sender := Some (SendWrite (json_SystemMetrics m)), rs_mc := pop_queue mc, rs_tick := False\<rparr>"
  have 3: "run_program [EvSelectTick, EvCheck] ?s2 = Some (Return ?s3)"
    unfolding run_program_Cons using assms(7) q by (simp add: step_returns)
  have "run_program (first_write env) s0 = Some (Return ?s3)"
    using run_program_trans [OF 1 run_program_trans [OF 2 3]] unfolding first_write_def append.simps .
  then show ?thesis by (rule that) (simp_all add: ds NewDataSender_def s0)
qed

definition sample_client :: SystemClient where
  "sample_client = NewSystemClient \<lparr>srv_Address = ''h'', srv_Port = 80\<rparr> ''k'' 2 2 ''u''"

definition sample_started :: SystemClient where
  "sample_started = sample_client\<lparr>cl_collectorManager := Some sample_master,
     cl_dataSender := Some (NewDataSender \<lparr>srv_Address = ''h'', srv_Port = 80\<rparr> ''u'')\<rparr>"

definition sample_running :: running where
  "sample_running = the (running_of sample_started)"

lemma sample_initialized:
  "Initialize (Some sample_error) sample_network_env Map.empty (Some DefaultConfig) sample_client = Return (None, sample_started)"
  "running_of sample_started = Some sample_running" "rs_mc sample_running = sample_master"
proof -
  have "NewMasterCollector (Some sample_error) sample_network_env Map.empty DefaultConfig = Return sample_master"
    using NewMasterCollector_inv [of "Some sample_error" sample_network_env Map.empty DefaultConfig]
    by (auto simp: sample_master_def)
  then show "Initialize (Some sample_error) sample_network_env Map.empty (Some DefaultConfig) sample_client
      = Return (None, sample_started)"
    by (simp add: Initialize_def sample_started_def sample_client_def NewSystemClient_def)
qed (simp_all add: sample_running_def running_of_def sample_started_def)

lemma sample_intervals: "0 < dur_seconds (cl_collectionInterval sample_client)" "0 < dur_seconds (cl_sendingInterval sample_client)"
  by (simp_all add: sample_client_def NewSystemClient_def dur_seconds_def int64_range_def)

lemma sample_tick_of:
  assumes "NewMasterCollector docker net devices cfg = Return mc0" "mc_collectors mc0 = mc_collectors sample_master"
  obtains mc m where "master_tick sample_collect_env mc0 = Return mc" "tick_metrics sample_collect_env mc0 = [m]"
    "json_ok (json_SystemMetrics m)"
proof -
  have inv: "master_inv mc0" using NewMasterCollector_inv [of docker net devices cfg] assms(1) by auto
  have q: "q_items (mc_metricsQueue mc0) = []" "q_size (mc_metricsQueue mc0) = 100"
    using assms(1) by (auto simp: NewMasterCollector_def NewQueue_def AddCollector_def Let_def)
  obtain mc where t: "master_tick sample_collect_env mc0 = Return mc"
    using sample_master_collects q assms(2) by (auto simp: master_tick_def CollectAll_def Let_def Push_newest)
  obtain m where m: "tick_metrics sample_collect_env mc0 = [m]" "q_items (GetDataQueue mc) = [m]"
    using master_tick_queue [OF inv t] q by (auto simp: GetDataQueue_def newest_def)
  from NewMasterCollector_finite [OF assms(1)] have "master_finite mc"
    by (rule master_tick_finite [OF _ sample_env_finite _ t, rotated]) (simp add: sample_collect_env_def)
  then have "json_ok (json_SystemMetrics m)" using m(2) by (simp add: master_finite_def GetDataQueue_def)
  with t m(1) show ?thesis by (rule that)
qed

lemma sample_tick:
  obtains mc m where "master_tick sample_collect_env (rs_mc sample_running) = Return mc"
    "tick_metrics sample_collect_env (rs_mc sample_running) = [m]" "json_ok (json_SystemMetrics m)"
proof -
  have "NewMasterCollector (Some sample_error) sample_network_env Map.empty DefaultConfig = Return sample_master"
    using NewMasterCollector_inv [of "Some sample_error" sample_network_env Map.empty DefaultConfig]
    by (auto simp: sample_master_def)
  from sample_tick_of [OF this refl] that show ?thesis unfolding sample_initialized by blast
qed

lemma sample_run:
  obtains s m where "run_program (first_write sample_collect_env @ [EvWrite None]) sample_running = Some (Return s)"
    "rs_sent s = [json_SystemMetrics m]" "rs_sender s = Some SendSelect"
    "rs_main s = MainServing" "ds_conn (rs_ds s)" "ds_isConnected (rs_ds s)" "ds_running (rs_ds s)"
    "\<not> ds_senderDone (rs_ds s)" "\<not> ds_clientDone (rs_ds s)" "rs_receiver s = Some RecvSelect"
proof -
  obtain mc m where t: "master_tick sample_collect_env (rs_mc sample_running) = Return mc"
    "tick_metrics sample_collect_env (rs_mc sample_running) = [m]" "json_ok (json_SystemMetrics m)"
    by (rule sample_tick)
  obtain s where s: "run_program (first_write sample_collect_env) sample_running = Some (Return s)"
    "rs_sender s = Some (SendWrite (json_SystemMetrics m))"
    "rs_main s = MainServing" "ds_conn (rs_ds s)" "ds_isConnected (rs_ds s)" "ds_running (rs_ds s)"
    "\<not> ds_senderDone (rs_ds s)" "\<not> ds_clientDone (rs_ds s)" "rs_receiver s = Some RecvSelect" "rs_sent s = []"
    using first_write_runs [OF sample_initialized(1,2) sample_intervals t] by metis
  let ?s = "s\<lparr>rs_sender := Some SendSelect, rs_sent := [json_SystemMetrics m]\<rparr>"
  have "run_program (first_write sample_collect_env @ [EvWrite None]) sample_running = Some (Return ?s)"
    unfolding run_program_append run_program_Cons using s by (simp add: step_returns holds_mutex_def)
  then show ?thesis by (rule that) (simp_all add: s)
qed

section \<open>Properties\<close>

text \<open>
  C1. In every interleaving of the goroutines, what has been written to the server, followed by the
  metric in the sender's hands and the queued ones, is a subsequence of the collected metrics: nothing
  is written twice, out of order, or made up.
\<close>

theorem metrics_delivered_in_order:
  assumes "Initialize docker net devices cfg c = Return (None, c')" "running_of c' = Some s0"
    and "run_program es s0 = Some (Return s)"
  shows "subseq (rs_sent s @ in_flight s @ map json_SystemMetrics (q_items (GetDataQueue (rs_mc s))))
    (map json_SystemMetrics (collected es s0))"
proof -
  obtain "run_inv s0" "rs_sent s0 = []" "rs_sender s0 = None" "q_items (GetDataQueue (rs_mc s0)) = []"
    by (rule Initialize_running [OF assms(1,2)])
  then show ?thesis using run_program_pipeline [OF assms(3)] by (simp add: pipeline_def in_flight_def)
qed

lemma metrics_delivered_in_order_witness:
  "\<exists>s m. run_program (first_write sample_collect_env @ [EvWrite None]) sample_running = Some (Return s)
     \<and> rs_sent s = [json_SystemMetrics m]
     \<and> subseq (rs_sent s @ in_flight s @ map json_SystemMetrics (q_items (GetDataQueue (rs_mc s))))
         (map json_SystemMetrics (collected (first_write sample_collect_env @ [EvWrite None]) sample_running))"
proof -
  obtain s m where s: "run_program (first_write sample_collect_env @ [EvWrite None]) sample_running = Some (Return s)"
    "rs_sent s = [json_SystemMetrics m]" by (rule sample_run)
  from metrics_delivered_in_order [OF sample_initialized(1,2) s(1)] s show ?thesis by blast
qed

text \<open>
  C6. Every panic that can end the running program, in any interleaving, is one of six: the collecting
  or the sending ticker with a period that is not positive; a collection of the CPU or of the container
  collector that panics in a tick; a background goroutine whose ticker has a period that is not
  positive, or a container refresh that panics; and the nil connection, in the sender after
  \<open>Disconnect\<close> has returned or in the receiver after \<open>Disconnect\<close> has closed the connection. So no
  channel is closed twice, and no collector but those two, nor the queue, panics.
\<close>

theorem panic_sources:
  assumes "Initialize docker net devices cfg c = Return (None, c')" "running_of c' = Some s0"
    and "run_program es s0 = Some (Panic p)"
  shows "\<exists>es' e s. es = es' @ [e] \<and> run_program es' s0 = Some (Return s)
    \<and> ((e = EvCollectStart \<and> p = NonPositiveTicker \<and> dur_seconds (cl_collectionInterval c) \<le> 0)
     \<or> (e = EvSendStart \<and> p = NonPositiveTicker \<and> dur_seconds (cl_sendingInterval c) \<le> 0)
     \<or> (\<exists>env name k. (name, k) \<in> set (mc_collectors (rs_mc s)) \<and> e = EvTick env \<and> name \<in> {''cpu'', ''container''}
          \<and> Collector_Collect env k = Panic p)
     \<or> (\<exists>name env net err. e = EvBackground name env net err
          \<and> (rs_background s name = BgTicker \<and> p = NonPositiveTicker
               \<and> name \<in> {''disk'', ''container'', ''network'', ''process'', ''service''}
             \<or> (\<exists>k. (''container'', k) \<in> set (mc_collectors (rs_mc s)) \<and> name = ''container''
                  \<and> Collector_refresh env net k = Panic p)))
     \<or> (p = NilDereference \<and> \<not> ds_conn (rs_ds s)
          \<and> ((\<exists>r. e = EvWrite r) \<and> rs_main s = MainDone \<or> e = EvRecvDeref \<and> rs_main s \<in> {MainStore, MainDone})))"
proof -
  obtain i: "run_inv s0" and s0: "rs_collectionInterval s0 = cl_collectionInterval c"
    "rs_sendingInterval s0 = cl_sendingInterval c"
    by (rule Initialize_running [OF assms(1,2)])
  obtain es' e s where r: "es = es' @ [e]" "run_program es' s0 = Some (Return s)" "run_step e s = Some (Panic p)"
    using run_program_Panic [OF assms(3)] by blast
  have "panic_cause e s p" by (rule run_step_panic [OF run_program_inv [OF assms(1,2) r(2)] r(3)])
  then show ?thesis using r(1,2) run_program_intervals [OF r(2)] s0 by (cases e) auto
qed

text \<open>
  C7. A lost connection is final: from the moment the receiver has cleared the flag after a failed read,
  at most the write already under way reaches the server, whatever happens later; the sender stays
  disconnected, the receiver has ended and nothing dials again. Nothing closes the connection after
  that either, nor the receiver's channel, unless \<open>Disconnect\<close> had already passed its own test of the
  flag and is still at work.
\<close>

theorem lost_connection_final:
  assumes "Initialize docker net devices cfg c = Return (None, c')" "running_of c' = Some s0"
    and "run_program es s0 = Some (Return s)"
    and "run_step EvRecvFailed s = Some (Return s1)" "run_program es' s1 = Some (Return s2)"
  shows "\<not> ds_isConnected (rs_ds s2) \<and> rs_receiver s2 = Some RecvEnded
    \<and> length (rs_sent s2) \<le> length (rs_sent s) + 1
    \<and> (\<not> holds_mutex (rs_main s) \<longrightarrow>
         ds_conn (rs_ds s2) = ds_conn (rs_ds s) \<and> ds_clientDone (rs_ds s2) = ds_clientDone (rs_ds s))"
proof -
  have inv: "run_inv s" by (rule run_program_inv [OF assms(1-3)])
  have s1: "rs_receiver s = Some RecvFailed"
    "s1 = s\<lparr>rs_receiver := Some RecvEnded, rs_ds := (rs_ds s)\<lparr>ds_isConnected := False\<rparr>\<rparr>"
    using assms(4) by (simp_all add: step_recv_failed)
  then have l: "lost s1" using inv by (auto simp: lost_def run_inv_def)
  have "writes_left s1 \<le> 1" by (simp add: writes_left_def split: option.split sender_pc.split)
  then show ?thesis
    using run_program_lost [OF assms(5) l] run_program_unclosed [OF assms(5) l] s1(2) by (auto simp: lost_def)
qed

lemma lost_connection_final_witness:
  "\<exists>s1 s2. run_program ((first_write sample_collect_env @ [EvWrite None]) @ [EvRecvSelect, EvRecvTest, EvRecvDeref,
       EvRecv (Inl (ErrExt ''reset'')), EvRecvFailed]) sample_running = Some (Return s1)
     \<and> run_program [EvTicker, EvSelectTick, EvStop, EvDisconnect] s1 = Some (Return s2)
     \<and> length (rs_sent s2) \<le> 2 \<and> ds_conn (rs_ds s2) \<and> \<not> ds_isConnected (rs_ds s2)"
proof -
  obtain s m where s: "run_program (first_write sample_collect_env @ [EvWrite None]) sample_running = Some (Return s)"
    "rs_sent s = [json_SystemMetrics m]" "rs_sender s = Some SendSelect" "rs_main s = MainServing" "ds_conn (rs_ds s)"
    "\<not> ds_senderDone (rs_ds s)" "\<not> ds_clientDone (rs_ds s)" "rs_receiver s = Some RecvSelect"
    by (rule sample_run)
  let ?s = "s\<lparr>rs_receiver := Some RecvFailed\<rparr>"
  let ?s1 = "s\<lparr>rs_receiver := Some RecvEnded, rs_ds := (rs_ds s)\<lparr>ds_isConnected := False\<rparr>\<rparr>"
  have "run_program [EvRecvSelect, EvRecvTest, EvRecvDeref, EvRecv (Inl (ErrExt ''reset''))] s = Some (Return ?s)"
    unfolding run_program_Cons using s by (simp add: step_returns)
  note r = run_program_trans [OF s(1) this]
  have r1: "run_step EvRecvFailed ?s = Some (Return ?s1)" by (simp add: step_returns)
  have "run_program [EvTicker, EvSelectTick] ?s1 = Some (Return (?s1\<lparr>rs_tick := False, rs_mc := pop_queue (rs_mc s),
      rs_sender := Some (case q_items (GetDataQueue (rs_mc s)) of [] \<Rightarrow> SendSelect | m # ms \<Rightarrow> SendPopped m)\<rparr>))"
    unfolding run_program_Cons using s by (simp add: step_returns sending_def)
  moreover have "\<exists>s2. run_program [EvStop, EvDisconnect] (?s1\<lparr>rs_tick := False, rs_mc := pop_queue (rs_mc s),
      rs_sender := Some (case q_items (GetDataQueue (rs_mc s)) of [] \<Rightarrow> SendSelect | m # ms \<Rightarrow> SendPopped m)\<rparr>)
      = Some (Return s2)"
    unfolding run_program_Cons using s by (simp add: step_returns)
  ultimately obtain s2 where r2: "run_program ([EvTicker, EvSelectTick] @ [EvStop, EvDisconnect]) ?s1 = Some (Return s2)"
    using run_program_trans by blast
  have "run_program ([EvRecvSelect, EvRecvTest, EvRecvDeref, EvRecv (Inl (ErrExt ''reset''))] @ [EvRecvFailed]) s
      = Some (Return ?s1)"
    unfolding run_program_append run_program_Cons using s by (simp add: step_returns)
  from run_program_trans [OF s(1) this] have "run_program ((first_write sample_collect_env @ [EvWrite None]) @ [EvRecvSelect,
      EvRecvTest, EvRecvDeref, EvRecv (Inl (ErrExt ''reset'')), EvRecvFailed]) sample_running = Some (Return ?s1)"
    by (simp only: append.simps append_assoc)
  then show ?thesis
    using lost_connection_final [OF sample_initialized(1,2) r r1 r2] r2 s
    by (intro exI [of _ ?s1] exI [of _ s2]) (simp add: holds_mutex_def del: run_program.simps)
qed

text \<open>
  C8. Stopping ends the sender: once \<open>StopSending\<close> has closed its channel, the sending goroutine takes
  at most six more steps between ticks, and until it has ended it always has a step to take, or waits
  for the mutex while the main goroutine is inside \<open>Disconnect\<close> and has a step to take, whatever the
  other goroutines do meanwhile.
\<close>

theorem sender_stops:
  assumes "Initialize docker net devices cfg c = Return (None, c')" "running_of c' = Some s0"
    and "run_program es s0 = Some (Return s)"
    and "ds_senderDone (rs_ds s)" "rs_sender s \<noteq> None"
    and "run_program es' s = Some (Return s')" "EvTicker \<notin> set es'"
  shows "length (filter sender_event es') \<le> 6
    \<and> (rs_sender s' = Some SendEnded \<or> (\<exists>e. sender_event e \<and> run_step e s' \<noteq> None)
       \<or> holds_mutex (rs_main s') \<and> (\<exists>e \<in> {EvSignal, EvClose, EvStore}. \<exists>s''. run_step e s' = Some (Return s'')))"
proof -
  have inv: "run_inv s" by (rule run_program_inv [OF assms(1-3)])
  then have "stopping s" using assms(4,5) by (cases "rs_main s") (auto simp: run_inv_def stopping_def)
  from run_program_stopping [OF assms(6) this assms(7)]
  have st: "stopping s'" and n: "length (filter sender_event es') \<le> sender_rank s" by auto
  have "sender_rank s \<le> 6" by (simp add: sender_rank_def split: option.split sender_pc.split)
  moreover have "rs_sender s' = Some SendEnded \<or> (\<exists>e. sender_event e \<and> run_step e s' \<noteq> None)
       \<or> holds_mutex (rs_main s') \<and> (\<exists>e \<in> {EvSignal, EvClose, EvStore}. \<exists>s''. run_step e s' = Some (Return s''))"
  proof (cases "rs_sender s'")
    case (Some pc)
    have "run_inv s'" by (rule run_program_invariant [where P = run_inv, OF assms(6) inv]) (rule run_step_inv)
    then have m: "\<exists>e \<in> {EvSignal, EvClose, EvStore}. \<exists>s''. run_step e s' = Some (Return s'')" if "holds_mutex (rs_main s')"
      using that by (auto simp: holds_mutex_def run_inv_def main_steps)
    have "sender_event EvSendStart" "sender_event EvSelectDone" "sender_event EvCheck" "sender_event (EvWrite None)"
      by simp_all
    then show ?thesis using Some st m by (cases pc) (fastforce simp: run_step.simps stopping_def)+
  qed (use st in \<open>simp add: stopping_def\<close>)
  ultimately show ?thesis using n by simp
qed

lemma sender_stops_witness:
  "\<exists>s s'. run_program ((first_write sample_collect_env @ [EvWrite None]) @ [EvStop]) sample_running = Some (Return s)
     \<and> run_program [EvDisconnect, EvSelectDone] s = Some (Return s') \<and> rs_sender s' = Some SendEnded
     \<and> length (filter sender_event [EvDisconnect, EvSelectDone]) \<le> 6"
proof -
  obtain s0 m where s0: "run_program (first_write sample_collect_env @ [EvWrite None]) sample_running = Some (Return s0)"
    "rs_sent s0 = [json_SystemMetrics m]" "rs_sender s0 = Some SendSelect" "rs_main s0 = MainServing"
    "ds_running (rs_ds s0)" "\<not> ds_senderDone (rs_ds s0)"
    by (rule sample_run)
  let ?s = "s0\<lparr>rs_ds := (rs_ds s0)\<lparr>ds_running := False, ds_senderDone := True\<rparr>, rs_main := MainStopped\<rparr>"
  have "run_program [EvStop] s0 = Some (Return ?s)"
    unfolding run_program_Cons using s0 by (simp add: step_returns)
  note r = run_program_trans [OF s0(1) this]
  have "\<exists>s'. run_program [EvDisconnect, EvSelectDone] ?s = Some (Return s') \<and> rs_sender s' = Some SendEnded"
    unfolding run_program_Cons using s0(3) by (simp add: step_returns)
  then obtain s' where s': "run_program [EvDisconnect, EvSelectDone] ?s = Some (Return s')" "rs_sender s' = Some SendEnded"
    by blast
  from sender_stops [OF sample_initialized(1,2) r _ _ s'(1)] s0(3) r s' show ?thesis
    by (intro exI [of _ ?s] exI [of _ s']) (simp del: run_program.simps)
qed

text \<open>
  C9. The shutdown race is real: from every initialised client with positive intervals, and for every
  metric that a first tick collects and that can be encoded, the main goroutine can close the
  connection after the sender has checked it and before the sender writes, and the program ends with
  a nil dereference.
\<close>

theorem shutdown_race:
  assumes "Initialize docker net devices cfg c = Return (None, c')" "running_of c' = Some s0"
    and "0 < dur_seconds (cl_collectionInterval c)" "0 < dur_seconds (cl_sendingInterval c)"
    and "master_tick env (rs_mc s0) = Return mc" "tick_metrics env (rs_mc s0) = [m]" "json_ok (json_SystemMetrics m)"
  shows "run_program (first_write env @ [EvStop, EvDisconnect, EvSignal, EvClose, EvStore] @ [EvWrite r]) s0
    = Some (Panic NilDereference)"
proof -
  obtain s where s: "run_program (first_write env) s0 = Some (Return s)" "rs_sender s = Some (SendWrite (json_SystemMetrics m))"
    "rs_main s = MainServing" "ds_conn (rs_ds s)" "ds_isConnected (rs_ds s)" "ds_running (rs_ds s)"
    "\<not> ds_senderDone (rs_ds s)" "\<not> ds_clientDone (rs_ds s)" "rs_receiver s = Some RecvSelect" "rs_sent s = []"
    by (rule first_write_runs [OF assms]) blast
  have "\<exists>s'. run_program [EvStop, EvDisconnect, EvSignal, EvClose, EvStore] s = Some (Return s')
      \<and> rs_sender s' = rs_sender s \<and> rs_main s' = MainDone \<and> \<not> ds_conn (rs_ds s')"
    unfolding run_program_Cons using s by (simp add: step_returns)
  then obtain s' where s': "run_program [EvStop, EvDisconnect, EvSignal, EvClose, EvStore] s = Some (Return s')"
    "rs_sender s' = rs_sender s" "rs_main s' = MainDone" "\<not> ds_conn (rs_ds s')" by blast
  have "run_step (EvWrite r) s' = Some (Panic NilDereference)"
    using s' s(2) by (simp add: run_step.simps sendMetrics_write_def holds_mutex_def)
  from run_program_panics [OF run_program_trans [OF s(1) s'(1)] this] show ?thesis
    unfolding append_assoc .
qed

lemma shutdown_race_witness:
  "run_program (first_write sample_collect_env @ [EvStop, EvDisconnect, EvSignal, EvClose, EvStore] @ [EvWrite None])
     sample_running = Some (Panic NilDereference)"
proof -
  obtain mc m where t: "master_tick sample_collect_env (rs_mc sample_running) = Return mc"
    "tick_metrics sample_collect_env (rs_mc sample_running) = [m]" "json_ok (json_SystemMetrics m)"
    by (rule sample_tick)
  show ?thesis by (rule shutdown_race [OF sample_initialized(1,2) sample_intervals t])
qed

lemma panic_sources_witness:
  "\<exists>es' s. es' @ [EvSendStart] = [EvStartCollecting, EvDial None, EvStart, EvSendStart]
     \<and> run_program es' (sample_running\<lparr>rs_sendingInterval := 0\<rparr>) = Some (Return s)
     \<and> run_program (es' @ [EvSendStart]) (sample_running\<lparr>rs_sendingInterval := 0\<rparr>) = Some (Panic NonPositiveTicker)"
proof -
  let ?c = "sample_client\<lparr>cl_sendingInterval := 0\<rparr>" and ?c' = "sample_started\<lparr>cl_sendingInterval := 0\<rparr>"
    and ?s = "sample_running\<lparr>rs_sendingInterval := 0\<rparr>" and ?es = "[EvStartCollecting, EvDial None, EvStart]"
  have i: "Initialize (Some sample_error) sample_network_env Map.empty (Some DefaultConfig) ?c = Return (None, ?c')"
    using sample_initialized(1) by (auto simp: Initialize_def sample_started_def sample_client_def NewSystemClient_def)
  have c: "running_of ?c' = Some ?s"
    by (simp add: sample_running_def running_of_def sample_started_def)
  have z: "rs_main ?s = MainNew" "\<not> ds_running (rs_ds ?s)" "rs_sendingInterval ?s = 0"
    by (simp_all add: sample_running_def running_of_def sample_started_def NewDataSender_def)
  have "\<exists>s. run_program ?es ?s = Some (Return s) \<and> rs_sender s = Some (SendStart 0)"
    unfolding run_program_Cons using z by (simp add: step_returns)
  then obtain s where s: "run_program ?es ?s = Some (Return s)" "rs_sender s = Some (SendStart 0)" by blast
  have "run_step EvSendStart s = Some (Panic NonPositiveTicker)"
    using s(2) by (simp add: run_step.simps sendLoop_start_def new_ticker_def dur_seconds_def int64_range_def)
  note p = run_program_panics [OF s(1) this]
  from panic_sources [OF i c p] s(1) p show ?thesis by (intro exI [of _ ?es] exI [of _ s]) simp
qed

text \<open>
  C13. While the connection is up, every tick delivers: in any state the program can reach, when what
  the system reported were finite numbers, the flag is set, no \<open>Disconnect\<close> is under way and the sender
  waits in its select, one tick of the sending ticker followed by the sender's own steps, in which the
  library takes the message, writes the oldest queued metric and takes just that one off the queue;
  and with an empty queue the tick leaves everything as it was.
\<close>

theorem tick_delivers_oldest:
  assumes "Initialize docker net devices cfg c = Return (None, c')" "running_of c' = Some s0"
    and "run_program es s0 = Some (Return s)" "list_all run_event_finite es"
    and "rs_sender s = Some SendSelect" "ds_isConnected (rs_ds s)" "\<not> holds_mutex (rs_main s)"
  shows "case q_items (GetDataQueue (rs_mc s)) of
      [] \<Rightarrow> run_program [EvTicker, EvSelectTick] s = Some (Return (s\<lparr>rs_tick := False\<rparr>))
    | m # ms \<Rightarrow> \<exists>s'. run_program [EvTicker, EvSelectTick, EvCheck, EvWrite None] s = Some (Return s')
        \<and> rs_sent s' = rs_sent s @ [json_SystemMetrics m] \<and> q_items (GetDataQueue (rs_mc s')) = ms
        \<and> rs_sender s' = Some SendSelect \<and> rs_ds s' = rs_ds s \<and> mc_collectors (rs_mc s') = mc_collectors (rs_mc s)"
proof -
  have "run_inv s" by (rule run_program_inv [OF assms(1-3)])
  then have conn: "ds_conn (rs_ds s)"
    using assms(6,7) by (cases "rs_main s") (auto simp: run_inv_def holds_mutex_def)
  obtain config where "NewMasterCollector docker net devices config = Return (rs_mc s0)"
    by (rule Initialize_running [OF assms(1,2)])
  from run_program_finite [OF assms(3,4) NewMasterCollector_finite [OF this]] have f: "master_finite (rs_mc s)" .
  show ?thesis
  proof (cases "q_items (GetDataQueue (rs_mc s))")
    case Nil
    then have "pop_queue (rs_mc s) = rs_mc s" by (simp add: pop_queue_def GetDataQueue_def)
    then have "run_program [EvTicker, EvSelectTick] s = Some (Return (s\<lparr>rs_tick := False\<rparr>))"
      unfolding run_program_Cons using Nil assms(5) by (simp add: step_returns sending_def)
    then show ?thesis using Nil by simp
  next
    case (Cons m ms)
    then have "json_ok (json_SystemMetrics m)" using f by (simp add: master_finite_def GetDataQueue_def)
    then have "\<exists>s'. run_program [EvTicker, EvSelectTick, EvCheck, EvWrite None] s = Some (Return s')
        \<and> rs_sent s' = rs_sent s @ [json_SystemMetrics m] \<and> q_items (GetDataQueue (rs_mc s')) = ms
        \<and> rs_sender s' = Some SendSelect \<and> rs_ds s' = rs_ds s \<and> mc_collectors (rs_mc s') = mc_collectors (rs_mc s)"
      unfolding run_program_Cons using Cons assms(5-7) conn
      by (simp add: step_returns sending_def pop_queue_def GetDataQueue_def)
    then show ?thesis using Cons by simp
  qed
qed

lemma tick_delivers_oldest_witness:
  "\<exists>s s' m. run_program ([EvStartCollecting, EvCollectStart, EvTick sample_collect_env, EvDial None, EvStart, EvSendStart])
       sample_running = Some (Return s)
     \<and> run_program [EvTicker, EvSelectTick, EvCheck, EvWrite None] s = Some (Return s') \<and> rs_sent s' = [json_SystemMetrics m]"
proof -
  let ?es = "[EvStartCollecting, EvCollectStart, EvTick sample_collect_env, EvDial None, EvStart, EvSendStart]"
  obtain mc m where t: "master_tick sample_collect_env (rs_mc sample_running) = Return mc"
    "tick_metrics sample_collect_env (rs_mc sample_running) = [m]" "json_ok (json_SystemMetrics m)"
    by (rule sample_tick)
  obtain i: "run_inv sample_running" and s0: "rs_sent sample_running = []" "rs_main sample_running = MainNew"
    "q_items (GetDataQueue (rs_mc sample_running)) = []"
    "rs_collectionInterval sample_running = cl_collectionInterval sample_client"
    "rs_sendingInterval sample_running = cl_sendingInterval sample_client"
    and ds: "rs_ds sample_running = NewDataSender (cl_serverInfo sample_client) (cl_userID sample_client)"
    by (rule Initialize_running [OF sample_initialized(1,2)])
  have q: "q_items (GetDataQueue mc) = [m]"
    using master_tick_queue [OF _ t(1)] t(2) s0(3) i by (auto simp: run_inv_def newest_def)
  have nt: "\<not> rs_tick sample_running" by (simp add: sample_running_def running_of_def sample_started_def)
  have "\<exists>s. run_program ?es sample_running = Some (Return s) \<and> rs_mc s = mc \<and> rs_sender s = Some SendSelect
      \<and> ds_isConnected (rs_ds s) \<and> rs_main s = MainServing \<and> \<not> rs_tick s \<and> rs_sent s = []"
    unfolding run_program_Cons using s0 sample_intervals t(1) nt by (simp add: step_returns ds NewDataSender_def)
  then obtain s where s: "run_program ?es sample_running = Some (Return s)" "rs_mc s = mc" "rs_sender s = Some SendSelect"
    "ds_isConnected (rs_ds s)" "rs_main s = MainServing" "\<not> rs_tick s" "rs_sent s = []" by blast
  have "list_all run_event_finite ?es" using sample_env_finite by (simp add: sample_collect_env_def)
  from tick_delivers_oldest [OF sample_initialized(1,2) s(1) this s(3,4)] s q show ?thesis
    by (auto simp: holds_mutex_def simp del: run_program.simps)
qed

end
