(* ===== verification/Sha512.thy ===== *)
theory Sha512
  imports Prelude
begin

text \<open>
  The hash function of Go's package \<open>crypto/sha512\<close> (FIPS 180-4), which turns the host name and
  16 random bytes into the key a configuration identifies its machine by, and the hexadecimal
  printing of \<open>encoding/hex\<close>. Bytes are \<open>char\<close>s.
\<close>

unbundle bit_operations_syntax

section \<open>Definitions\<close>

text \<open>
  The constants are the first 64 fractional bits of the cube roots of the first 80 primes and of
  the square roots of the first 8; \<open>iroot_bits k n b r\<close> is the largest number below
  \<open>r + 2 ^ b\<close> whose \<open>k\<close>th power is at most \<open>n\<close>, one bit at a time.
\<close>

fun iroot_bits :: "nat \<Rightarrow> nat \<Rightarrow> nat \<Rightarrow> nat \<Rightarrow> nat" where
  "iroot_bits k n 0 r = r"
| "iroot_bits k n (Suc b) r = iroot_bits k n b (if (r + 2 ^ b) ^ k \<le> n then r + 2 ^ b else r)"

definition root_fraction :: "nat \<Rightarrow> nat \<Rightarrow> uint64" where
  "root_fraction k p = of_nat (iroot_bits k (p * 2 ^ (64 * k)) 67 0)"

definition small_primes :: "nat list" where
  "small_primes = filter (\<lambda>n. list_all (\<lambda>d. n mod d \<noteq> 0) [2..<n]) [2..<410]"

definition sha512_K :: "uint64 list" where
  "sha512_K = map (root_fraction 3) small_primes"

definition sha512_H0 :: "uint64 list" where
  "sha512_H0 = map (root_fraction 2) [2, 3, 5, 7, 11, 13, 17, 19]"

definition rotr :: "nat \<Rightarrow> uint64 \<Rightarrow> uint64" where
  "rotr n x = drop_bit n x OR push_bit (64 - n) x"

definition big_sigma0 :: "uint64 \<Rightarrow> uint64" where
  "big_sigma0 x = rotr 28 x XOR rotr 34 x XOR rotr 39 x"

definition big_sigma1 :: "uint64 \<Rightarrow> uint64" where
  "big_sigma1 x = rotr 14 x XOR rotr 18 x XOR rotr 41 x"

definition small_sigma0 :: "uint64 \<Rightarrow> uint64" where
  "small_sigma0 x = rotr 1 x XOR rotr 8 x XOR drop_bit 7 x"

definition small_sigma1 :: "uint64 \<Rightarrow> uint64" where
  "small_sigma1 x = rotr 19 x XOR rotr 61 x XOR drop_bit 6 x"

text \<open>The message padded to whole blocks of 128 bytes: a one bit, zeroes, the length in bits.\<close>

definition be_bytes :: "nat \<Rightarrow> nat \<Rightarrow> char list" where
  "be_bytes k n = map (\<lambda>i. char_of (n div 256 ^ (k - 1 - i))) [0..<k]"

definition sha512_pad :: "char list \<Rightarrow> char list" where
  "sha512_pad m =
     m @ [char_of (128 :: nat)] @ replicate ((239 - length m mod 128) mod 128) (char_of (0 :: nat))
       @ be_bytes 16 (8 * length m)"

fun chunks :: "nat \<Rightarrow> 'a list \<Rightarrow> 'a list list" where
  "chunks 0 xs = []"
| "chunks (Suc n) xs = (if xs = [] then [] else take (Suc n) xs # chunks (Suc n) (drop (Suc n) xs))"

definition be_word :: "char list \<Rightarrow> uint64" where
  "be_word bs = fold (\<lambda>b w. push_bit 8 w OR of_char b) bs 0"

text \<open>The message schedule: 64 more words after the 16 of the block, the latest first.\<close>

fun schedule :: "nat \<Rightarrow> uint64 list \<Rightarrow> uint64 list" where
  "schedule 0 ws = rev ws"
| "schedule (Suc n) ws =
     schedule n ((small_sigma1 (ws ! 1) + ws ! 6 + small_sigma0 (ws ! 14) + ws ! 15) # ws)"

fun sha512_round :: "uint64 \<times> uint64 \<Rightarrow> uint64 list \<Rightarrow> uint64 list" where
  "sha512_round (k, w) [a, b, c, d, e, f, g, h] =
     (let t1 = h + big_sigma1 e + ((e AND f) XOR (NOT e AND g)) + k + w;
          t2 = big_sigma0 a + ((a AND b) XOR (a AND c) XOR (b AND c))
      in [t1 + t2, a, b, c, d + t1, e, f, g])"
| "sha512_round kw hs = hs"

definition sha512_block :: "char list \<Rightarrow> uint64 list \<Rightarrow> uint64 list" where
  "sha512_block blk hs =
     map2 (+) hs
       (fold sha512_round (zip sha512_K (schedule 64 (rev (map be_word (chunks 8 blk))))) hs)"

definition sha512 :: "char list \<Rightarrow> char list" where
  "sha512 m =
     concat (map (\<lambda>w. be_bytes 8 (unat w)) (fold sha512_block (chunks 128 (sha512_pad m)) sha512_H0))"

definition hex_digit :: "nat \<Rightarrow> char" where
  "hex_digit n = ''0123456789abcdef'' ! n"

definition hex_encode :: "char list \<Rightarrow> string" where
  "hex_encode bs = concat (map (\<lambda>b. [hex_digit (of_char b div 16), hex_digit (of_char b mod 16)]) bs)"

section \<open>Lemmas\<close>

lemma length_be_bytes [simp]: "length (be_bytes k n) = k"
  by (simp add: be_bytes_def)

lemma sha512_round_length: "length (sha512_round kw hs) = length hs"
  by (induction kw hs rule: sha512_round.induct) (simp_all add: Let_def)

lemma fold_round_length: "length (fold sha512_round kws hs) = length hs"
  by (induction kws arbitrary: hs) (simp_all add: sha512_round_length)

lemma fold_block_length: "length (fold sha512_block bs hs) = length hs"
  by (induction bs arbitrary: hs) (simp_all add: sha512_block_def fold_round_length)

lemma length_concat_const: "\<forall>x \<in> set xs. length (f x) = k \<Longrightarrow> length (concat (map f xs)) = k * length xs"
  by (induction xs) auto

lemma length_sha512 [simp]: "length (sha512 m) = 64"
  using length_concat_const [of "fold sha512_block (chunks 128 (sha512_pad m)) sha512_H0"
      "\<lambda>w. be_bytes 8 (unat w)" 8] fold_block_length [of "chunks 128 (sha512_pad m)" sha512_H0]
  by (simp add: sha512_def) (simp add: sha512_H0_def)

definition is_hex_digit :: "char \<Rightarrow> bool" where
  "is_hex_digit c \<longleftrightarrow> c \<in> set ''0123456789abcdef''"

lemma hex_digit_is_hex: "n < 16 \<Longrightarrow> is_hex_digit (hex_digit n)"
  using nth_mem [of n "''0123456789abcdef''"] by (simp only: hex_digit_def is_hex_digit_def) simp

lemma length_hex_encode [simp]: "length (hex_encode bs) = 2 * length bs"
  by (simp add: hex_encode_def length_concat_const)

lemma hex_encode_digits: "list_all is_hex_digit (hex_encode bs)"
proof -
  have "of_char b div 16 < (16 :: nat)" for b
    using nat_of_char_less_256 [of b] by (simp add: less_mult_imp_div_less)
  then show ?thesis by (auto simp: hex_encode_def list_all_iff intro: hex_digit_is_hex)
qed

end
