(* ===== verification/Config_Store.thy ===== *)
theory Config_Store
  imports Config_Model Json_Decode Go_Path Sha512
begin

text \<open>
  Loading and saving the configuration, \<open>internal/config/config.go\<close>. The file system maps a path
  to the JSON value its text spells, \<open>None\<close> when the text is not JSON; the other system calls
  answer through \<open>config_env\<close>.
\<close>

section \<open>JSON encoding\<close>

definition json_settings :: "int64 \<Rightarrow> int64 \<Rightarrow> json" where
  "json_settings d u =
     JObj [(''cacheDurationSeconds'', JInt d), (''updateFrequencySeconds'', JInt u)]"

definition json_CPUCollectorSettings :: "CPUCollectorSettings \<Rightarrow> json" where
  "json_CPUCollectorSettings x = JObj
     [(''cacheDurationSeconds'', JInt (cpu_CacheDurationSeconds x)),
      (''backgroundSamplingMillis'', JInt (cpu_BackgroundSamplingMillis x)),
      (''backgroundFrequencySeconds'', JInt (cpu_BackgroundFrequencySeconds x)),
      (''directSamplingMillis'', JInt (cpu_DirectSamplingMillis x))]"

definition json_CollectorSettings :: "CollectorSettings \<Rightarrow> json" where
  "json_CollectorSettings x = JObj
     [(''cpu'', json_CPUCollectorSettings (cs_CPU x)),
      (''system'', json_settings (system_CacheDurationSeconds (cs_System x)) (system_UpdateFrequencySeconds (cs_System x))),
      (''memory'', json_settings (memory_CacheDurationSeconds (cs_Memory x)) (memory_UpdateFrequencySeconds (cs_Memory x))),
      (''disk'', json_settings (disk_CacheDurationSeconds (cs_Disk x)) (disk_UpdateFrequencySeconds (cs_Disk x))),
      (''network'', json_settings (network_CacheDurationSeconds (cs_Network x)) (network_UpdateFrequencySeconds (cs_Network x))),
      (''docker'', json_settings (docker_CacheDurationSeconds (cs_Docker x)) (docker_UpdateFrequencySeconds (cs_Docker x))),
      (''process'', json_settings (process_CacheDurationSeconds (cs_Process x)) (process_UpdateFrequencySeconds (cs_Process x))),
      (''service'', json_settings (service_CacheDurationSeconds (cs_Service x)) (service_UpdateFrequencySeconds (cs_Service x)))]"

definition json_Config :: "Config \<Rightarrow> json" where
  "json_Config x = JObj
     [(''collectionInterval'', JInt (cfg_CollectionInterval x)),
      (''sendingInterval'', JInt (cfg_SendingInterval x)),
      (''serverUrl'', JStr (cfg_ServerUrl x)),
      (''localKey'', JStr (cfg_LocalKey x)),
      (''userKey'', JStr (cfg_UserKey x)),
      (''externalIP'', JStr (cfg_ExternalIP x)),
      (''collectors'', json_CollectorSettings (cfg_Collectors x))]"

section \<open>JSON decoding\<close>

definition dec_settings :: "(int64 \<Rightarrow> 'r \<Rightarrow> 'r) \<Rightarrow> (int64 \<Rightarrow> 'r \<Rightarrow> 'r) \<Rightarrow> 'r decoder" where
  "dec_settings set_duration set_frequency = dec_object
     [(''cacheDurationSeconds'', dec_int set_duration), (''updateFrequencySeconds'', dec_int set_frequency)]"

definition dec_CPUCollectorSettings :: "CPUCollectorSettings decoder" where
  "dec_CPUCollectorSettings = dec_object
     [(''cacheDurationSeconds'', dec_int (\<lambda>n. cpu_CacheDurationSeconds_update (\<lambda>_. n))),
      (''backgroundSamplingMillis'', dec_int (\<lambda>n. cpu_BackgroundSamplingMillis_update (\<lambda>_. n))),
      (''backgroundFrequencySeconds'', dec_int (\<lambda>n. cpu_BackgroundFrequencySeconds_update (\<lambda>_. n))),
      (''directSamplingMillis'', dec_int (\<lambda>n. cpu_DirectSamplingMillis_update (\<lambda>_. n)))]"

definition dec_CollectorSettings :: "CollectorSettings decoder" where
  "dec_CollectorSettings = dec_object
     [(''cpu'', dec_nested cs_CPU (\<lambda>f. cs_CPU_update (\<lambda>_. f)) dec_CPUCollectorSettings),
      (''system'', dec_nested cs_System (\<lambda>f. cs_System_update (\<lambda>_. f))
         (dec_settings (\<lambda>n. system_CacheDurationSeconds_update (\<lambda>_. n)) (\<lambda>n. system_UpdateFrequencySeconds_update (\<lambda>_. n)))),
      (''memory'', dec_nested cs_Memory (\<lambda>f. cs_Memory_update (\<lambda>_. f))
         (dec_settings (\<lambda>n. memory_CacheDurationSeconds_update (\<lambda>_. n)) (\<lambda>n. memory_UpdateFrequencySeconds_update (\<lambda>_. n)))),
      (''disk'', dec_nested cs_Disk (\<lambda>f. cs_Disk_update (\<lambda>_. f))
         (dec_settings (\<lambda>n. disk_CacheDurationSeconds_update (\<lambda>_. n)) (\<lambda>n. disk_UpdateFrequencySeconds_update (\<lambda>_. n)))),
      (''network'', dec_nested cs_Network (\<lambda>f. cs_Network_update (\<lambda>_. f))
         (dec_settings (\<lambda>n. network_CacheDurationSeconds_update (\<lambda>_. n)) (\<lambda>n. network_UpdateFrequencySeconds_update (\<lambda>_. n)))),
      (''docker'', dec_nested cs_Docker (\<lambda>f. cs_Docker_update (\<lambda>_. f))
         (dec_settings (\<lambda>n. docker_CacheDurationSeconds_update (\<lambda>_. n)) (\<lambda>n. docker_UpdateFrequencySeconds_update (\<lambda>_. n)))),
      (''process'', dec_nested cs_Process (\<lambda>f. cs_Process_update (\<lambda>_. f))
         (dec_settings (\<lambda>n. process_CacheDurationSeconds_update (\<lambda>_. n)) (\<lambda>n. process_UpdateFrequencySeconds_update (\<lambda>_. n)))),
      (''service'', dec_nested cs_Service (\<lambda>f. cs_Service_update (\<lambda>_. f))
         (dec_settings (\<lambda>n. service_CacheDurationSeconds_update (\<lambda>_. n)) (\<lambda>n. service_UpdateFrequencySeconds_update (\<lambda>_. n))))]"

definition dec_Config :: "Config decoder" where
  "dec_Config = dec_object
     [(''collectionInterval'', dec_int (\<lambda>n. cfg_CollectionInterval_update (\<lambda>_. n))),
      (''sendingInterval'', dec_int (\<lambda>n. cfg_SendingInterval_update (\<lambda>_. n))),
      (''serverUrl'', dec_str (\<lambda>s. cfg_ServerUrl_update (\<lambda>_. s))),
      (''localKey'', dec_str (\<lambda>s. cfg_LocalKey_update (\<lambda>_. s))),
      (''userKey'', dec_str (\<lambda>s. cfg_UserKey_update (\<lambda>_. s))),
      (''externalIP'', dec_str (\<lambda>s. cfg_ExternalIP_update (\<lambda>_. s))),
      (''collectors'', dec_nested cfg_Collectors (\<lambda>f. cfg_Collectors_update (\<lambda>_. f)) dec_CollectorSettings)]"

definition zero_Config :: Config where
  "zero_Config =
     \<lparr>cfg_CollectionInterval = 0, cfg_SendingInterval = 0, cfg_ServerUrl = [], cfg_LocalKey = [],
      cfg_UserKey = [], cfg_ExternalIP = [],
      cfg_Collectors =
        \<lparr>cs_CPU = \<lparr>cpu_CacheDurationSeconds = 0, cpu_BackgroundSamplingMillis = 0,
           cpu_BackgroundFrequencySeconds = 0, cpu_DirectSamplingMillis = 0\<rparr>,
         cs_System = \<lparr>system_CacheDurationSeconds = 0, system_UpdateFrequencySeconds = 0\<rparr>,
         cs_Memory = \<lparr>memory_CacheDurationSeconds = 0, memory_UpdateFrequencySeconds = 0\<rparr>,
         cs_Disk = \<lparr>disk_CacheDurationSeconds = 0, disk_UpdateFrequencySeconds = 0\<rparr>,
         cs_Network = \<lparr>network_CacheDurationSeconds = 0, network_UpdateFrequencySeconds = 0\<rparr>,
         cs_Docker = \<lparr>docker_CacheDurationSeconds = 0, docker_UpdateFrequencySeconds = 0\<rparr>,
         cs_Process = \<lparr>process_CacheDurationSeconds = 0, process_UpdateFrequencySeconds = 0\<rparr>,
         cs_Service = \<lparr>service_CacheDurationSeconds = 0, service_UpdateFrequencySeconds = 0\<rparr>\<rparr>\<rparr>"

text \<open>\<open>json.Unmarshal\<close> into a zero \<open>Config\<close>; \<open>None\<close> for text that is not JSON.\<close>

definition unmarshal_Config :: "json option \<Rightarrow> Config option" where
  "unmarshal_Config text = Option.bind text (\<lambda>j. dec_Config j zero_Config)"

section \<open>The file\<close>

type_synonym file_system = "string \<rightharpoonup> json option"

text \<open>A write succeeds, fails before it opens the file, or leaves the file with other contents.\<close>

datatype write_result = WriteOk | WriteNotOpened go_error | WritePartial go_error "json option"

record config_env =
  ce_getwd :: "go_error + string"
  ce_getwd_save :: "go_error + string"
  ce_hostname :: "go_error + string"
  ce_random :: "go_error + char list"
  ce_mkdir :: "go_error option"
  ce_read_error :: "go_error option"
  ce_write :: write_result

definition write_file :: "config_env \<Rightarrow> string \<Rightarrow> json \<Rightarrow> file_system \<Rightarrow> go_error option \<times> file_system" where
  "write_file env path data fs =
     (case ce_write env of
        WriteOk \<Rightarrow> (None, fs(path \<mapsto> Some data))
      | WriteNotOpened err \<Rightarrow> (Some err, fs)
      | WritePartial err left \<Rightarrow> (Some err, fs(path \<mapsto> left)))"

definition generateSystemKey :: "config_env \<Rightarrow> go_error + string" where
  "generateSystemKey env =
     (case ce_hostname env of
        Inl err \<Rightarrow> Inl (ErrWrap ''failed to get hostname'' err)
      | Inr hostname \<Rightarrow>
          (case ce_random env of
             Inl err \<Rightarrow> Inl (ErrWrap ''failed to generate random bytes'' err)
           | Inr randomBytes \<Rightarrow> Inr (hex_encode (sha512 (hostname @ ''_'' @ hex_encode randomBytes)))))"

definition SaveConfig :: "config_env \<Rightarrow> Config \<Rightarrow> file_system \<Rightarrow> go_error option \<times> file_system" where
  "SaveConfig env config fs =
     (case ce_getwd_save env of
        Inl err \<Rightarrow> (Some (ErrWrap ''cannot get the working directory'' err), fs)
      | Inr wd \<Rightarrow>
          (case ce_mkdir env of
             Some err \<Rightarrow> (Some err, fs)
           | None \<Rightarrow>
               (case json_marshal (json_Config config) of
                  Inl err \<Rightarrow> (Some err, fs)
                | Inr data \<Rightarrow>
                    write_file env (path_join [path_join [wd, ''configs''], ''config.json'']) data fs)))"

definition LoadConfig :: "config_env \<Rightarrow> file_system \<Rightarrow> (Config \<times> go_error option) \<times> file_system" where
  "LoadConfig env fs =
     (case ce_getwd env of
        Inl err \<Rightarrow> ((zero_Config, Some (ErrWrap ''cannot get the working directory'' err)), fs)
      | Inr wd \<Rightarrow>
          let configFile = path_join [path_join [wd, ''configs''], ''config.json'']
          in case fs configFile of
               None \<Rightarrow>
                 let config = DefaultConfig
                 in (case generateSystemKey env of
                       Inl err \<Rightarrow> ((config, Some (ErrWrap ''system key of the new file'' err)), fs)
                     | Inr newKey \<Rightarrow>
                         let config = config\<lparr>cfg_LocalKey := newKey\<rparr>
                         in (case SaveConfig env config fs of
                               (Some err, fs') \<Rightarrow> ((config, Some (ErrWrap ''saving the new file'' err)), fs')
                             | (None, fs') \<Rightarrow> ((config, None), fs')))
             | Some text \<Rightarrow>
                 (case ce_read_error env of
                    Some err \<Rightarrow> ((zero_Config, Some err), fs)
                  | None \<Rightarrow>
                      (case unmarshal_Config text of
                         None \<Rightarrow> ((DefaultConfig, None), fs)
                       | Some config \<Rightarrow>
                           if cfg_LocalKey config = [] then
                             (case generateSystemKey env of
                                Inl err \<Rightarrow> ((config, Some (ErrWrap ''failed to generate system key'' err)), fs)
                              | Inr newKey \<Rightarrow>
                                  let config = config\<lparr>cfg_LocalKey := newKey\<rparr>
                                  in (case SaveConfig env config fs of
                                        (Some err, fs') \<Rightarrow> ((config, Some (ErrWrap ''failed to save new system key'' err)), fs')
                                      | (None, fs') \<Rightarrow> ((config, None), fs')))
                           else ((config, None), fs))))"

definition LoadConfigFromPath ::
  "config_env \<Rightarrow> string \<Rightarrow> file_system \<Rightarrow> (Config \<times> go_error option) \<times> file_system" where
  "LoadConfigFromPath env configPath fs =
     (case fs configPath of
        None \<Rightarrow>
          let config = DefaultConfig
          in (case generateSystemKey env of
                Inl err \<Rightarrow> ((config, Some (ErrWrap ''system key of the new file'' err)), fs)
              | Inr newKey \<Rightarrow>
                  let config = config\<lparr>cfg_LocalKey := newKey\<rparr>
                  in (case ce_mkdir env of
                        Some err \<Rightarrow> ((config, Some (ErrWrap ''creating the directory'' err)), fs)
                      | None \<Rightarrow>
                          (case json_marshal (json_Config config) of
                             Inl err \<Rightarrow> ((config, Some (ErrWrap ''JSON conversion'' err)), fs)
                           | Inr data \<Rightarrow>
                               (case write_file env configPath data fs of
                                  (Some err, fs') \<Rightarrow> ((config, Some (ErrWrap ''saving the file'' err)), fs')
                                | (None, fs') \<Rightarrow> ((config, None), fs')))))
      | Some text \<Rightarrow>
          (case ce_read_error env of
             Some err \<Rightarrow> ((zero_Config, Some err), fs)
           | None \<Rightarrow>
               (case unmarshal_Config text of
                  None \<Rightarrow> ((DefaultConfig, None), fs)
                | Some config \<Rightarrow>
                    if cfg_LocalKey config = [] then
                      (case generateSystemKey env of
                         Inl err \<Rightarrow> ((config, Some (ErrWrap ''failed to generate system key'' err)), fs)
                       | Inr newKey \<Rightarrow>
                           let config = config\<lparr>cfg_LocalKey := newKey\<rparr>
                           in (case json_marshal (json_Config config) of
                                 Inl err \<Rightarrow> ((config, Some (ErrWrap ''JSON conversion'' err)), fs)
                               | Inr data \<Rightarrow>
                                   (case write_file env configPath data fs of
                                      (Some err, fs') \<Rightarrow> ((config, Some (ErrWrap ''saving the file'' err)), fs')
                                    | (None, fs') \<Rightarrow> ((config, None), fs'))))
                    else ((config, None), fs))))"

section \<open>Lemmas\<close>

lemma json_Config_ok [simp]: "json_marshal (json_Config c) = Inr (json_Config c)"
  by (simp add: json_marshal_def json_Config_def json_CollectorSettings_def json_CPUCollectorSettings_def
      json_settings_def)

text \<open>The fields of a configuration in Go are 64-bit integers.\<close>

definition cpu_settings_ok :: "CPUCollectorSettings \<Rightarrow> bool" where
  "cpu_settings_ok x \<longleftrightarrow> int64_range (cpu_CacheDurationSeconds x) \<and> int64_range (cpu_BackgroundSamplingMillis x)
     \<and> int64_range (cpu_BackgroundFrequencySeconds x) \<and> int64_range (cpu_DirectSamplingMillis x)"

definition settings_ok :: "CollectorSettings \<Rightarrow> bool" where
  "settings_ok x \<longleftrightarrow> cpu_settings_ok (cs_CPU x)
     \<and> int64_range (system_CacheDurationSeconds (cs_System x)) \<and> int64_range (system_UpdateFrequencySeconds (cs_System x))
     \<and> int64_range (memory_CacheDurationSeconds (cs_Memory x)) \<and> int64_range (memory_UpdateFrequencySeconds (cs_Memory x))
     \<and> int64_range (disk_CacheDurationSeconds (cs_Disk x)) \<and> int64_range (disk_UpdateFrequencySeconds (cs_Disk x))
     \<and> int64_range (network_CacheDurationSeconds (cs_Network x)) \<and> int64_range (network_UpdateFrequencySeconds (cs_Network x))
     \<and> int64_range (docker_CacheDurationSeconds (cs_Docker x)) \<and> int64_range (docker_UpdateFrequencySeconds (cs_Docker x))
     \<and> int64_range (process_CacheDurationSeconds (cs_Process x)) \<and> int64_range (process_UpdateFrequencySeconds (cs_Process x))
     \<and> int64_range (service_CacheDurationSeconds (cs_Service x)) \<and> int64_range (service_UpdateFrequencySeconds (cs_Service x))"

definition config_ok :: "Config \<Rightarrow> bool" where
  "config_ok c \<longleftrightarrow> int64_range (cfg_CollectionInterval c) \<and> int64_range (cfg_SendingInterval c)
     \<and> settings_ok (cfg_Collectors c)"

lemma config_ok_zero [simp]: "config_ok zero_Config"
  by (simp add: config_ok_def settings_ok_def cpu_settings_ok_def zero_Config_def int64_range_def)

lemma config_ok_default [simp]: "config_ok DefaultConfig"
  by (simp add: config_ok_def settings_ok_def cpu_settings_ok_def DefaultConfig_def int64_range_def)

lemma config_ok_strings [simp]:
  "config_ok (c\<lparr>cfg_LocalKey := k\<rparr>) = config_ok c" "config_ok (c\<lparr>cfg_ExternalIP := k\<rparr>) = config_ok c"
  "config_ok (c\<lparr>cfg_UserKey := k\<rparr>) = config_ok c"
  by (simp_all add: config_ok_def)

lemma dec_settings_members:
  "int64_range d \<Longrightarrow> int64_range u \<Longrightarrow>
   dec_settings sd su (json_settings d u) r = Some (su u (sd d r))"
  by (simp add: dec_settings_def json_settings_def find_field_exact)

lemma dec_cpu_roundtrip:
  "cpu_settings_ok x \<Longrightarrow> dec_CPUCollectorSettings (json_CPUCollectorSettings x) r = Some x"
  by (cases r; cases x)
     (simp add: dec_CPUCollectorSettings_def json_CPUCollectorSettings_def find_field_exact cpu_settings_ok_def)

lemma dec_collectors_roundtrip:
  assumes "settings_ok x" shows "dec_CollectorSettings (json_CollectorSettings x) r = Some x"
proof -
  have ok: "cpu_settings_ok (cs_CPU x)" using assms by (simp add: settings_ok_def)
  have "dec_CollectorSettings (json_CollectorSettings x) r = Some
    \<lparr>cs_CPU = cs_CPU x, cs_System = cs_System x, cs_Memory = cs_Memory x, cs_Disk = cs_Disk x,
     cs_Network = cs_Network x, cs_Docker = cs_Docker x, cs_Process = cs_Process x, cs_Service = cs_Service x\<rparr>"
    using assms
    by (cases r) (simp add: dec_CollectorSettings_def json_CollectorSettings_def find_field_exact
        dec_nested_def dec_cpu_roundtrip [OF ok] dec_settings_members settings_ok_def)
  then show ?thesis by simp
qed

lemma dec_config_roundtrip:
  assumes "config_ok c" shows "dec_Config (json_Config c) r = Some c"
proof -
  have ok: "settings_ok (cfg_Collectors c)" using assms by (simp add: config_ok_def)
  show ?thesis
    using assms
    by (cases r) (simp add: dec_Config_def json_Config_def find_field_exact dec_nested_def
        dec_collectors_roundtrip [OF ok] config_ok_def)
qed

lemma keeps_settings:
  "(\<And>n x. int64_range n \<Longrightarrow> P x \<Longrightarrow> P (sd n x)) \<Longrightarrow> (\<And>n x. int64_range n \<Longrightarrow> P x \<Longrightarrow> P (su n x)) \<Longrightarrow>
   dec_keeps P (dec_settings sd su)"
  unfolding dec_settings_def by (rule keeps_object) (simp add: keeps_int)

lemma keeps_cpu: "dec_keeps cpu_settings_ok dec_CPUCollectorSettings"
  unfolding dec_CPUCollectorSettings_def
  by (rule keeps_object) (auto simp: cpu_settings_ok_def intro!: keeps_int)

lemma keeps_collectors: "dec_keeps settings_ok dec_CollectorSettings"
proof -
  have "dec_keeps (\<lambda>f. settings_ok (cs_CPU_update (\<lambda>_. f) r)) dec_CPUCollectorSettings"
    if "settings_ok r" for r
    using keeps_cpu that by (auto simp: dec_keeps_def settings_ok_def)
  then show ?thesis
    unfolding dec_CollectorSettings_def
    by (intro keeps_object)
       (auto simp: settings_ok_def intro!: keeps_nested keeps_settings)
qed

lemma keeps_Config: "dec_keeps config_ok dec_Config"
proof -
  have "dec_keeps (\<lambda>f. config_ok (cfg_Collectors_update (\<lambda>_. f) r)) dec_CollectorSettings"
    if "config_ok r" for r
    using keeps_collectors that by (auto simp: dec_keeps_def config_ok_def)
  then show ?thesis
    unfolding dec_Config_def
    by (intro keeps_object)
       (auto simp: config_ok_def intro!: keeps_nested keeps_int keeps_str)
qed

lemma unmarshal_ok: "unmarshal_Config text = Some c \<Longrightarrow> config_ok c"
  using dec_keepsD [OF keeps_Config] by (cases "text") (auto simp: unmarshal_Config_def)

lemma unmarshal_json [simp]: "config_ok c \<Longrightarrow> unmarshal_Config (Some (json_Config c)) = Some c"
  by (simp add: unmarshal_Config_def dec_config_roundtrip)

lemma key_format:
  "generateSystemKey env = Inr k \<Longrightarrow> length k = 128 \<and> list_all is_hex_digit k"
  by (auto simp: generateSystemKey_def hex_encode_digits split: sum.splits)

lemma key_nonempty: "generateSystemKey env = Inr k \<Longrightarrow> k \<noteq> []"
  by (drule key_format) auto

text \<open>A successful load, by what the file held before it.\<close>

definition key_created :: "config_env \<Rightarrow> string \<Rightarrow> file_system \<Rightarrow> Config \<Rightarrow> Config \<Rightarrow> file_system \<Rightarrow> bool" where
  "key_created env path fs c0 c fs' \<longleftrightarrow> config_ok c0 \<and>
     (\<exists>k. generateSystemKey env = Inr k \<and> c = c0\<lparr>cfg_LocalKey := k\<rparr>)
     \<and> ce_write env = WriteOk \<and> fs' = fs(path \<mapsto> Some (json_Config c))"

lemma load_success:
  assumes "LoadConfigFromPath env path fs = ((c, None), fs')"
  shows "(fs path = None \<and> key_created env path fs DefaultConfig c fs') \<or>
    (\<exists>text. fs path = Some text \<and> unmarshal_Config text = None \<and> c = DefaultConfig \<and> fs' = fs) \<or>
    (\<exists>text. fs path = Some text \<and> unmarshal_Config text = Some c \<and> cfg_LocalKey c \<noteq> [] \<and> fs' = fs) \<or>
    (\<exists>text c0. fs path = Some text \<and> unmarshal_Config text = Some c0 \<and> cfg_LocalKey c0 = []
       \<and> key_created env path fs c0 c fs')"
  using assms
  by (auto simp: LoadConfigFromPath_def Let_def write_file_def key_created_def dest: unmarshal_ok
      split: option.splits sum.splits write_result.splits if_splits)

lemma key_created_facts:
  "key_created env path fs c0 c fs' \<Longrightarrow> config_ok c \<and> cfg_LocalKey c \<noteq> [] \<and> fs' path = Some (Some (json_Config c))
     \<and> (\<forall>p. p \<noteq> path \<longrightarrow> fs' p = fs p)"
  by (auto simp: key_created_def dest: key_nonempty)

section \<open>Properties\<close>

text \<open>
  C22. What \<open>json.MarshalIndent\<close> writes of a configuration, \<open>json.Unmarshal\<close> reads back as the
  same configuration, every section and field of it.
\<close>

theorem config_roundtrip:
  assumes "config_ok c" shows "unmarshal_Config (Some (json_Config c)) = Some c"
  using assms by (rule unmarshal_json)

lemma config_roundtrip_witness: "unmarshal_Config (Some (json_Config DefaultConfig)) = Some DefaultConfig"
  by (rule config_roundtrip) simp

text \<open>
  C21. When the file is absent and the system calls succeed, loading creates it: the default
  configuration with a key of 128 lower-case hexadecimal digits, the hash of the host name and the
  random bytes, written to the path and nowhere else.
\<close>

theorem load_creates_file:
  assumes "fs path = None" "ce_hostname env = Inr h" "ce_random env = Inr rb"
    and "ce_mkdir env = None" "ce_write env = WriteOk"
  shows "\<exists>k. LoadConfigFromPath env path fs
      = ((DefaultConfig\<lparr>cfg_LocalKey := k\<rparr>, None), fs(path \<mapsto> Some (json_Config (DefaultConfig\<lparr>cfg_LocalKey := k\<rparr>))))
    \<and> k = hex_encode (sha512 (h @ ''_'' @ hex_encode rb)) \<and> length k = 128 \<and> list_all is_hex_digit k"
proof -
  have k: "generateSystemKey env = Inr (hex_encode (sha512 (h @ ''_'' @ hex_encode rb)))"
    using assms by (simp add: generateSystemKey_def)
  with assms key_format [OF k] show ?thesis
    by (intro exI [of _ "hex_encode (sha512 (h @ ''_'' @ hex_encode rb))"])
       (simp add: LoadConfigFromPath_def Let_def write_file_def)
qed

definition sample_config_env :: config_env where
  "sample_config_env = \<lparr>ce_getwd = Inr ''/opt'', ce_getwd_save = Inr ''/opt'', ce_hostname = Inr ''node1'',
     ce_random = Inr (replicate 16 (CHR ''x'')), ce_mkdir = None, ce_read_error = None, ce_write = WriteOk\<rparr>"

lemma load_creates_file_witness:
  "\<exists>k fs'. LoadConfigFromPath sample_config_env ''/opt/configs/config.json'' Map.empty
     = ((DefaultConfig\<lparr>cfg_LocalKey := k\<rparr>, None), fs') \<and> length k = 128"
  using load_creates_file [of Map.empty "''/opt/configs/config.json''" sample_config_env]
  by (auto simp: sample_config_env_def)

text \<open>
  C19. Loading is idempotent: after a successful load, a second one that can read the file answers
  the same configuration and changes nothing, so the key a machine got once stays its key.
\<close>

theorem load_idempotent:
  assumes "LoadConfigFromPath env path fs = ((c, None), fs')" "ce_read_error env' = None"
  shows "LoadConfigFromPath env' path fs' = ((c, None), fs')"
  using load_success [OF assms(1)]
proof (elim disjE exE conjE)
  assume "key_created env path fs DefaultConfig c fs'"
  from key_created_facts [OF this] show ?thesis using assms(2) by (simp add: LoadConfigFromPath_def)
next
  fix c0 assume "key_created env path fs c0 c fs'"
  from key_created_facts [OF this] show ?thesis using assms(2) by (simp add: LoadConfigFromPath_def)
qed (simp_all add: LoadConfigFromPath_def assms(2))

lemma load_idempotent_witness:
  "\<exists>c fs'. LoadConfigFromPath sample_config_env ''/c'' Map.empty = ((c, None), fs')
    \<and> LoadConfigFromPath sample_config_env ''/c'' fs' = ((c, None), fs')"
proof -
  have "generateSystemKey sample_config_env
      = Inr (hex_encode (sha512 (''node1'' @ ''_'' @ hex_encode (replicate 16 (CHR ''x'')))))"
    by (simp add: generateSystemKey_def sample_config_env_def)
  then obtain c fs' where l: "LoadConfigFromPath sample_config_env ''/c'' Map.empty = ((c, None), fs')"
    by (simp add: LoadConfigFromPath_def Let_def write_file_def sample_config_env_def)
  moreover have "ce_read_error sample_config_env = None" by (simp add: sample_config_env_def)
  ultimately show ?thesis using load_idempotent [OF l] by blast
qed

text \<open>
  C20. A load that reports success yields a key, unless the file exists and does not decode: then the
  defaults are answered, without a key and without an error. It touches no other file, and rewrites
  the file only to add a key to a configuration that had none.
\<close>

theorem load_key_present:
  assumes "LoadConfigFromPath env path fs = ((c, None), fs')"
  shows "(cfg_LocalKey c = [] \<longleftrightarrow> (\<exists>text. fs path = Some text \<and> unmarshal_Config text = None))
    \<and> (fs' = fs \<or> ((fs path = None \<or> (\<exists>text c0. fs path = Some text \<and> unmarshal_Config text = Some c0
           \<and> cfg_LocalKey c0 = [] \<and> c = c0\<lparr>cfg_LocalKey := cfg_LocalKey c\<rparr>))
         \<and> fs' = fs(path \<mapsto> Some (json_Config c))))"
  using load_success [OF assms]
proof (elim disjE exE conjE)
  assume n: "fs path = None" and k: "key_created env path fs DefaultConfig c fs'"
  with key_created_facts [OF k] show ?thesis by (auto simp: key_created_def)
next
  fix "text" c0 assume n: "fs path = Some text" "unmarshal_Config text = Some c0" "cfg_LocalKey c0 = []"
    and k: "key_created env path fs c0 c fs'"
  with key_created_facts [OF k] show ?thesis by (auto simp: key_created_def)
qed (auto simp: DefaultConfig_def)

lemma load_key_present_witness:
  "cfg_LocalKey (fst (fst (LoadConfigFromPath sample_config_env ''/c'' [''/c'' \<mapsto> None]))) = []"
proof -
  have l: "LoadConfigFromPath sample_config_env ''/c'' [''/c'' \<mapsto> None] = ((DefaultConfig, None), [''/c'' \<mapsto> None])"
    by (simp add: LoadConfigFromPath_def sample_config_env_def unmarshal_Config_def)
  from load_key_present [OF l] show ?thesis by (simp add: l unmarshal_Config_def)
qed

text \<open>
  The two loaders agree: on a working directory whose configuration path is the given one, and
  when the directory can be created, \<open>LoadConfig\<close> and \<open>LoadConfigFromPath\<close> answer the same
  configuration, leave the same files, and one fails exactly when the other does.
\<close>

theorem loaders_agree:
  assumes "ce_getwd env = Inr wd" "ce_getwd_save env = Inr wd" "ce_mkdir env = None"
  shows "(case LoadConfig env fs of ((c, e), fs1) \<Rightarrow>
    case LoadConfigFromPath env (path_join [path_join [wd, ''configs''], ''config.json'']) fs of
      ((c', e'), fs2) \<Rightarrow> c = c' \<and> (e = None \<longleftrightarrow> e' = None) \<and> fs1 = fs2)"
  using assms
  by (auto simp: LoadConfig_def LoadConfigFromPath_def SaveConfig_def Let_def
      split: option.splits sum.splits prod.splits if_splits)

lemma loaders_agree_witness:
  "fst (fst (LoadConfig sample_config_env Map.empty))
   = fst (fst (LoadConfigFromPath sample_config_env (path_join [path_join [''/opt'', ''configs''], ''config.json'']) Map.empty))"
  using loaders_agree [of sample_config_env "''/opt''" Map.empty]
  by (simp add: sample_config_env_def split: prod.splits)

end
