(* ===== verification/Net_Utils.thy ===== *)
theory Net_Utils
  imports Go_Strings
begin

text \<open>
  The lookup of the machine's public address, \<open>internal/utils/network.go\<close>. A service's HTTP
  answer is the argument \<open>get\<close>; the status line, the body and the failures to connect and to
  read are the parts of it the code looks at.
\<close>

section \<open>Operations\<close>

record http_response =
  hr_StatusCode :: int64
  hr_Status :: string
  hr_Body :: "go_error + string"

definition ExternalIPServices :: "string list" where
  "ExternalIPServices =
     [''https://ipv4.icanhazip.com'', ''https://api.ipify.org'', ''https://checkip.amazonaws.com'',
      ''https://ipinfo.io/ip'', ''https://ifconfig.me/ip'']"

definition valid_part :: "string \<Rightarrow> bool" where
  "valid_part part \<longleftrightarrow> \<not> (length part = 0 \<or> 3 < length part) \<and> list_all is_digit part"

definition isValidIP :: "string \<Rightarrow> bool" where
  "isValidIP ip =
     (let parts = split_on (CHR ''.'') ip
      in if length parts \<noteq> 4 then False else list_all valid_part parts)"

text \<open>One service: the address, or the error that becomes \<open>lastErr\<close>.\<close>

definition query_service :: "(string \<Rightarrow> go_error + http_response) \<Rightarrow> string \<Rightarrow> go_error + string" where
  "query_service get service =
     (case get service of
        Inl err \<Rightarrow> Inl err
      | Inr resp \<Rightarrow>
          if hr_StatusCode resp \<noteq> 200 then Inl (ErrNew (''HTTP '' @ hr_Status resp))
          else (case hr_Body resp of
                  Inl err \<Rightarrow> Inl err
                | Inr body \<Rightarrow>
                    let ip = trim_space body
                    in if ip \<noteq> [] \<and> isValidIP ip then Inr ip
                       else Inl (ErrNew (''invalid IP format: '' @ ip))))"

fun query_loop ::
  "(string \<Rightarrow> go_error + http_response) \<Rightarrow> string list \<Rightarrow> go_error option \<Rightarrow> go_error + string" where
  "query_loop get [] lastErr =
     Inl (case lastErr of None \<Rightarrow> ErrNew ''all external IP services failed''
          | Some err \<Rightarrow> ErrWrap ''all external IP services failed'' err)"
| "query_loop get (service # services) lastErr =
     (case query_service get service of
        Inr ip \<Rightarrow> Inr ip
      | Inl err \<Rightarrow> query_loop get services (Some err))"

definition GetExternalIP :: "(string \<Rightarrow> go_error + http_response) \<Rightarrow> go_error + string" where
  "GetExternalIP get = query_loop get ExternalIPServices None"

section \<open>Lemmas\<close>

lemma query_loop_Inr:
  "query_loop get ss e = Inr ip \<longleftrightarrow>
   (\<exists>pre s post. ss = pre @ s # post \<and> list_all (\<lambda>x. isl (query_service get x)) pre
      \<and> query_service get s = Inr ip)"
proof (induction ss arbitrary: e)
  case (Cons a ss)
  show ?case
  proof (cases "query_service get a")
    case (Inl err)
    have "(\<exists>pre s post. a # ss = pre @ s # post \<and> list_all (\<lambda>x. isl (query_service get x)) pre
          \<and> query_service get s = Inr ip) \<longleftrightarrow>
        (\<exists>pre s post. ss = pre @ s # post \<and> list_all (\<lambda>x. isl (query_service get x)) pre
          \<and> query_service get s = Inr ip)"
      (is "?l = ?r")
    proof
      assume ?l
      then obtain pre s post where p: "a # ss = pre @ s # post"
        "list_all (\<lambda>x. isl (query_service get x)) pre" "query_service get s = Inr ip" by blast
      with Inl show ?r by (cases pre) auto
    next
      assume ?r
      then obtain pre s post where "ss = pre @ s # post"
        "list_all (\<lambda>x. isl (query_service get x)) pre" "query_service get s = Inr ip" by blast
      with Inl show ?l by (intro exI [of _ "a # pre"]) auto
    qed
    with Inl Cons.IH show ?thesis by simp
  next
    case (Inr b)
    have "ip = b" if "a # ss = pre @ s # post" "list_all (\<lambda>x. isl (query_service get x)) pre"
      "query_service get s = Inr ip" for pre s post
      using that Inr by (cases pre) auto
    moreover have "\<exists>pre s post. a # ss = pre @ s # post
        \<and> list_all (\<lambda>x. isl (query_service get x)) pre \<and> query_service get s = Inr b"
      using Inr by (intro exI [of _ "[]"] exI [of _ a] exI [of _ ss]) simp
    ultimately show ?thesis using Inr by auto
  qed
qed simp

lemma query_loop_Inl:
  "ss \<noteq> [] \<Longrightarrow> (\<exists>err. query_loop get ss e = Inl err) \<longleftrightarrow> list_all (\<lambda>x. isl (query_service get x)) ss"
proof (induction ss arbitrary: e)
  case (Cons a ss)
  then show ?case
    by (cases "query_service get a"; cases "ss = []") auto
qed simp

lemma join4: "join_with c [p, q, r, s] = p @ c # q @ c # r @ c # s"
  by simp

lemma valid_part_no_dot: "valid_part p \<Longrightarrow> CHR ''.'' \<notin> set p"
  by (auto simp: valid_part_def list_all_iff is_digit_def)

section \<open>Properties\<close>

text \<open>
  \<open>isValidIP\<close> accepts exactly four dot-separated groups of one to three decimal digits. No
  group is compared with 255, so it also accepts the likes of \<open>999.999.999.999\<close>.
\<close>

theorem isValidIP_iff:
  "isValidIP ip \<longleftrightarrow> (\<exists>p q r s. ip = p @ ''.'' @ q @ ''.'' @ r @ ''.'' @ s
     \<and> list_all (\<lambda>g. g \<noteq> [] \<and> length g \<le> 3 \<and> list_all is_digit g) [p, q, r, s])"
proof
  assume v: "isValidIP ip"
  then obtain p q r s where parts: "split_on (CHR ''.'') ip = [p, q, r, s]"
    by (auto simp: isValidIP_def Let_def length_Suc_conv numeral_eq_Suc split: if_splits)
  have "ip = join_with (CHR ''.'') [p, q, r, s]" unfolding parts [symmetric] by simp
  with v parts show "\<exists>p q r s. ip = p @ ''.'' @ q @ ''.'' @ r @ ''.'' @ s
     \<and> list_all (\<lambda>g. g \<noteq> [] \<and> length g \<le> 3 \<and> list_all is_digit g) [p, q, r, s]"
    by (intro exI [of _ p] exI [of _ q] exI [of _ r] exI [of _ s])
       (auto simp: isValidIP_def valid_part_def)
next
  assume "\<exists>p q r s. ip = p @ ''.'' @ q @ ''.'' @ r @ ''.'' @ s
     \<and> list_all (\<lambda>g. g \<noteq> [] \<and> length g \<le> 3 \<and> list_all is_digit g) [p, q, r, s]"
  then obtain p q r s where ip: "ip = join_with (CHR ''.'') [p, q, r, s]"
    and v: "valid_part p" "valid_part q" "valid_part r" "valid_part s"
    by (auto simp: valid_part_def)
  have "split_on (CHR ''.'') ip = [p, q, r, s]"
    unfolding ip using v by (intro split_on_join) (auto dest: valid_part_no_dot)
  then show "isValidIP ip" using v by (simp add: isValidIP_def)
qed

text \<open>
  C40. \<open>GetExternalIP\<close> answers with the first service, in the listed order, whose response has
  status 200 and a body that is a valid address once trimmed, and every answer is such an address;
  it fails exactly when no service gives one.
\<close>

theorem external_ip_first_valid:
  "(GetExternalIP get = Inr ip \<longleftrightarrow>
      (\<exists>pre s post. ExternalIPServices = pre @ s # post
         \<and> list_all (\<lambda>x. isl (query_service get x)) pre \<and> query_service get s = Inr ip))
   \<and> ((\<exists>err. GetExternalIP get = Inl err) \<longleftrightarrow>
        list_all (\<lambda>x. isl (query_service get x)) ExternalIPServices)
   \<and> (query_service get s = Inr ip \<longleftrightarrow>
        (\<exists>resp body. get s = Inr resp \<and> hr_StatusCode resp = 200 \<and> hr_Body resp = Inr body
           \<and> ip = trim_space body \<and> isValidIP ip))"
proof (intro conjI)
  show "GetExternalIP get = Inr ip \<longleftrightarrow>
      (\<exists>pre s post. ExternalIPServices = pre @ s # post
         \<and> list_all (\<lambda>x. isl (query_service get x)) pre \<and> query_service get s = Inr ip)"
    unfolding GetExternalIP_def by (rule query_loop_Inr)
  show "(\<exists>err. GetExternalIP get = Inl err) \<longleftrightarrow>
        list_all (\<lambda>x. isl (query_service get x)) ExternalIPServices"
    unfolding GetExternalIP_def by (rule query_loop_Inl) (simp add: ExternalIPServices_def)
  have "\<not> isValidIP []" by (simp add: isValidIP_def)
  then show "query_service get s = Inr ip \<longleftrightarrow>
        (\<exists>resp body. get s = Inr resp \<and> hr_StatusCode resp = 200 \<and> hr_Body resp = Inr body
           \<and> ip = trim_space body \<and> isValidIP ip)"
    by (auto simp: query_service_def Let_def split: sum.splits if_splits)
qed

end
