(* ===== verification/Log_Setup.thy ===== *)
theory Log_Setup
  imports Go_Json Go_Path
begin

text \<open>
  The logger of \<open>internal/logger/logger.go\<close>: where the package's \<open>init\<close> and \<open>InitLogger\<close> put the log
  file, whom they hand it to, and which logger a message goes to. The libraries that write, rotate and
  format the log (zerolog, lumberjack) are not modelled: a call to them, like one to the operating
  system, is an action of a trace. How \<open>main\<close> sets the logger up is here as well.
\<close>

section \<open>State and actions\<close>

datatype log_level = DebugLevel | InfoLevel | WarnLevel | ErrorLevel

text \<open>The fields of \<open>lumberjack.Logger\<close> that the program sets.\<close>

record log_file =
  lf_Filename :: string
  lf_MaxSize :: int64
  lf_MaxBackups :: int64
  lf_MaxAge :: int64
  lf_Compress :: bool

text \<open>The layouts are Go's, spelled in the reference time.\<close>

record console_writer =
  cw_TimeFormat :: string

text \<open>A message names the file of the logger it is given to, besides the console.\<close>

datatype log_action =
    MkdirAll string nat
  | CreateFile string nat
  | Chown string int64 int64
  | SetGlobalLevel log_level
  | Msg string log_level string

record logger =
  lg_file :: log_file
  lg_console :: console_writer
  lg_time_format :: string
  lg_caller :: "string \<Rightarrow> int64 \<Rightarrow> string"
  lg_caller_skip :: int64
  lg_trace :: "log_action list"

text \<open>
  The answers of the operating system: the date of today, whether \<open>os.Stat\<close> says that a path does
  not exist, and the environment variables. Errors of the calls are ignored by the code.
\<close>

record logger_env =
  le_today :: string
  le_missing :: "string \<Rightarrow> bool"
  le_getenv :: "string \<Rightarrow> string"

definition act :: "log_action \<Rightarrow> logger \<Rightarrow> logger" where
  "act a lg = lg\<lparr>lg_trace := lg_trace lg @ [a]\<rparr>"

definition log_message :: "log_level \<Rightarrow> string \<Rightarrow> logger \<Rightarrow> logger" where
  "log_message level msg lg = act (Msg (lf_Filename (lg_file lg)) level msg) lg"

definition Info :: "string \<Rightarrow> logger \<Rightarrow> logger" where "Info = log_message InfoLevel"
definition Error :: "string \<Rightarrow> logger \<Rightarrow> logger" where "Error = log_message ErrorLevel"
definition Debug :: "string \<Rightarrow> logger \<Rightarrow> logger" where "Debug = log_message DebugLevel"
definition Warn :: "string \<Rightarrow> logger \<Rightarrow> logger" where "Warn = log_message WarnLevel"

text \<open>\<open>CallerMarshalFunc\<close>: the name of the file without its directories, and the line.\<close>

definition caller_marshal :: "string \<Rightarrow> int64 \<Rightarrow> string" where
  "caller_marshal file line = path_base file @ '':'' @ format_int line"

section \<open>Setting the logger up\<close>

text \<open>The modes are the octal 775 and 664.\<close>

definition ensure_log_dir :: "logger_env \<Rightarrow> string \<Rightarrow> logger \<Rightarrow> logger" where
  "ensure_log_dir env logDir lg = (if le_missing env logDir then act (MkdirAll logDir 509) lg else lg)"

definition log_path :: "logger_env \<Rightarrow> string \<Rightarrow> string" where
  "log_path env logDir = (let logFile = le_today env @ ''.log'' in path_join [logDir, logFile])"

definition rotating_file :: "string \<Rightarrow> log_file" where
  "rotating_file logPath =
     \<lparr>lf_Filename = logPath, lf_MaxSize = 5, lf_MaxBackups = 10, lf_MaxAge = 14, lf_Compress = True\<rparr>"

definition install_logger :: "string \<Rightarrow> logger \<Rightarrow> logger" where
  "install_logger logPath lg = (act (SetGlobalLevel InfoLevel) lg)
     \<lparr>lg_file := rotating_file logPath, lg_console := \<lparr>cw_TimeFormat = ''2006-01-02 15:04:05.000''\<rparr>,
      lg_caller := caller_marshal, lg_caller_skip := 3\<rparr>"

definition logger_init :: "logger_env \<Rightarrow> logger \<Rightarrow> logger" where
  "logger_init env lg =
     (let lg = lg\<lparr>lg_time_format := ''2006-01-02T15:04:05.999999999Z07:00''\<rparr>;
          logDir = ''logs''; lg = ensure_log_dir env logDir lg
      in install_logger (log_path env logDir) lg)"

definition hand_over :: "logger_env \<Rightarrow> string \<Rightarrow> string \<Rightarrow> logger \<Rightarrow> logger" where
  "hand_over env logPath logDir lg =
     (let sudoUID = le_getenv env ''SUDO_UID''
      in if sudoUID \<noteq> [] then
           (case atoi sudoUID of
              (uid, None) \<Rightarrow>
                let sudoGID = le_getenv env ''SUDO_GID'';
                    gid = (if sudoGID \<noteq> [] then fst (atoi sudoGID) else - 1)
                in act (Chown logDir uid gid) (act (Chown logPath uid gid) lg)
            | (_, Some err) \<Rightarrow> lg)
         else lg)"

definition InitLogger :: "logger_env \<Rightarrow> string \<Rightarrow> logger \<Rightarrow> logger" where
  "InitLogger env logDir lg =
     (let lg = ensure_log_dir env logDir lg;
          logPath = log_path env logDir;
          lg = (if le_missing env logPath then act (CreateFile logPath 436) lg else lg);
          lg = hand_over env logPath logDir lg
      in Info (''log system initialised: '' @ logPath) (install_logger logPath lg))"

text \<open>The start of \<open>main\<close>: the log directory lies beside the executable, when its path is known.\<close>

definition main_InitLogger :: "logger_env \<Rightarrow> go_error + string \<Rightarrow> logger \<Rightarrow> logger" where
  "main_InitLogger env execPath lg =
     (case execPath of
        Inl err \<Rightarrow> lg
      | Inr path \<Rightarrow>
          let execDir = path_dir path; logDir = path_join [execDir, ''logs'']
          in InitLogger env logDir lg)"

text \<open>The logger before the package's \<open>init\<close>.\<close>

definition no_logger :: logger where
  "no_logger = \<lparr>lg_file = \<lparr>lf_Filename = [], lf_MaxSize = 0, lf_MaxBackups = 0, lf_MaxAge = 0, lf_Compress = False\<rparr>,
     lg_console = \<lparr>cw_TimeFormat = []\<rparr>, lg_time_format = [], lg_caller = (\<lambda>_ _. []), lg_caller_skip = 0, lg_trace = []\<rparr>"

section \<open>Lemmas\<close>

fun chown_of :: "log_action \<Rightarrow> (string \<times> int64 \<times> int64) list" where
  "chown_of (Chown p u g) = [(p, u, g)]"
| "chown_of _ = []"

definition chowns :: "logger \<Rightarrow> (string \<times> int64 \<times> int64) list" where
  "chowns lg = concat (map chown_of (lg_trace lg))"

lemma act_simps [simp]:
  "lg_file (act a lg) = lg_file lg" "lg_trace (act a lg) = lg_trace lg @ [a]"
  "chowns (act a lg) = chowns lg @ chown_of a"
  by (simp_all add: act_def chowns_def)

lemma chowns_simps [simp]:
  "chowns (ensure_log_dir env d lg) = chowns lg" "chowns (Info m lg) = chowns lg"
  "chowns (install_logger p lg) = chowns lg"
  by (simp_all add: ensure_log_dir_def Info_def log_message_def install_logger_def chowns_def act_def)

lemma InitLogger_file: "lg_file (InitLogger env logDir lg) = rotating_file (log_path env logDir)"
  by (simp add: InitLogger_def Info_def log_message_def install_logger_def Let_def)

lemma InitLogger_chowns:
  "chowns (InitLogger env logDir lg) = chowns lg @
     (case atoi (le_getenv env ''SUDO_UID'') of
        (u, None) \<Rightarrow>
          let g = (if le_getenv env ''SUDO_GID'' = [] then - 1 else fst (atoi (le_getenv env ''SUDO_GID'')))
          in [(log_path env logDir, u, g), (logDir, u, g)]
      | (u, Some err) \<Rightarrow> [])"
  by (auto simp: InitLogger_def hand_over_def Let_def split: prod.split option.split)

lemma atoi_syntax: "snd (atoi s) = Some ErrSyntax \<Longrightarrow> fst (atoi s) = 0"
proof -
  have "snd (atoi_signed b ds) = Some ErrSyntax \<Longrightarrow> fst (atoi_signed b ds) = 0" for b ds
    by (auto simp: atoi_signed_def Let_def split: prod.splits if_splits)
  then show "snd (atoi s) = Some ErrSyntax \<Longrightarrow> fst (atoi s) = 0" by (cases s) (auto split: if_splits)
qed

text \<open>Nothing is given to another user before it exists.\<close>

lemma InitLogger_creates:
  assumes "le_missing env (log_path env logDir)"
  obtains acts where "lg_trace (InitLogger env logDir lg) = lg_trace lg
      @ (if le_missing env logDir then [MkdirAll logDir 509] else []) @ CreateFile (log_path env logDir) 436 # acts"
    "\<And>p m. CreateFile p m \<notin> set acts" "\<And>p m. MkdirAll p m \<notin> set acts"
proof (rule that)
  let ?uid = "atoi (le_getenv env ''SUDO_UID'')" and ?p = "log_path env logDir"
  let ?gid = "if le_getenv env ''SUDO_GID'' = [] then - 1 else fst (atoi (le_getenv env ''SUDO_GID''))"
  show "lg_trace (InitLogger env logDir lg) = lg_trace lg
      @ (if le_missing env logDir then [MkdirAll logDir 509] else []) @ CreateFile ?p 436 #
        ((if snd ?uid = None then [Chown ?p (fst ?uid) ?gid, Chown logDir (fst ?uid) ?gid] else [])
         @ [SetGlobalLevel InfoLevel, Msg ?p InfoLevel (''log system initialised: '' @ ?p)])"
    using assms
    by (auto simp: InitLogger_def ensure_log_dir_def hand_over_def install_logger_def Info_def log_message_def
        rotating_file_def Let_def split: prod.split option.split)
qed auto

text \<open>The directory of an absolute path of plain names.\<close>

lemma join_with_snoc: "ps \<noteq> [] \<Longrightarrow> join_with c (ps @ [x]) = join_with c ps @ c # x"
  by (induction ps rule: induct_list012) (simp_all add: join_with_Cons)

lemma path_dir_plain:
  assumes "list_all plain_name ps" "ps \<noteq> []" "plain_name exe"
  shows "path_dir (CHR ''/'' # join_with (CHR ''/'') (ps @ [exe])) = CHR ''/'' # join_with (CHR ''/'') ps"
proof -
  let ?j = "CHR ''/'' # join_with (CHR ''/'') ps"
  have "dropWhile (\<lambda>c. c \<noteq> CHR ''/'') (rev (?j @ CHR ''/'' # exe)) = CHR ''/'' # rev ?j"
    using assms(3) by (auto simp: plain_name_def dropWhile_append3)
  then have "path_dir (?j @ CHR ''/'' # exe) = path_clean (?j @ ''/'')"
    by (simp add: path_dir_def)
  moreover have "split_on (CHR ''/'') (join_with (CHR ''/'') (ps @ [[]])) = ps @ [[]]"
    using assms(1) by (intro split_on_join) (auto simp: list_all_iff plain_name_def)
  then have "split_on (CHR ''/'') (?j @ ''/'') = [] # ps @ [[]]"
    using assms(2) by (simp add: join_with_snoc)
  moreover have "clean_parts True ([] # ps @ [[]]) [] = ps"
  proof -
    have "clean_parts True (ps @ [[]]) kept = rev kept @ ps" for kept
      using assms(1) by (induction ps arbitrary: kept) (auto simp: plain_name_def)
    then show ?thesis by simp
  qed
  ultimately show ?thesis using assms(2) by (simp add: path_clean_def join_with_snoc)
qed

section \<open>Property\<close>

text \<open>
  C39. The log of the program lies beside its executable, in \<open>logs\<close> under the name of the day, and
  under \<open>sudo\<close> that file and its directory, and nothing else, are handed to the calling user: with a
  decimal \<open>SUDO_GID\<close> to that group, with none leaving the group as it is, and with a malformed one to
  the group root.
\<close>

theorem log_beside_executable:
  assumes "list_all plain_name ps" "ps \<noteq> []" "plain_name exe" "CHR ''/'' \<notin> set (le_today env)"
    and "le_getenv env ''SUDO_UID'' = format_int u" "int64_range u"
  shows "let file = CHR ''/'' # join_with (CHR ''/'') (ps @ [''logs'', le_today env @ ''.log'']);
      directory = CHR ''/'' # join_with (CHR ''/'') (ps @ [''logs'']);
      sudo_gid = le_getenv env ''SUDO_GID'';
      lg' = main_InitLogger env (Inr (CHR ''/'' # join_with (CHR ''/'') (ps @ [exe]))) lg
    in lg_trace (Info msg lg') = lg_trace lg' @ [Msg file InfoLevel msg]
      \<and> (\<exists>g. chowns lg' = chowns lg @ [(file, u, g), (directory, u, g)]
           \<and> (\<forall>n. sudo_gid = format_int n \<and> int64_range n \<longrightarrow> g = n)
           \<and> (sudo_gid = [] \<longrightarrow> g = - 1)
           \<and> (sudo_gid \<noteq> [] \<and> snd (atoi sudo_gid) = Some ErrSyntax \<longrightarrow> g = 0))"
proof -
  let ?file = "CHR ''/'' # join_with (CHR ''/'') (ps @ [''logs'', le_today env @ ''.log''])"
  let ?dir = "CHR ''/'' # join_with (CHR ''/'') (ps @ [''logs''])"
  let ?gid = "le_getenv env ''SUDO_GID''"
  let ?g = "if ?gid = [] then - 1 else fst (atoi ?gid)"
  let ?lg = "main_InitLogger env (Inr (CHR ''/'' # join_with (CHR ''/'') (ps @ [exe]))) lg"
  have l: "plain_name ''logs''" by (simp add: plain_name_def)
  have t: "plain_name (le_today env @ ''.log'')"
    using assms(4) by (auto simp: plain_name_def append_eq_Cons_conv)
  have d: "path_join [path_dir (CHR ''/'' # join_with (CHR ''/'') (ps @ [exe])), ''logs''] = ?dir"
    using path_join_plain [OF assms(1,2), of "[''logs'']"] l by (simp add: path_dir_plain [OF assms(1-3)])
  have f: "log_path env ?dir = ?file"
    using path_join_plain [of "ps @ [''logs'']" "[le_today env @ ''.log'']"] assms(1) l t by (simp add: log_path_def)
  have lg: "?lg = InitLogger env ?dir lg" by (simp add: main_InitLogger_def Let_def d)
  have "lg_trace (Info msg ?lg) = lg_trace ?lg @ [Msg ?file InfoLevel msg]"
    by (simp add: lg Info_def log_message_def InitLogger_file f rotating_file_def)
  moreover have "chowns ?lg = chowns lg @ [(?file, u, ?g), (?dir, u, ?g)]"
    unfolding lg InitLogger_chowns f by (simp add: assms(5) atoi_format_int [OF assms(6)] Let_def)
  moreover have "?g = n" if "?gid = format_int n" "int64_range n" for n
    using atoi_format_int [OF that(2)] that(1) by (auto simp: atoi.simps(1))
  ultimately show ?thesis by (auto simp: Let_def dest: atoi_syntax)
qed

definition sample_logger_env :: logger_env where
  "sample_logger_env = \<lparr>le_today = ''2025-05-01'', le_missing = (\<lambda>p. True),
     le_getenv = (\<lambda>v. if v = ''SUDO_UID'' then ''1000'' else ''staff'')\<rparr>"

lemma log_beside_executable_witness:
  "chowns (main_InitLogger sample_logger_env (Inr ''/opt/agent'') (logger_init sample_logger_env no_logger))
    = [(''/opt/logs/2025-05-01.log'', 1000, 0), (''/opt/logs'', 1000, 0)]"
proof -
  have e: "list_all plain_name [''opt'']" "plain_name ''agent''" "CHR ''/'' \<notin> set (le_today sample_logger_env)"
    by (simp_all add: plain_name_def sample_logger_env_def)
  have u: "le_getenv sample_logger_env ''SUDO_UID'' = format_int 1000" "int64_range 1000"
    by (simp add: sample_logger_env_def, code_simp, simp add: int64_range_def)
  have g: "le_getenv sample_logger_env ''SUDO_GID'' = ''staff''" by (simp add: sample_logger_env_def)
  have "snd (atoi ''staff'') = Some ErrSyntax" by code_simp
  moreover have "chowns (logger_init sample_logger_env no_logger) = []"
    by (simp add: logger_init_def Let_def) (simp add: chowns_def no_logger_def)
  ultimately show ?thesis
    using log_beside_executable [OF e(1) _ e(2,3) u, of "logger_init sample_logger_env no_logger" "[]"] g
    by (simp add: Let_def sample_logger_env_def)
qed

end
