(* ===== verification/Main_Program.thy ===== *)
theory Main_Program
  imports System_Client Config_Store Net_Utils Log_Setup
begin

text \<open>
  The program of \<open>cmd/system-monitor/main.go\<close>: the log it sets up, the configuration it starts from,
  the files it writes on the way, and the client it runs until a signal. Flags, the effective user and
  the other answers of the operating system are one environment; the runtime finds the path of the
  executable once. Where the log lies and whom it is handed to is in \<open>Log_Setup\<close>.
\<close>

section \<open>Configuration\<close>

record main_env =
  ma_executable :: "go_error + string"
  ma_euid :: int64
  ma_key_flag :: string
  ma_log_init :: logger_env
  ma_log :: logger_env
  ma_load :: config_env
  ma_http :: "string \<Rightarrow> go_error + http_response"
  ma_save_ip :: config_env
  ma_save_key :: config_env
  ma_docker :: "go_error option"
  ma_network :: network_env

definition checkRootPrivileges :: "main_env \<Rightarrow> bool" where
  "checkRootPrivileges env \<longleftrightarrow> ma_euid env = 0"

definition getConfigPath :: "main_env \<Rightarrow> string" where
  "getConfigPath env =
     (case ma_executable env of
        Inl err \<Rightarrow> []
      | Inr execPath \<Rightarrow> path_join [path_dir execPath, ''configs'', ''config.json''])"

definition saveConfigToPath ::
  "config_env \<Rightarrow> string \<Rightarrow> Config \<Rightarrow> file_system \<Rightarrow> go_error option \<times> file_system" where
  "saveConfigToPath env configPath cfg fs =
     (case ce_mkdir env of
        Some err \<Rightarrow> (Some err, fs)
      | None \<Rightarrow>
          (case json_marshal (json_Config cfg) of
             Inl err \<Rightarrow> (Some err, fs)
           | Inr data \<Rightarrow> write_file env configPath data fs))"

text \<open>A failure to look up the address or to save it is only logged.\<close>

definition loadConfig :: "main_env \<Rightarrow> file_system \<Rightarrow> Config option \<times> file_system" where
  "loadConfig env fs =
     (let configPath = getConfigPath env
      in if configPath = [] then (None, fs)
         else (case LoadConfigFromPath (ma_load env) configPath fs of
                 ((config, Some err), fs1) \<Rightarrow> (None, fs1)
               | ((config, None), fs1) \<Rightarrow>
                   if cfg_ExternalIP config = [] then
                     (case GetExternalIP (ma_http env) of
                        Inl err \<Rightarrow> (Some config, fs1)
                      | Inr externalIP \<Rightarrow>
                          let config = config\<lparr>cfg_ExternalIP := externalIP\<rparr>
                          in (Some config, snd (saveConfigToPath (ma_save_ip env) configPath config fs1)))
                   else (Some config, fs1)))"

text \<open>The configuration after the \<open>-k\<close> flag, which is stored as the user key.\<close>

definition main_config :: "main_env \<Rightarrow> file_system \<Rightarrow> Config option \<times> file_system" where
  "main_config env fs =
     (case loadConfig env fs of
        (None, fs1) \<Rightarrow> (None, fs1)
      | (Some appConfig, fs1) \<Rightarrow>
          if ma_key_flag env \<noteq> [] then
            let appConfig = appConfig\<lparr>cfg_UserKey := ma_key_flag env\<rparr>; configPath = getConfigPath env
            in (Some appConfig,
                if configPath \<noteq> [] then snd (saveConfigToPath (ma_save_key env) configPath appConfig fs1) else fs1)
          else (Some appConfig, fs1))"

definition server_info :: "string \<Rightarrow> ServerInfo outcome" where
  "server_info serverUrl =
     (let hostPort = split_on (CHR '':'') serverUrl
      in obind (go_index hostPort 0) (\<lambda>serverHost.
           if 1 < length hostPort then
             obind (go_index hostPort 1) (\<lambda>p.
               Return \<lparr>srv_Address = serverHost,
                 srv_Port = (case atoi p of (port, None) \<Rightarrow> port | (_, Some err) \<Rightarrow> 8080)\<rparr>)
           else Return \<lparr>srv_Address = serverHost, srv_Port = 8080\<rparr>))"

section \<open>The main function\<close>

text \<open>Where \<open>main\<close> returned before there was anything to run.\<close>

datatype main_exit = ExitNotRoot | ExitNoConfig | ExitNoKey | ExitNotInitialized

text \<open>From the test of the privileges to the initialised client.\<close>

definition main_start :: "main_env \<Rightarrow> file_system \<Rightarrow> ((main_exit + SystemClient) \<times> file_system) outcome" where
  "main_start env fs =
     (if \<not> checkRootPrivileges env then Return (Inl ExitNotRoot, fs)
      else (case main_config env fs of
              (None, fs1) \<Rightarrow> Return (Inl ExitNoConfig, fs1)
            | (Some appConfig, fs1) \<Rightarrow>
                if ma_key_flag env = [] \<and> cfg_UserKey appConfig = [] then Return (Inl ExitNoKey, fs1)
                else
                  obind (server_info (cfg_ServerUrl appConfig)) (\<lambda>serverInfo.
                  let systemClient = NewSystemClient serverInfo (cfg_LocalKey appConfig)
                        (cfg_CollectionInterval appConfig) (cfg_SendingInterval appConfig) (cfg_UserKey appConfig)
                  in obind (Initialize (ma_docker env) (ma_network env) Map.empty (Some appConfig) systemClient)
                       (\<lambda>(err, systemClient).
                          Return (if err \<noteq> None then Inl ExitNotInitialized else Inr systemClient, fs1)))))"

text \<open>
  The whole program: \<open>main\<close> has returned, or it is running, with the goroutines it has started, after
  the events given; \<open>None\<close> where they cannot happen. \<open>Connect\<close>, the wait for a signal and \<open>Disconnect\<close>
  are the main goroutine's events there (\<open>System_Client\<close>). A panic in any goroutine is the program's. The
  log is as it has been set up, without the messages that follow.
\<close>

datatype program = Exited main_exit | Running running

definition main :: "main_env \<Rightarrow> run_event list \<Rightarrow> file_system \<Rightarrow> (program \<times> logger \<times> file_system) outcome option" where
  "main env es fs =
     (let lg = main_InitLogger (ma_log env) (ma_executable env) (logger_init (ma_log_init env) no_logger)
      in case main_start env fs of
           Panic p \<Rightarrow> Some (Panic p)
         | Diverge \<Rightarrow> Some Diverge
         | Return (Inl e, fs1) \<Rightarrow> if es = [] then Some (Return (Exited e, lg, fs1)) else None
         | Return (Inr systemClient, fs1) \<Rightarrow>
             (case running_of systemClient of
                None \<Rightarrow> Some (Panic NilDereference)
              | Some s \<Rightarrow> map_option (\<lambda>r. obind r (\<lambda>s'. Return (Running s', lg, fs1))) (run_program es s)))"

section \<open>Lemmas\<close>

lemma saveConfigToPath_ok:
  "ce_mkdir env = None \<Longrightarrow> ce_write env = WriteOk \<Longrightarrow>
   saveConfigToPath env path cfg fs = (None, fs(path \<mapsto> Some (json_Config cfg)))"
  by (simp add: saveConfigToPath_def write_file_def)

lemma saveConfigToPath_other:
  "q \<noteq> path \<Longrightarrow> snd (saveConfigToPath env path cfg fs) q = fs q"
  by (auto simp: saveConfigToPath_def write_file_def split: option.splits write_result.splits)

lemma loaded_config_ok:
  assumes "LoadConfigFromPath env path fs = ((c, None), fs')" shows "config_ok c"
  using load_success [OF assms]
proof (elim disjE exE conjE)
  assume "key_created env path fs DefaultConfig c fs'"
  then show ?thesis using key_created_facts by blast
next
  fix c0 assume "key_created env path fs c0 c fs'"
  then show ?thesis using key_created_facts by blast
qed (auto dest: unmarshal_ok)

lemma loadConfig_ok: "loadConfig env fs = (Some c, fs') \<Longrightarrow> config_ok c \<and> getConfigPath env \<noteq> []"
  by (auto simp: loadConfig_def Let_def dest: loaded_config_ok split: prod.splits option.splits if_splits sum.splits)

lemma main_config_ok: "main_config env fs = (Some c, fs') \<Longrightarrow> config_ok c \<and> getConfigPath env \<noteq> []"
  by (auto simp: main_config_def Let_def dest: loadConfig_ok split: prod.splits option.splits if_splits)

text \<open>A stored configuration that lacks nothing is loaded as it is.\<close>

lemma loadConfig_stored:
  assumes "fs (getConfigPath env) = Some (Some (json_Config c))" "config_ok c" "getConfigPath env \<noteq> []"
    and "ce_read_error (ma_load env) = None" "cfg_LocalKey c \<noteq> []" "cfg_ExternalIP c \<noteq> []"
  shows "loadConfig env fs = (Some c, fs)"
  using assms by (simp add: loadConfig_def Let_def LoadConfigFromPath_def)

lemma server_info_Return: "\<exists>i. server_info url = Return i"
proof -
  have "0 < length (split_on (CHR '':'') url)" by (simp add: length_split_on)
  then show ?thesis by (auto simp: server_info_def Let_def go_index_def)
qed

lemma format_int_no_colon: "CHR '':'' \<notin> set (format_int i)"
proof -
  have "CHR '':'' \<notin> set (format_nat n)" for n
    using format_nat_digits [of n] by (auto simp: list_all_iff all_digits_def is_digit_def)
  then show ?thesis by (simp add: format_int_def)
qed

lemma format_8080: "format_int 8080 = ''8080''"
  by (simp add: format_int_def format_nat.simps [of 8080] format_nat.simps [of 808] format_nat.simps [of 80]
      format_nat.simps [of 8] digit_char_def char_of_eq_iff)

lemma format_8087: "format_int 8087 = ''8087''"
  by (simp add: format_int_def format_nat.simps [of 8087] format_nat.simps [of 808] format_nat.simps [of 80]
      format_nat.simps [of 8] digit_char_def char_of_eq_iff)

text \<open>
  What a later start can make of a stored configuration: a local key and an external address where
  they were missing, and nothing else.
\<close>

definition completes :: "Config \<Rightarrow> Config \<Rightarrow> bool" where
  "completes c c' \<longleftrightarrow> c' = c\<lparr>cfg_LocalKey := cfg_LocalKey c', cfg_ExternalIP := cfg_ExternalIP c'\<rparr>
     \<and> (cfg_LocalKey c \<noteq> [] \<longrightarrow> cfg_LocalKey c' = cfg_LocalKey c)
     \<and> (cfg_ExternalIP c \<noteq> [] \<longrightarrow> cfg_ExternalIP c' = cfg_ExternalIP c)"

definition stored :: "string \<Rightarrow> Config \<Rightarrow> file_system \<Rightarrow> bool" where
  "stored path c fs \<longleftrightarrow> (\<exists>c'. fs path = Some (Some (json_Config c')) \<and> config_ok c' \<and> completes c c')"

text \<open>A start without the flag whose writes succeed or do not reach the file.\<close>

definition later_start :: "go_error + string \<Rightarrow> main_env \<Rightarrow> bool" where
  "later_start exec env \<longleftrightarrow> ma_executable env = exec \<and> ma_key_flag env = []
     \<and> (\<forall>err left. ce_write (ma_load env) \<noteq> WritePartial err left \<and> ce_write (ma_save_ip env) \<noteq> WritePartial err left)"

lemma completes_key: "completes c c' \<Longrightarrow> cfg_LocalKey c' = [] \<Longrightarrow> completes c (c'\<lparr>cfg_LocalKey := k\<rparr>)"
  unfolding completes_def by (cases c; cases c'; auto)

lemma completes_ip: "completes c c' \<Longrightarrow> cfg_ExternalIP c' = [] \<Longrightarrow> completes c (c'\<lparr>cfg_ExternalIP := ip\<rparr>)"
  unfolding completes_def by (cases c; cases c'; auto)

lemma completes_userkey: "completes c c' \<Longrightarrow> cfg_UserKey c' = cfg_UserKey c"
  unfolding completes_def by (cases c; cases c'; auto)

lemma completes_same: "completes c c' \<Longrightarrow> cfg_LocalKey c \<noteq> [] \<Longrightarrow> cfg_ExternalIP c \<noteq> [] \<Longrightarrow> c' = c"
  unfolding completes_def by (cases c; cases c'; auto)

lemma load_stored:
  assumes "stored path c fs" "LoadConfigFromPath env path fs = ((c', err), fs')"
    and "\<And>err left. ce_write env \<noteq> WritePartial err left"
  shows "stored path c fs' \<and> (err = None \<longrightarrow> completes c c' \<and> config_ok c' \<and> fs' path = Some (Some (json_Config c')))"
proof -
  obtain c0 where c0: "fs path = Some (Some (json_Config c0))" "config_ok c0" "completes c c0"
    using assms(1) by (auto simp: stored_def)
  show ?thesis
  proof (cases "ce_read_error env = None \<and> cfg_LocalKey c0 = []")
    case False
    then show ?thesis using assms(1,2) c0 by (auto simp: LoadConfigFromPath_def Let_def split: option.splits)
  next
    case True
    have "completes c (c0\<lparr>cfg_LocalKey := k\<rparr>)" for k using completes_key c0(3) True by blast
    then show ?thesis using assms c0 True
      by (auto simp: LoadConfigFromPath_def Let_def write_file_def stored_def split: sum.splits write_result.splits)
  qed
qed

lemma save_stored:
  assumes "stored path c fs" "completes c c'" "config_ok c'" "\<And>err left. ce_write env \<noteq> WritePartial err left"
  shows "stored path c (snd (saveConfigToPath env path c' fs))"
  using assms by (auto simp: saveConfigToPath_def write_file_def stored_def split: option.split write_result.split)

lemma later_start_keeps:
  assumes "stored (getConfigPath env) c fs" "later_start exec env" "main_config env fs = (r, fs')"
  shows "stored (getConfigPath env) c fs' \<and> (\<forall>c'. r = Some c' \<longrightarrow> completes c c')"
proof -
  have w: "ce_write (ma_load env) \<noteq> WritePartial err left" "ce_write (ma_save_ip env) \<noteq> WritePartial err left" for err left
    using assms(2) by (auto simp: later_start_def)
  have m: "loadConfig env fs = (r, fs')"
    using assms(2,3) by (auto simp: main_config_def later_start_def split: prod.splits option.splits)
  show ?thesis
  proof (cases "getConfigPath env = []")
    case True
    then show ?thesis using m assms(1) by (auto simp: loadConfig_def)
  next
    case False
    obtain c1 err fs1 where l: "LoadConfigFromPath (ma_load env) (getConfigPath env) fs = ((c1, err), fs1)"
      by (metis surj_pair)
    note s = load_stored [OF assms(1) l w(1)]
    show ?thesis
    proof (cases err)
      case (Some e)
      then show ?thesis using m l False s by (simp add: loadConfig_def Let_def)
    next
      case None
      show ?thesis
      proof (cases "cfg_ExternalIP c1 = [] \<and> (\<exists>ip. GetExternalIP (ma_http env) = Inr ip)")
        case True
        then obtain ip where ip: "GetExternalIP (ma_http env) = Inr ip" by blast
        let ?c = "c1\<lparr>cfg_ExternalIP := ip\<rparr>"
        have c: "completes c ?c" "config_ok ?c" using completes_ip True s None by auto
        have "r = Some ?c" "fs' = snd (saveConfigToPath (ma_save_ip env) (getConfigPath env) ?c fs1)"
          using m l False None ip True by (auto simp: loadConfig_def Let_def)
        then show ?thesis using save_stored [OF _ c w(2)] s c(1) by auto
      next
        case False
        then have "r = Some c1 \<and> fs' = fs1"
          using m l \<open>getConfigPath env \<noteq> []\<close> None by (auto simp: loadConfig_def Let_def split: sum.splits if_splits)
        then show ?thesis using s None by auto
      qed
    qed
  qed
qed

lemma later_start_complete:
  assumes "fs (getConfigPath env) = Some (Some (json_Config c))" "config_ok c" "cfg_LocalKey c \<noteq> []" "cfg_ExternalIP c \<noteq> []"
    and "ma_key_flag env = []"
  shows "snd (main_config env fs) = fs"
  using assms
  by (auto simp: main_config_def loadConfig_def Let_def LoadConfigFromPath_def split: option.split)

text \<open>Any number of later starts.\<close>

definition starts :: "main_env list \<Rightarrow> file_system \<Rightarrow> file_system" where
  "starts envs fs = fold (\<lambda>env fs. snd (main_config env fs)) envs fs"

lemma starts_keep:
  assumes "list_all (later_start exec) envs" "\<And>env. ma_executable env = exec \<Longrightarrow> getConfigPath env = path" "stored path c fs"
  shows "stored path c (starts envs fs)"
  using assms(1,3)
proof (induction envs arbitrary: fs)
  case (Cons env envs)
  have p: "getConfigPath env = path" using assms(2) Cons.prems(1) by (simp add: later_start_def)
  obtain r fs1 where "main_config env fs = (r, fs1)" by fastforce
  then show ?case using later_start_keeps [of env c fs exec r fs1] Cons p by (simp add: starts_def)
qed (simp add: starts_def)

lemma starts_complete:
  assumes "list_all (later_start exec) envs" "\<And>env. ma_executable env = exec \<Longrightarrow> getConfigPath env = path"
    and "fs path = Some (Some (json_Config c))" "config_ok c" "cfg_LocalKey c \<noteq> []" "cfg_ExternalIP c \<noteq> []"
  shows "starts envs fs = fs"
  using assms(1)
proof (induction envs)
  case (Cons env envs)
  have "snd (main_config env fs) = fs"
    by (rule later_start_complete [OF _ assms(4-6)]) (use Cons.prems assms(2,3) in \<open>auto simp: later_start_def\<close>)
  then show ?case using Cons by (simp add: starts_def)
qed (simp add: starts_def)

lemma NewMasterCollector_keys:
  "NewMasterCollector docker net devices cfg = Return mc \<Longrightarrow>
   mc_userKey mc = cfg_UserKey cfg \<and> mc_localKey mc = cfg_LocalKey cfg \<and> mc_externalIP mc = cfg_ExternalIP cfg"
  by (auto simp: NewMasterCollector_def NewQueue_def AddCollector_def Let_def)

definition sample_main_env :: "string \<Rightarrow> main_env" where
  "sample_main_env key = \<lparr>ma_executable = Inr ''/opt/monitor'', ma_euid = 0, ma_key_flag = key,
     ma_log_init = \<lparr>le_today = ''2025-01-01'', le_missing = (\<lambda>p. True), le_getenv = (\<lambda>v. [])\<rparr>,
     ma_log = \<lparr>le_today = ''2025-01-01'', le_missing = (\<lambda>p. True), le_getenv = (\<lambda>v. [])\<rparr>,
     ma_load = sample_config_env, ma_http = (\<lambda>s. Inl (ErrExt ''unreachable'')), ma_save_ip = sample_config_env,
     ma_save_key = sample_config_env, ma_docker = Some sample_error, ma_network = sample_network_env\<rparr>"

lemma sample_config_path: "getConfigPath (sample_main_env key) = ''/opt/configs/config.json''"
  by (simp add: getConfigPath_def sample_main_env_def path_dir_def path_join_def path_clean_def)

definition sample_stored :: Config where
  "sample_stored = DefaultConfig\<lparr>cfg_LocalKey := ''l'', cfg_UserKey := ''u'', cfg_ExternalIP := ''1.2.3.4''\<rparr>"

lemma sample_load:
  "loadConfig (sample_main_env key) [''/opt/configs/config.json'' \<mapsto> Some (json_Config sample_stored)]
   = (Some sample_stored, [''/opt/configs/config.json'' \<mapsto> Some (json_Config sample_stored)])"
  by (rule loadConfig_stored)
    (simp_all add: sample_config_path sample_stored_def, simp add: sample_main_env_def sample_config_env_def)

section \<open>Properties\<close>

text \<open>
  C12. The server address is taken apart and put together again without a change: a URL of a host and
  a decimal port is dialled as it stands, and one without a colon at port 8080.
\<close>

theorem server_url_dialled:
  assumes "CHR '':'' \<notin> set host" "int64_range port"
  shows "(\<exists>i. server_info (host @ '':'' @ format_int port) = Return i \<and> dial_host i = host @ '':'' @ format_int port)
    \<and> (\<exists>i. server_info host = Return i \<and> dial_host i = host @ '':8080'')"
proof
  have "host @ '':'' @ format_int port = join_with (CHR '':'') [host, format_int port]" by simp
  moreover have "split_on (CHR '':'') (join_with (CHR '':'') [host, format_int port]) = [host, format_int port]"
    using assms(1) format_int_no_colon by (intro split_on_join) auto
  ultimately show "\<exists>i. server_info (host @ '':'' @ format_int port) = Return i
      \<and> dial_host i = host @ '':'' @ format_int port"
    by (simp add: server_info_def go_index_def atoi_format_int [OF assms(2)] dial_host_def)
  have "split_on (CHR '':'') (join_with (CHR '':'') [host]) = [host]"
    using assms(1) by (intro split_on_join) auto
  moreover have "format_int 8080 = ''8080''" by (rule format_8080)
  ultimately show "\<exists>i. server_info host = Return i \<and> dial_host i = host @ '':8080''"
    by (simp add: server_info_def go_index_def dial_host_def)
qed

lemma server_url_dialled_witness:
  "\<exists>i. server_info (cfg_ServerUrl DefaultConfig) = Return i \<and> dial_host i = ''1.209.148.143:8087''"
proof -
  have "format_int 8087 = ''8087''" by (rule format_8087)
  then show ?thesis
    using server_url_dialled [of "''1.209.148.143''" 8087] by (simp add: DefaultConfig_def int64_range_def)
qed

text \<open>
  C10. The program serves only for root and with a user key: when it comes to run, and whatever its
  goroutines have done since, the effective user was 0, the user key is the \<open>-k\<close> flag if given and the
  stored one otherwise, and not empty, and every metric that has reached the server carries that user
  key and the local key and address of the configuration. Without root it ends after setting up the
  log (which happens before the test of the privileges and does create and hand over files), without
  reading or writing the configuration.
\<close>

theorem main_serves_with_key:
  assumes "main env es fs = Some (Return (r, lg, fs'))"
  shows "lg = main_InitLogger (ma_log env) (ma_executable env) (logger_init (ma_log_init env) no_logger)
    \<and> (ma_euid env \<noteq> 0 \<longrightarrow> r = Exited ExitNotRoot \<and> fs' = fs)
    \<and> (\<forall>s. r = Running s \<longrightarrow> ma_euid env = 0
         \<and> (\<exists>cfg. main_config env fs = (Some cfg, fs') \<and> cfg_UserKey cfg \<noteq> []
              \<and> (ma_key_flag env \<noteq> [] \<longrightarrow> cfg_UserKey cfg = ma_key_flag env)
              \<and> (\<forall>j \<in> set (rs_sent s). \<exists>m. j = json_SystemMetrics m \<and> sm_USER_ID m = cfg_UserKey cfg
                   \<and> sm_Key m = cfg_LocalKey cfg \<and> sm_ExternalIP m = cfg_ExternalIP cfg)))"
proof (cases "main_start env fs")
  case (Return q)
  obtain x fs1 where q: "q = (x, fs1)" by (cases q)
  show ?thesis
  proof (cases x)
    case (Inl e)
    then have "r = Exited e \<and> fs' = fs1 \<and> lg = main_InitLogger (ma_log env) (ma_executable env)
        (logger_init (ma_log_init env) no_logger)"
      using assms Return q by (simp add: main_def split: if_splits)
    moreover have "ma_euid env \<noteq> 0 \<longrightarrow> e = ExitNotRoot \<and> fs1 = fs"
      using Return q Inl by (auto simp: main_start_def checkRootPrivileges_def)
    ultimately show ?thesis by simp
  next
    case (Inr c)
    then obtain s0 s where s: "running_of c = Some s0" "run_program es s0 = Some (Return s)" "r = Running s" "fs' = fs1"
      "lg = main_InitLogger (ma_log env) (ma_executable env) (logger_init (ma_log_init env) no_logger)"
      using assms Return q by (auto simp: main_def Let_def split: option.splits)
    have root: "ma_euid env = 0" using Return q Inr by (auto simp: main_start_def checkRootPrivileges_def split: if_splits)
    obtain cfg i where cfg: "main_config env fs = (Some cfg, fs1)" "ma_key_flag env \<noteq> [] \<or> cfg_UserKey cfg \<noteq> []"
      "Initialize (ma_docker env) (ma_network env) Map.empty (Some cfg) (NewSystemClient i (cfg_LocalKey cfg)
         (cfg_CollectionInterval cfg) (cfg_SendingInterval cfg) (cfg_UserKey cfg)) = Return (None, c)"
      using Return q Inr
      by (auto simp: main_start_def checkRootPrivileges_def Let_def split: option.splits prod.splits if_splits)
    have k: "ma_key_flag env \<noteq> [] \<longrightarrow> cfg_UserKey cfg = ma_key_flag env"
      using cfg(1) by (auto simp: main_config_def Let_def split: option.splits prod.splits if_splits)
    obtain "run_inv s0" "rs_sent s0 = []" "rs_sender s0 = None" "q_items (GetDataQueue (rs_mc s0)) = []"
      and mc: "NewMasterCollector (ma_docker env) (ma_network env) Map.empty cfg = Return (rs_mc s0)"
      by (rule Initialize_running [OF cfg(3) s(1)]) auto
    then have sub: "subseq (pipeline s) (map json_SystemMetrics (collected es s0))"
      and ids: "list_all (identified (rs_mc s0)) (collected es s0)"
      using run_program_pipeline [OF s(2)] run_program_identified [OF s(2)] by (simp_all add: pipeline_def in_flight_def)
    note keys = NewMasterCollector_keys [OF mc]
    have "\<forall>j \<in> set (rs_sent s). \<exists>m. j = json_SystemMetrics m \<and> sm_USER_ID m = cfg_UserKey cfg
        \<and> sm_Key m = cfg_LocalKey cfg \<and> sm_ExternalIP m = cfg_ExternalIP cfg"
    proof
      fix j assume "j \<in> set (rs_sent s)"
      then have "j \<in> set (pipeline s)" by (simp add: pipeline_def)
      then obtain y where "y \<in> set (map json_SystemMetrics (collected es s0))" "j = y" by (rule list_emb_set [OF sub])
      then obtain m where "m \<in> set (collected es s0)" "j = json_SystemMetrics m" by auto
      moreover from this have "identified (rs_mc s0) m" using ids by (simp add: list_all_iff)
      ultimately show "\<exists>m. j = json_SystemMetrics m \<and> sm_USER_ID m = cfg_UserKey cfg
          \<and> sm_Key m = cfg_LocalKey cfg \<and> sm_ExternalIP m = cfg_ExternalIP cfg"
        using keys by (auto simp: identified_def)
    qed
    then show ?thesis using s root cfg k by auto
  qed
qed (use assms in \<open>simp_all add: main_def\<close>)

lemma sample_master_stored:
  obtains mc where "NewMasterCollector (Some sample_error) sample_network_env Map.empty sample_stored = Return mc"
    "mc_collectors mc = mc_collectors sample_master"
proof -
  obtain mc where mc: "NewMasterCollector (Some sample_error) sample_network_env Map.empty sample_stored = Return mc"
    using NewMasterCollector_inv by blast
  then have "mc_collectors mc = mc_collectors sample_master"
    by (auto simp: sample_master_def NewMasterCollector_def NewQueue_def AddCollector_def Let_def sample_stored_def)
  with mc show ?thesis by (rule that)
qed

lemma main_serves_with_key_witness:
  "\<exists>s m lg. main (sample_main_env []) (first_write sample_collect_env @ [EvWrite None])
       [''/opt/configs/config.json'' \<mapsto> Some (json_Config sample_stored)]
       = Some (Return (Running s, lg, [''/opt/configs/config.json'' \<mapsto> Some (json_Config sample_stored)]))
     \<and> rs_sent s = [json_SystemMetrics m] \<and> sm_USER_ID m = ''u''"
proof -
  let ?e = "sample_main_env []" and ?fs = "[''/opt/configs/config.json'' \<mapsto> Some (json_Config sample_stored)]"
  let ?es = "first_write sample_collect_env @ [EvWrite None]"
  have e: "ma_key_flag ?e = []" "checkRootPrivileges ?e" "ma_docker ?e = Some sample_error" "ma_network ?e = sample_network_env"
    by (simp_all add: sample_main_env_def checkRootPrivileges_def)
  have m: "main_config ?e ?fs = (Some sample_stored, ?fs)" by (simp add: main_config_def sample_load e)
  have u: "cfg_UserKey sample_stored = ''u''" by (simp add: sample_stored_def)
  obtain i where i: "server_info (cfg_ServerUrl sample_stored) = Return i" using server_info_Return by blast
  let ?n = "NewSystemClient i (cfg_LocalKey sample_stored) (cfg_CollectionInterval sample_stored)
    (cfg_SendingInterval sample_stored) (cfg_UserKey sample_stored)"
  obtain mc0 where mc0: "NewMasterCollector (Some sample_error) sample_network_env Map.empty sample_stored = Return mc0"
    "mc_collectors mc0 = mc_collectors sample_master" by (rule sample_master_stored)
  then obtain c where c: "Initialize (Some sample_error) sample_network_env Map.empty (Some sample_stored) ?n = Return (None, c)"
    "cl_collectorManager c = Some mc0" "cl_dataSender c \<noteq> None"
    by (simp add: Initialize_def)
  then obtain s0 where s0: "running_of c = Some s0" "rs_mc s0 = mc0" by (auto simp: running_of_def)
  obtain mc m where t: "master_tick sample_collect_env (rs_mc s0) = Return mc"
    "tick_metrics sample_collect_env (rs_mc s0) = [m]" "json_ok (json_SystemMetrics m)"
    using sample_tick_of [OF mc0] s0(2) by metis
  have "0 < dur_seconds (cl_collectionInterval ?n)" "0 < dur_seconds (cl_sendingInterval ?n)"
    by (simp_all add: NewSystemClient_def sample_stored_def DefaultConfig_def dur_seconds_def int64_range_def)
  from first_write_runs [OF c(1) s0(1) this t] obtain s1 where
    s1: "run_program (first_write sample_collect_env) s0 = Some (Return s1)" "rs_sent s1 = []"
      "rs_sender s1 = Some (SendWrite (json_SystemMetrics m))" "rs_main s1 = MainServing" "ds_conn (rs_ds s1)"
    by metis
  let ?s = "s1\<lparr>rs_sender := Some SendSelect, rs_sent := [json_SystemMetrics m]\<rparr>"
  have s: "run_program ?es s0 = Some (Return ?s)"
    unfolding run_program_append run_program_Cons using s1 by (simp add: step_returns holds_mutex_def)
  obtain lg where r: "main ?e ?es ?fs = Some (Return (Running ?s, lg, ?fs))"
    using s c(1) s0(1) by (simp add: main_def main_start_def e m u i Let_def del: run_program.simps)
  from main_serves_with_key [OF r] obtain cfg where cfg: "main_config ?e ?fs = (Some cfg, ?fs)"
    "\<forall>j \<in> set (rs_sent ?s). \<exists>m. j = json_SystemMetrics m \<and> sm_USER_ID m = cfg_UserKey cfg" by blast
  then obtain m' where "json_SystemMetrics m = json_SystemMetrics m'" "sm_USER_ID m' = ''u''" by (auto simp: m u)
  then show ?thesis using r by (intro exI [of _ ?s] exI [of _ m'] exI [of _ lg]) simp
qed

text \<open>
  C11. A key given once with \<open>-k\<close> stays: when the configuration could be written at that start, then
  after any number of later starts without the flag, none of which left the file half written, a start
  that loads a configuration runs with that key, and with the same configuration but for a local key
  and an external address that were still missing. When neither was missing, the later starts write
  nothing.
\<close>

theorem key_flag_persists:
  assumes "main_config env fs = (Some c, fs1)" "ma_key_flag env \<noteq> []"
    and "ce_mkdir (ma_save_key env) = None" "ce_write (ma_save_key env) = WriteOk"
    and "list_all (later_start (ma_executable env)) envs" "later_start (ma_executable env) env'"
    and "main_config env' (starts envs fs1) = (Some c', fs2)"
  shows "cfg_UserKey c = ma_key_flag env \<and> cfg_UserKey c' = ma_key_flag env \<and> completes c c'
    \<and> (cfg_LocalKey c \<noteq> [] \<and> cfg_ExternalIP c \<noteq> [] \<longrightarrow> c' = c \<and> fs2 = fs1)"
proof -
  let ?path = "getConfigPath env"
  have path: "getConfigPath e = ?path" if "ma_executable e = ma_executable env" for e
    using that by (simp add: getConfigPath_def)
  note ok = main_config_ok [OF assms(1)]
  have f: "cfg_UserKey c = ma_key_flag env \<and> fs1 ?path = Some (Some (json_Config c))"
    using assms(1-4) ok
    by (auto simp: main_config_def Let_def saveConfigToPath_ok split: prod.splits option.splits)
  have "completes c c" by (simp add: completes_def)
  then have "stored ?path c fs1" using f ok by (auto simp: stored_def)
  then have "stored ?path c (starts envs fs1)" using starts_keep [OF assms(5) path] by blast
  then have c': "completes c c'"
    using later_start_keeps [OF _ assms(6,7)] path [of env'] assms(6) by (auto simp: later_start_def)
  have "c' = c \<and> fs2 = fs1" if n: "cfg_LocalKey c \<noteq> []" "cfg_ExternalIP c \<noteq> []"
  proof -
    have "starts envs fs1 = fs1" using starts_complete [OF assms(5) path] f ok n by blast
    moreover have "snd (main_config env' fs1) = fs1"
      by (rule later_start_complete [OF _ _ n]) (use f ok path [of env'] assms(6) in \<open>auto simp: later_start_def\<close>)
    ultimately show ?thesis using assms(7) completes_same [OF c' n] by simp
  qed
  then show ?thesis using f c' completes_userkey [OF c'] by auto
qed

lemma key_flag_persists_witness:
  "\<exists>c fs1. main_config (sample_main_env ''k'') [''/opt/configs/config.json'' \<mapsto> Some (json_Config sample_stored)] = (Some c, fs1)
     \<and> cfg_UserKey c = ''k''
     \<and> main_config (sample_main_env []) (starts [sample_main_env [], sample_main_env []] fs1) = (Some c, fs1)"
proof -
  let ?fs = "[''/opt/configs/config.json'' \<mapsto> Some (json_Config sample_stored)]"
  have e: "ma_key_flag (sample_main_env k) = k" "ma_executable (sample_main_env k) = Inr ''/opt/monitor''"
    "ma_save_key (sample_main_env k) = sample_config_env" "ma_load (sample_main_env k) = sample_config_env"
    "ma_save_ip (sample_main_env k) = sample_config_env" for k
    by (simp_all add: sample_main_env_def)
  have s: "ce_mkdir sample_config_env = None" "ce_write sample_config_env = WriteOk"
    "ce_read_error sample_config_env = None"
    by (simp_all add: sample_config_env_def)
  have l: "later_start (ma_executable (sample_main_env ''k'')) (sample_main_env [])"
    by (simp add: later_start_def e s)
  let ?c = "sample_stored\<lparr>cfg_UserKey := ''k''\<rparr>" and ?fs1 = "?fs(''/opt/configs/config.json'' \<mapsto> Some (json_Config (sample_stored\<lparr>cfg_UserKey := ''k''\<rparr>)))"
  have m: "main_config (sample_main_env ''k'') ?fs = (Some ?c, ?fs1)"
    by (simp add: main_config_def sample_load Let_def e saveConfigToPath_ok s sample_config_path)
  have c: "cfg_LocalKey ?c \<noteq> []" "cfg_ExternalIP ?c \<noteq> []" "config_ok ?c" by (simp_all add: sample_stored_def)
  have "main_config (sample_main_env []) ?fs1 = (Some ?c, ?fs1)"
    using loadConfig_stored [of ?fs1 "sample_main_env []" ?c] c by (simp add: main_config_def e s sample_config_path)
  moreover from this have "starts [sample_main_env [], sample_main_env []] ?fs1 = ?fs1" by (simp add: starts_def)
  ultimately have m2: "main_config (sample_main_env []) (starts [sample_main_env [], sample_main_env []] ?fs1) = (Some ?c, ?fs1)"
    by simp
  from key_flag_persists [OF m _ _ _ _ l m2] m m2 l show ?thesis by (auto simp: e s)
qed



end
