(* ===== verification/Spec2Isabelle.thy ===== *)
theory Spec2Isabelle
  imports Main_Program Metric_Json Log_Setup
begin

text \<open>
  System monitor: a verification development.

  \<^bold>\<open>The program.\<close> \<open>cmd/system-monitor\<close> is a Linux agent. \<open>main\<close> sets up the log, loads a JSON
  configuration, builds a \<open>SystemClient\<close> and runs until a signal. The client owns a \<open>MasterCollector\<close>, which asks eight
  collectors at once on every tick and pushes one metric on a bounded queue, and a \<open>DataSender\<close>, which
  pops the queue on its own ticks and writes JSON over a WebSocket. Each collector has a cache, refreshed
  by a background goroutine.

  \<^bold>\<open>Theories, in the order of their dependence.\<close>

  Vocabulary (no file of the repository): \<open>Prelude\<close> (errors, panics as \<open>outcome\<close>, slices, integers),
  \<open>Float64\<close>, \<open>Float_Bounds\<close> and \<open>Go_Float\<close> (binary64 with rounding to even, infinities, NaN, signed
  zeros; magnitude bounds; \<open>ParseFloat\<close>), \<open>Go_Time\<close>, \<open>Go_Strings\<close>, \<open>Go_Path\<close>, \<open>Sha512\<close>, \<open>Go_Json\<close> and
  \<open>Json_Decode\<close> (JSON values, what \<open>Marshal\<close> refuses, \<open>Unmarshal\<close> into structs, slices and maps).

  Data: \<open>Models\<close> (\<open>internal/models/metrics.go\<close>: structs, zero values, encodings), \<open>Config_Model\<close> and
  \<open>Config_Store\<close> (\<open>internal/config/config.go\<close>).

  Components: \<open>Metrics_Queue\<close> (\<open>internal/common/queue.go\<close>), \<open>Net_Utils\<close> (\<open>internal/utils/network.go\<close>),
  \<open>Collector_Cache\<close> (the contract the collectors share), \<open>Counter_Rate\<close>, and one theory for each file of
  \<open>internal/collectors\<close>: \<open>Disk_Collector\<close>, \<open>Network_Collector\<close>, \<open>Process_Collector\<close>, \<open>Service_Collector\<close>,
  \<open>Memory_Collector\<close>, \<open>System_Collector\<close>, \<open>Cpu_Collector\<close>, \<open>Container_Collector\<close> and \<open>Master_Collector\<close>
  (\<open>collector.go\<close>), with their background goroutines in \<open>Collector_Background\<close>; \<open>Data_Sender\<close> and
  \<open>System_Client\<close> (\<open>internal/network/client\<close>); \<open>Log_Setup\<close> (\<open>internal/logger/logger.go\<close>); \<open>Main_Program\<close>
  (\<open>cmd/system-monitor/main.go\<close>). \<open>Metric_Json\<close> follows what can be encoded from the collectors through
  the master collector to the sender, and this theory a configuration file to the collectors.

  \<^bold>\<open>Correspondence.\<close> A struct is a record with the fields of the source, an operation a definition of
  its name (with the component's name in front where two components share it). What a call to the
  operating system or to a library answers is a field of the component's environment record, one
  environment per collection, with the clock readings in it; a map that Go iterates in random order, and
  the order in which goroutines finish, is a parameter or a list about whose order the theorems assume
  nothing. A result is an error or a value, inside an \<open>outcome\<close> that also says panic or endless loop.
  A \<open>uint64\<close> is a 64-bit word; an \<open>int\<close> or \<open>int64\<close> is an integer that arithmetic wraps with \<open>s64\<close>.

  \<^bold>\<open>Interfaces.\<close> \<open>bounded_queue\<close> (\<open>Metrics_Queue\<close>) states what the queue's clients rely on, interpreted
  on \<open>Push\<close> and \<open>TryPop\<close>. \<open>metric_cache\<close>, \<open>write_back_cache\<close> and \<open>standard_collector\<close>
  (\<open>Collector_Cache\<close>) state what a collector promises of its cache; the disk, process, service, memory and
  system collectors are \<open>standard_collector\<close>s, and the container collector, whose \<open>Collect\<close> does not
  store, is a \<open>metric_cache\<close>.

  \<^bold>\<open>Concurrency.\<close> Three step relations: waiting in \<open>Pop\<close> (\<open>queue_step\<close>), overlapping collections of the
  system collector (\<open>system_step\<close>), and the running program (\<open>run_step\<close> in \<open>System_Client\<close>), where the
  main goroutine, the collecting goroutine of the master collector, the sending and the receiving
  goroutine of the data sender and the eight background goroutines interleave at their accesses to
  shared state, the creation of each ticker and each possible panic included. \<open>Disconnect\<close> of the sender
  is cut at its test, its close of the channel, its close of the connection and its clearing of the
  flag, because the receiving goroutine takes no mutex; the write of the sending goroutine waits for the
  mutex while the main goroutine is inside. A run is any finite sequence of events that can happen; a
  panic in any goroutine is its last. Elsewhere a collection is one step on the collector's own state.
  \<open>main\<close> in \<open>Main_Program\<close> is the program from its start into such a run.

  \<^bold>\<open>What the groups of lemmas show.\<close> Queue: bounded, first in first out, linearizable, no lost wake-up.
  Configuration: encoding round trip, loading is idempotent, what is written when. Collectors: what a
  collection reports of what the system answered, that figures are finite and within bounds, how old an
  answer can be, and where a collection panics. Master: one failing collector costs only its own field,
  the order of completion does not matter, the newest hundred metrics are kept. Client: metrics reach the
  server in order and at most once, a tick delivers the oldest, where every possible panic comes from, a
  lost connection is final, the sender stops. Main: when it runs, under which key and where it connects. Across components: every
  metric queued can be encoded and sent (\<open>Metric_Json\<close>), and what a configuration without collector
  settings does. Logger: where the log lies and who owns it.

  \<^bold>\<open>Bounds and fuel.\<close> The lookup of the block device behind a device-mapper name recurses without a
  bound of its own (\<open>getDiskInfo\<close> is a \<open>partial_function (option)\<close>); a collection is proved to return
  when the slave links are ranked. All other loops recurse on their lists. That a metric can be encoded
  assumes that the numbers the system reports are finite, processor times below \<open>2 ^ 40\<close> seconds and at
  most \<open>2 ^ 53\<close> cores (\<open>env_finite\<close>).

  \<^bold>\<open>Not modelled.\<close> That the process ends when \<open>main\<close> returns: a run may go on with the other goroutines'
  steps, as it can for a moment. The messages the components log, and what zerolog and lumberjack write. The text of JSON: values stand for it, and
  strings are taken to be valid UTF-8. Error texts are English glosses of the Korean ones. Data races on
  single fields below the steps named above, and memory exhaustion. The integration test.

  \<^bold>\<open>Plan.\<close> The interleaving of \<open>Collect\<close> with the background goroutine inside a collection, for the
  collectors other than the system collector.
\<close>

section \<open>A configuration without collector settings\<close>

lemma dec_members_frame:
  "dec_members flds ms r = Some r' \<Longrightarrow>
   (\<And>n j d x y. (n, j) \<in> set ms \<Longrightarrow> find_field flds n = Some d \<Longrightarrow> d j x = Some y \<Longrightarrow> g y = g x) \<Longrightarrow> g r' = g r"
proof (induction flds ms r rule: dec_members.induct)
  case (2 flds name j ms r)
  show ?case
  proof (cases "find_field flds name")
    case None
    then show ?thesis using "2.prems"(1) "2.IH"(1) [OF None] "2.prems"(2) by (simp add: None) blast
  next
    case (Some d)
    with "2.prems"(1) obtain r1 where r1: "d j r = Some r1" "dec_members flds ms r1 = Some r'"
      by (auto split: option.splits)
    have "g r1 = g r" using "2.prems"(2) [of name j d r r1] Some r1 by simp
    moreover have "g r' = g r1"
    proof (rule "2.IH"(2) [OF Some r1(1,2)])
      fix n j' d' x y
      assume "(n, j') \<in> set ms" "find_field flds n = Some d'" "d' j' x = Some y"
      then show "g y = g x" using "2.prems"(2) [of n j' d' x y] by simp
    qed
    ultimately show ?thesis by simp
  qed
qed simp

lemma dec_int_frame: "dec_int upd j x = Some y \<Longrightarrow> (\<And>n x. g (upd n x) = g x) \<Longrightarrow> g y = g x"
  by (cases j) (auto split: if_splits)

lemma dec_str_frame: "dec_str upd j x = Some y \<Longrightarrow> (\<And>s x. g (upd s x) = g x) \<Longrightarrow> g y = g x"
  by (cases j) auto

lemma fold_name_collectors: "fold_name ''collectors'' = ''collectors''"
  by (simp add: Let_def)

lemma unmarshal_without_collectors:
  assumes "unmarshal_Config (Some (JObj ms)) = Some c" "list_all (\<lambda>(n, j). fold_name n \<noteq> ''collectors'') ms"
  shows "cfg_Collectors c = cfg_Collectors zero_Config"
proof -
  let ?flds = "[(''collectionInterval'', dec_int (\<lambda>n. cfg_CollectionInterval_update (\<lambda>_. n))),
      (''sendingInterval'', dec_int (\<lambda>n. cfg_SendingInterval_update (\<lambda>_. n))),
      (''serverUrl'', dec_str (\<lambda>s. cfg_ServerUrl_update (\<lambda>_. s))),
      (''localKey'', dec_str (\<lambda>s. cfg_LocalKey_update (\<lambda>_. s))),
      (''userKey'', dec_str (\<lambda>s. cfg_UserKey_update (\<lambda>_. s))),
      (''externalIP'', dec_str (\<lambda>s. cfg_ExternalIP_update (\<lambda>_. s))),
      (''collectors'', dec_nested cfg_Collectors (\<lambda>f. cfg_Collectors_update (\<lambda>_. f)) dec_CollectorSettings)]"
  have d: "dec_members ?flds ms zero_Config = Some c"
    using assms(1) by (simp add: unmarshal_Config_def dec_Config_def)
  show ?thesis
  proof (rule dec_members_frame [where g = cfg_Collectors, OF d])
    fix n j dc x y
    assume "(n, j) \<in> set ms" and f: "find_field ?flds n = Some dc" and y: "dc j x = Some y"
    then have n: "fold_name n \<noteq> ''collectors''" using assms(2) by (auto simp: list_all_iff)
    then have "n \<noteq> ''collectors''" using fold_name_collectors by auto
    with f n have "dc \<in> {dec_int (\<lambda>n. cfg_CollectionInterval_update (\<lambda>_. n)), dec_int (\<lambda>n. cfg_SendingInterval_update (\<lambda>_. n)),
        dec_str (\<lambda>s. cfg_ServerUrl_update (\<lambda>_. s)), dec_str (\<lambda>s. cfg_LocalKey_update (\<lambda>_. s)),
        dec_str (\<lambda>s. cfg_UserKey_update (\<lambda>_. s)), dec_str (\<lambda>s. cfg_ExternalIP_update (\<lambda>_. s))}"
      unfolding find_field_def list.map map_of.simps prod.case fst_conv snd_conv fold_name_collectors
      by (auto split: if_splits option.splits)
    then show "cfg_Collectors y = cfg_Collectors x"
      using dec_int_frame [OF _, of _ j x y cfg_Collectors] dec_str_frame [OF _, of _ j x y cfg_Collectors] y by auto
  qed
qed

section \<open>Properties\<close>

text \<open>
  C14. A configuration file without a section for the collectors is accepted and stops the program:
  the settings decode to zero, and the background goroutine of the process, service, disk or
  container collector then panics in \<open>time.NewTicker\<close> after its first collection.
\<close>

theorem config_without_collectors_panics:
  assumes "unmarshal_Config (Some (JObj ms)) = Some c" "list_all (\<lambda>(n, j). fold_name n \<noteq> ''collectors'') ms"
  shows "process_background pe (fst (NewProcessCollector (cs_Process (cfg_Collectors c)))) = Panic NonPositiveTicker
    \<and> service_background se (fst (NewServiceCollector (cs_Service (cfg_Collectors c)))) = Panic NonPositiveTicker
    \<and> (\<forall>s. disk_background de (fst (NewDiskCollector (cs_Disk (cfg_Collectors c))), devices) \<noteq> Return s)
    \<and> (\<forall>s. container_background ke (fst (NewContainerCollector docker (cs_Docker (cfg_Collectors c)))) \<noteq> Return s)"
proof -
  have z: "cs_Process (cfg_Collectors c) = \<lparr>process_CacheDurationSeconds = 0, process_UpdateFrequencySeconds = 0\<rparr>"
    "cs_Service (cfg_Collectors c) = \<lparr>service_CacheDurationSeconds = 0, service_UpdateFrequencySeconds = 0\<rparr>"
    "cs_Disk (cfg_Collectors c) = \<lparr>disk_CacheDurationSeconds = 0, disk_UpdateFrequencySeconds = 0\<rparr>"
    "cs_Docker (cfg_Collectors c) = \<lparr>docker_CacheDurationSeconds = 0, docker_UpdateFrequencySeconds = 0\<rparr>"
    using unmarshal_without_collectors [OF assms] by (simp_all add: zero_Config_def)
  have d: "dur_seconds 0 = 0" by (simp add: dur_seconds_def int64_range_def)
  have p: "process_background pe (fst (NewProcessCollector (cs_Process (cfg_Collectors c)))) = Panic NonPositiveTicker"
    by (rule process_background_panics)
      (simp add: z d NewProcessCollector_def process_startBackgroundCollection_def)
  have v: "service_background se (fst (NewServiceCollector (cs_Service (cfg_Collectors c)))) = Panic NonPositiveTicker"
    by (rule service_background_panics)
      (simp add: z d NewServiceCollector_def service_startBackgroundCollection_def)
  have k: "container_background ke (fst (NewContainerCollector docker (cs_Docker (cfg_Collectors c)))) \<noteq> Return s" for s
    by (rule container_background_panics)
      (simp add: z d NewContainerCollector_def Let_def container_startBackgroundCollection_def split: option.split)
  have "disk_background de (fst (NewDiskCollector (cs_Disk (cfg_Collectors c))), devices) \<noteq> Return s" for s
  proof
    let ?s = "(fst (NewDiskCollector (cs_Disk (cfg_Collectors c))), devices)"
    assume b: "disk_background de ?s = Return s"
    then obtain s1 where "disk_collectAndCache de ?s = Return s1" by (auto simp: disk_background_def)
    from disk_background_panics [OF this] b show False
      by (simp add: z d NewDiskCollector_def disk_startBackgroundCollection_def)
  qed
  with p v k show ?thesis by blast
qed

lemma config_without_collectors_panics_witness:
  "\<exists>c. unmarshal_Config (Some (JObj [(''serverUrl'', JStr ''h:1'')])) = Some c
     \<and> process_background (sample_process_env 0 (Fin 1)) (fst (NewProcessCollector (cs_Process (cfg_Collectors c))))
         = Panic NonPositiveTicker"
proof -
  let ?ms = "[(''serverUrl'', JStr ''h:1'')]"
  obtain c where c: "unmarshal_Config (Some (JObj ?ms)) = Some c"
    by (simp add: unmarshal_Config_def dec_Config_def find_field_def)
  have "list_all (\<lambda>(n, j). fold_name n \<noteq> ''collectors'') ?ms" by (simp add: Let_def)
  from config_without_collectors_panics [OF c this] c show ?thesis by blast
qed

end
